theory Spec2Isabelle
  imports Main "HOL-Library.Sublist"
begin

section \<open>Text\<close>

text \<open>
  A \<open>string\<close> is a list of 8-bit characters, the bytes of the UTF-8 encoding of the
  text: ASCII text is represented as it is, any other character by two to four bytes.
\<close>

definition NL :: char where
  "NL = CHR 0x0A"

text \<open>\<open>s.split('\n')\<close>: the pieces between line feeds; always at least one piece.\<close>

fun splitNL :: "string \<Rightarrow> string list" where
  "splitNL [] = [[]]"
| "splitNL (c # cs) =
     (if c = NL then [] # splitNL cs
      else (case splitNL cs of [] \<Rightarrow> [[c]] | l # ls \<Rightarrow> (c # l) # ls))"

text \<open>\<open>lines.join(sep)\<close>, and \<open>lines.join('\n')\<close>.\<close>

fun joinWith :: "string \<Rightarrow> string list \<Rightarrow> string" where
  "joinWith sep [] = []"
| "joinWith sep [l] = l"
| "joinWith sep (l # m # ls) = l @ sep @ joinWith sep (m # ls)"

definition joinNL :: "string list \<Rightarrow> string" where
  "joinNL ls = joinWith [NL] ls"

text \<open>
  The white space of \<open>String.prototype.trim\<close> and of the regular-expression class
  \<open>\s\<close>, each character as its UTF-8 bytes: tab, line feed, vertical tab, form feed,
  carriage return, space, U+00A0, U+1680, U+2000 to U+200A, U+2028, U+2029, U+202F,
  U+205F, U+3000 and U+FEFF.
\<close>

definition whiteSpace :: "string list" where
  "whiteSpace =
     [[CHR 0x09], [CHR 0x0A], [CHR 0x0B], [CHR 0x0C], [CHR 0x0D], [CHR 0x20],
      [CHR 0xC2, CHR 0xA0],
      [CHR 0xE1, CHR 0x9A, CHR 0x80],
      [CHR 0xE2, CHR 0x80, CHR 0x80], [CHR 0xE2, CHR 0x80, CHR 0x81],
      [CHR 0xE2, CHR 0x80, CHR 0x82], [CHR 0xE2, CHR 0x80, CHR 0x83],
      [CHR 0xE2, CHR 0x80, CHR 0x84], [CHR 0xE2, CHR 0x80, CHR 0x85],
      [CHR 0xE2, CHR 0x80, CHR 0x86], [CHR 0xE2, CHR 0x80, CHR 0x87],
      [CHR 0xE2, CHR 0x80, CHR 0x88], [CHR 0xE2, CHR 0x80, CHR 0x89],
      [CHR 0xE2, CHR 0x80, CHR 0x8A],
      [CHR 0xE2, CHR 0x80, CHR 0xA8], [CHR 0xE2, CHR 0x80, CHR 0xA9],
      [CHR 0xE2, CHR 0x80, CHR 0xAF],
      [CHR 0xE2, CHR 0x81, CHR 0x9F],
      [CHR 0xE3, CHR 0x80, CHR 0x80],
      [CHR 0xEF, CHR 0xBB, CHR 0xBF]]"

text \<open>
  The number of bytes of the white space character a text begins with, or ends with;
  \<open>0\<close> when it begins, or ends, with none.
\<close>

definition whiteAtStart :: "string \<Rightarrow> nat" where
  "whiteAtStart s = (case find (\<lambda>w. prefix w s) whiteSpace of None \<Rightarrow> 0 | Some w \<Rightarrow> length w)"

definition whiteAtEnd :: "string \<Rightarrow> nat" where
  "whiteAtEnd s = (case find (\<lambda>w. suffix w s) whiteSpace of None \<Rightarrow> 0 | Some w \<Rightarrow> length w)"

text \<open>
  \<open>s.trim()\<close>: white space is taken off the front and off the end, one character at a
  time; \<open>n\<close> bounds the number of characters taken, and the length of the text is
  bound enough.
\<close>

primrec dropWhiteStart :: "nat \<Rightarrow> string \<Rightarrow> string" where
  "dropWhiteStart 0 s = s"
| "dropWhiteStart (Suc n) s =
     (if whiteAtStart s = 0 then s else dropWhiteStart n (drop (whiteAtStart s) s))"

primrec dropWhiteEnd :: "nat \<Rightarrow> string \<Rightarrow> string" where
  "dropWhiteEnd 0 s = s"
| "dropWhiteEnd (Suc n) s =
     (if whiteAtEnd s = 0 then s else dropWhiteEnd n (take (length s - whiteAtEnd s) s))"

definition trim :: "string \<Rightarrow> string" where
  "trim s = dropWhiteEnd (length s) (dropWhiteStart (length s) s)"

text \<open>\<open>if (line.trim())\<close>: what is left of the line is not the empty string.\<close>

definition nonBlank :: "string \<Rightarrow> bool" where
  "nonBlank l = (trim l \<noteq> [])"

text \<open>A number in a template literal.\<close>

fun string_of_nat :: "nat \<Rightarrow> string" where
  "string_of_nat n =
     (if n < 10 then [char_of (48 + n)]
      else string_of_nat (n div 10) @ [char_of (48 + n mod 10)])"

declare string_of_nat.simps [simp del]


section \<open>JavaScript values of the configuration model\<close>

text \<open>
  The server receives the configuration as JSON, so a member of it is any JSON value:
  \<open>null\<close>, a boolean, a number, a string, an array or an object; a missing property
  reads as \<open>undefined\<close>, here \<open>None\<close>. The wizard sends strings and booleans only.

  A number is kept as the text \<open>String(n)\<close> gives for it. The server does three things
  with a member: it tests it in a condition, it compares it with \<open>===\<close> to a string, and
  it prints it; the text of a number decides all three, since a number is false in a
  condition exactly when it is \<open>0\<close> or \<open>-0\<close>, which both print as \<open>0\<close>.

  The three members of the configuration itself are taken to be there: \<open>nodeConfig\<close>
  and \<open>dashboardConfig\<close> are objects read by property name (\<open>nodeConfig[key]\<close>), and of
  each switch of \<open>dockerConfig\<close> the handler uses the truth value only.
\<close>

datatype jsval =
    JNull
  | JBool bool
  | JNum string
  | JStr string
  | JArr "jsval list"
  | JObj "(string \<times> jsval) list"

type_synonym jsobj = "string \<Rightarrow> jsval option"

text \<open>\<open>v == null\<close>: true for \<open>null\<close> and \<open>undefined\<close>.\<close>

fun isNullish :: "jsval option \<Rightarrow> bool" where
  "isNullish None = True"
| "isNullish (Some JNull) = True"
| "isNullish (Some v) = False"

text \<open>The truth value of \<open>v\<close> in a condition (\<open>if (v)\<close>, \<open>v || w\<close>).\<close>

fun truthy :: "jsval option \<Rightarrow> bool" where
  "truthy None = False"
| "truthy (Some JNull) = False"
| "truthy (Some (JBool b)) = b"
| "truthy (Some (JNum r)) = (r \<noteq> ''0'')"
| "truthy (Some (JStr s)) = (s \<noteq> [])"
| "truthy (Some (JArr xs)) = True"
| "truthy (Some (JObj members)) = True"

text \<open>
  A template literal \<open>`${v}`\<close> converts \<open>v\<close> to a string. An object is converted by
  its method \<open>toString\<close>, which an object that came from JSON inherits unless it has a
  member of that name; such a member is not a function, and the conversion raises a
  \<open>TypeError\<close>. An array is converted by joining the conversions of its elements.
\<close>

fun convertible :: "jsval \<Rightarrow> bool" where
  "convertible (JArr xs) = list_all convertible xs"
| "convertible (JObj members) = (''toString'' \<notin> set (map fst members))"
| "convertible v = True"

text \<open>
  The text of a value that can be converted: an array joins its elements with commas,
  \<open>null\<close> among them as the empty string.
\<close>

fun render :: "jsval \<Rightarrow> string" where
  "render JNull = ''null''"
| "render (JBool b) = (if b then ''true'' else ''false'')"
| "render (JNum r) = r"
| "render (JStr s) = s"
| "render (JArr xs) = joinWith '','' (map (\<lambda>x. if x = JNull then [] else render x) xs)"
| "render (JObj members) = ''[object Object]''"

text \<open>The same for the value of a property, which may be \<open>undefined\<close>.\<close>

fun printable :: "jsval option \<Rightarrow> bool" where
  "printable None = True"
| "printable (Some v) = convertible v"

fun toStr :: "jsval option \<Rightarrow> string" where
  "toStr None = ''undefined''"
| "toStr (Some v) = render v"

record docker_config =
  useEnvoy :: bool
  enableBundler :: bool
  enableAoCu :: bool
  enableGrafana :: bool
  enableDashboard :: bool
  enableClickhouse :: bool
  enableLitestream :: bool
  enableAutoheal :: bool
  enableSsl :: bool

record config =
  nodeConfig :: jsobj
  dashboardConfig :: jsobj
  dockerConfig :: docker_config

datatype js_error = TypeError string | Error string

text \<open>What a conversion that fails raises.\<close>

definition conversionError :: js_error where
  "conversionError = TypeError ''Cannot convert object to primitive value''"

section \<open>The environment file: \<open>buildEnvFile\<close>\<close>

text \<open>The deny-list of \<open>shouldIncludeValue\<close>, an object literal in the source.\<close>

definition defaultValues :: "(string \<times> jsval) list" where
  "defaultValues =
    [(''AWS_ACCESS_KEY_ID'', JStr ''test''),
     (''AWS_SECRET_ACCESS_KEY'', JStr ''test''),
     (''AWS_ENDPOINT'', JStr ''http://localstack:4566''),
     (''ADMIN_USERNAME'', JStr ''admin''),
     (''ADMIN_PASSWORD'', JStr ''''),
     (''SSL_CERT_PATH'', JStr ''''),
     (''SSL_KEY_PATH'', JStr '''')]"

text \<open>
  \<open>defaultValues[key] !== value\<close> compares without conversion: an absent key gives
  \<open>undefined\<close>, which differs from every value that passed the first test.
\<close>

definition shouldIncludeValue :: "string \<Rightarrow> jsval option \<Rightarrow> bool" where
  "shouldIncludeValue key v =
     (if isNullish v \<or> v = Some (JStr '''') then False
      else map_of defaultValues key \<noteq> v)"

definition coreNodeConfigs :: "string list" where
  "coreNodeConfigs =
    [''AR_IO_WALLET'', ''OBSERVER_WALLET'', ''ADMIN_API_KEY'', ''ADMIN_API_KEY_FILE'',
     ''GRAPHQL_HOST'', ''GRAPHQL_PORT'',
     ''ARNS_ROOT_HOST'', ''START_HEIGHT'', ''STOP_HEIGHT'', ''TRUSTED_ARWEAVE_URL'',
     ''TRUSTED_NODE_URL'',
     ''TRUSTED_GATEWAY_URL'', ''TRUSTED_ARNS_GATEWAY_URL'', ''INSTANCE_ID'', ''LOG_FORMAT'',
     ''LOG_FILTER'',
     ''WEBHOOK_TARGET_SERVERS'', ''WEBHOOK_INDEX_FILTER'', ''WEBHOOK_BLOCK_FILTER'',
     ''SKIP_CACHE'', ''FILTER_CHANGE_REPROCESS'', ''SANDBOX_PROTOCOL'',
     ''SIMULATED_REQUEST_FAILURE_RATE'',
     ''START_WRITERS'', ''RUN_OBSERVER'', ''ENABLE_MEMPOOL_WATCHER'',
     ''MEMPOOL_POLLING_INTERVAL_MS'',
     ''BACKFILL_BUNDLE_RECORDS'',
     ''NODE_MAX_OLD_SPACE_SIZE'', ''RUN_AUTOHEAL'',
     ''CORE_PORT'', ''ENVOY_PORT'', ''OBSERVER_PORT'',
     ''CHAIN_CACHE_TYPE'', ''REDIS_CACHE_URL'', ''REDIS_USE_TLS'', ''REDIS_CACHE_TTL_SECONDS'']"

text \<open>\<open>serviceSpecificNodeConfigs.bundler\<close> is the empty array.\<close>

definition bundlerNodeConfigs :: "string list" where
  "bundlerNodeConfigs = []"

definition envoyConfigs :: "string list" where
  "envoyConfigs = [''ENVOY_PORT'']"

definition redisConfigs :: "string list" where
  "redisConfigs = [''REDIS_MAX_MEMORY'', ''EXTRA_REDIS_FLAGS'']"

definition clickhouseServiceConfigs :: "string list" where
  "clickhouseServiceConfigs =
    [''CLICKHOUSE_PORT'', ''CLICKHOUSE_PORT_2'', ''CLICKHOUSE_PORT_3'', ''CLICKHOUSE_USER'',
     ''CLICKHOUSE_PASSWORD'']"

definition litestreamConfigs :: "string list" where
  "litestreamConfigs =
    [''AR_IO_SQLITE_BACKUP_S3_BUCKET_NAME'', ''AR_IO_SQLITE_BACKUP_S3_BUCKET_REGION'',
     ''AR_IO_SQLITE_BACKUP_S3_BUCKET_ACCESS_KEY'', ''AR_IO_SQLITE_BACKUP_S3_BUCKET_SECRET_KEY'',
     ''AR_IO_SQLITE_BACKUP_S3_BUCKET_PREFIX'']"

definition coreConfigs :: "string list" where
  "coreConfigs = [''CORE_PORT'']"

definition adminConfigs :: "string list" where
  "adminConfigs = [''ADMIN_API_KEY'', ''ADMIN_USERNAME'', ''ADMIN_PASSWORD'']"

definition bundlerConfigs :: "string list" where
  "bundlerConfigs =
    [''BUNDLER_ARWEAVE_WALLET'', ''BUNDLER_ARWEAVE_ADDRESS'', ''GATEWAY_URL'', ''UPLOADER_URL'',
     ''APP_NAME'', ''ANS104_INDEX_FILTER'', ''ANS104_UNBUNDLE_FILTER'',
     ''AWS_S3_CONTIGUOUS_DATA_BUCKET'', ''AWS_S3_CONTIGUOUS_DATA_PREFIX'', ''AWS_ACCESS_KEY_ID'',
     ''AWS_SECRET_ACCESS_KEY'', ''AWS_REGION'', ''AWS_ENDPOINT'', ''ALLOW_LISTED_ADDRESSES'']"

definition aoCuConfigs :: "string list" where
  "aoCuConfigs = [''CU_WALLET'', ''PROCESS_CHECKPOINT_TRUSTED_OWNERS'', ''ADDITIONAL_AO_CU_ENV'']"

definition grafanaConfigs :: "string list" where
  "grafanaConfigs = [''GRAFANA_PORT'']"

definition clickhouseConfigs :: "string list" where
  "clickhouseConfigs = [''CLICKHOUSE_PORT'']"

definition dashboardOnlyConfigs :: "string list" where
  "dashboardOnlyConfigs = [''DASHBOARD_PORT'']"

definition sslConfigs :: "string list" where
  "sslConfigs = [''ENABLE_SSL'', ''SSL_CERT_PATH'', ''SSL_KEY_PATH'']"

text \<open>
  The function builds two local values side by side: the array \<open>lines\<close> and the set
  \<open>seen\<close> of keys already written. Each \<open>forEach\<close> body is one of three tests
  followed by the same two statements, \<open>lines.push(`${key}=${obj[key]}`)\<close> and
  \<open>seen.add(key)\<close>. A statement either leaves a new pair of the two or raises.
\<close>

type_synonym env_state = "string list \<times> string set"

type_synonym env_step = "env_state \<Rightarrow> js_error + env_state"

definition pushKey :: "jsobj \<Rightarrow> string \<Rightarrow> env_step" where
  "pushKey obj key st =
     (if printable (obj key)
      then Inr (fst st @ [key @ ''='' @ toStr (obj key)], insert key (snd st))
      else Inl conversionError)"

text \<open>\<open>obj[key] != null && obj[key] !== '' && !seen.has(key)\<close>\<close>

definition emitPlain :: "jsobj \<Rightarrow> string \<Rightarrow> env_step" where
  "emitPlain obj key st =
     (if \<not> isNullish (obj key) \<and> obj key \<noteq> Some (JStr '''') \<and> key \<notin> snd st
      then pushKey obj key st else Inr st)"

text \<open>\<open>obj[key] != null && obj[key] !== '' && !seen.has(key) && shouldIncludeValue(key, obj[key])\<close>\<close>

definition emitChecked :: "jsobj \<Rightarrow> string \<Rightarrow> env_step" where
  "emitChecked obj key st =
     (if \<not> isNullish (obj key) \<and> obj key \<noteq> Some (JStr '''') \<and> key \<notin> snd st
         \<and> shouldIncludeValue key (obj key)
      then pushKey obj key st else Inr st)"

text \<open>\<open>!seen.has(key) && shouldIncludeValue(key, obj[key])\<close>\<close>

definition emitGated :: "jsobj \<Rightarrow> string \<Rightarrow> env_step" where
  "emitGated obj key st =
     (if key \<notin> snd st \<and> shouldIncludeValue key (obj key)
      then pushKey obj key st else Inr st)"

text \<open>\<open>if (flag && !seen.has(KEY)) { lines.push('KEY=true'); seen.add(KEY); }\<close>\<close>

definition emitToggle :: "bool \<Rightarrow> string \<Rightarrow> env_step" where
  "emitToggle flag key st =
     (if flag \<and> key \<notin> snd st then Inr (fst st @ [key @ ''=true''], insert key (snd st))
      else Inr st)"

text \<open>\<open>keys.forEach(key => ...)\<close>: the body for each key in turn, up to the first that raises.\<close>

fun forEach :: "(string \<Rightarrow> env_step) \<Rightarrow> string list \<Rightarrow> env_step" where
  "forEach f [] st = Inr st"
| "forEach f (key # keys) st =
     (case f key st of Inl e \<Rightarrow> Inl e | Inr st' \<Rightarrow> forEach f keys st')"

text \<open>\<open>if (cond) { ... }\<close> around a block.\<close>

definition when_do :: "bool \<Rightarrow> env_step \<Rightarrow> env_step" where
  "when_do c f st = (if c then f st else Inr st)"

text \<open>
  The raw lines of \<open>nodeConfig.ADDITIONAL_ENV\<close>: nothing when the value is falsy, the
  non-blank pieces of \<open>split('\n')\<close> when it is a string; a truthy value that is not a
  string has no method \<open>split\<close>, and the call raises.
\<close>

definition additionalEnvLines :: "jsval option \<Rightarrow> js_error + string list" where
  "additionalEnvLines v =
     (if \<not> truthy v then Inr []
      else (case v of
              Some (JStr s) \<Rightarrow> Inr (filter nonBlank (splitNL s))
            | _ \<Rightarrow> Inl (TypeError ''nodeConfig.ADDITIONAL_ENV.split is not a function'')))"

text \<open>\<open>if (nodeConfig.ADDITIONAL_ENV) { ... forEach(line => { if (line.trim()) lines.push(line); }) }\<close>\<close>

definition pushAdditionalEnv :: "jsobj \<Rightarrow> env_step" where
  "pushAdditionalEnv nc st =
     (case additionalEnvLines (nc ''ADDITIONAL_ENV'') of
        Inl e \<Rightarrow> Inl e
      | Inr extra \<Rightarrow> Inr (fst st @ extra, snd st))"

definition anyServiceEnabled :: "docker_config \<Rightarrow> bool" where
  "anyServiceEnabled dc =
     (enableBundler dc \<or> enableAoCu dc \<or> enableGrafana dc \<or> enableDashboard dc \<or>
      enableClickhouse dc \<or> enableLitestream dc \<or> enableAutoheal dc)"

text \<open>The statements of \<open>buildEnvFile\<close> in source order, each a step on \<open>(lines, seen)\<close>.\<close>

definition envSteps :: "config \<Rightarrow> env_step list" where
  "envSteps cfg =
    (let nc = nodeConfig cfg; dd = dashboardConfig cfg; dc = dockerConfig cfg in
     [forEach (emitPlain nc) coreNodeConfigs,
      when_do (enableBundler dc) (forEach (emitPlain nc) bundlerNodeConfigs),
      when_do (useEnvoy dc) (forEach (emitChecked dd) envoyConfigs),
      when_do (anyServiceEnabled dc) (forEach (emitChecked dd) redisConfigs),
      when_do (truthy (dd ''ENABLE_CLICKHOUSE'')) (forEach (emitChecked dd) clickhouseServiceConfigs),
      when_do (truthy (dd ''ENABLE_LITESTREAM'')) (forEach (emitChecked dd) litestreamConfigs),
      pushAdditionalEnv nc,
      when_do (anyServiceEnabled dc \<or> useEnvoy dc) (forEach (emitGated nc) coreConfigs),
      when_do (anyServiceEnabled dc \<or> useEnvoy dc)
        (when_do (useEnvoy dc) (emitGated dd ''ENVOY_PORT'')),
      when_do (anyServiceEnabled dc \<or> useEnvoy dc)
        (when_do (enableDashboard dc) (forEach (emitGated dd) adminConfigs)),
      when_do (enableBundler dc) (forEach (emitGated dd) bundlerConfigs),
      when_do (enableAoCu dc) (forEach (emitGated dd) aoCuConfigs),
      when_do (enableGrafana dc) (forEach (emitGated dd) grafanaConfigs),
      when_do (enableClickhouse dc) (forEach (emitGated dd) clickhouseConfigs),
      when_do (enableDashboard dc) (forEach (emitGated dd) dashboardOnlyConfigs),
      when_do (enableSsl dc) (forEach (emitGated dd) sslConfigs),
      emitToggle (enableAoCu dc) ''ENABLE_AO_CU'',
      emitToggle (enableGrafana dc) ''ENABLE_GRAFANA'',
      emitToggle (enableDashboard dc) ''ENABLE_DASHBOARD'',
      emitToggle (enableClickhouse dc) ''ENABLE_CLICKHOUSE'',
      emitToggle (enableLitestream dc) ''ENABLE_LITESTREAM'',
      emitToggle (enableAutoheal dc) ''ENABLE_AUTOHEAL'',
      when_do (anyServiceEnabled dc) (forEach (emitGated dd) redisConfigs)])"

text \<open>The steps one after the other, up to the first that raises.\<close>

fun runSteps :: "env_step list \<Rightarrow> env_step" where
  "runSteps [] st = Inr st"
| "runSteps (step # steps) st =
     (case step st of Inl e \<Rightarrow> Inl e | Inr st' \<Rightarrow> runSteps steps st')"

text \<open>The array \<open>lines\<close> at the \<open>return\<close>, or the exception raised on the way.\<close>

definition buildEnvLines :: "config \<Rightarrow> js_error + string list" where
  "buildEnvLines cfg =
     (case runSteps (envSteps cfg) ([], {}) of
        Inl e \<Rightarrow> Inl e
      | Inr st \<Rightarrow> Inr (fst st))"

definition buildEnvFile :: "config \<Rightarrow> js_error + string" where
  "buildEnvFile cfg =
     (case buildEnvLines cfg of Inl e \<Rightarrow> Inl e | Inr ls \<Rightarrow> Inr (joinNL ls))"


section \<open>Regular expressions and \<open>String.prototype.replace\<close>\<close>

text \<open>
  The manifest patcher is a chain of \<open>text.replace(pattern, replacement)\<close> calls. The
  patterns use literal text, character classes, \<open>?\<close>, \<open>*\<close>, \<open>+\<close> and capturing
  groups; \<open>rx\<close> is that fragment of the pattern language, with alternation for the
  classes that have characters of more than one byte. A group carries its number.
\<close>

datatype rx =
    Cls "char \<Rightarrow> bool"
  | Lit string
  | Cat rx rx
  | Alt rx rx
  | Opt rx
  | Star rx
  | Grp nat rx

definition Plus :: "rx \<Rightarrow> rx" where
  "Plus r = Cat r (Star r)"

fun seq :: "rx list \<Rightarrow> rx" where
  "seq [] = Lit []"
| "seq [r] = r"
| "seq (r # q # rs) = Cat r (seq (q # rs))"

text \<open>One of several texts.\<close>

fun oneOf :: "string list \<Rightarrow> rx" where
  "oneOf [] = Cls (\<lambda>c. False)"
| "oneOf [w] = Lit w"
| "oneOf (w # v # ws) = Alt (Lit w) (oneOf (v # ws))"

text \<open>\<open>\s\<close>\<close>

definition White :: rx where
  "White = oneOf whiteSpace"

text \<open>
  A matcher state is the input still to be read and the captures made so far (latest
  first). \<open>ms r st\<close> lists every way \<open>r\<close> can match at the front of the input, in the
  order the backtracking matcher tries them: a quantifier is greedy, so the longer
  alternative comes first, and an iteration of \<open>*\<close> that consumes nothing is not taken.
\<close>

type_synonym mstate = "string \<times> (nat \<times> string) list"

function ms :: "rx \<Rightarrow> mstate \<Rightarrow> mstate list" where
  "ms (Cls P) st =
     (case fst st of [] \<Rightarrow> [] | c # t \<Rightarrow> if P c then [(t, snd st)] else [])"
| "ms (Lit l) st =
     (if prefix l (fst st) then [(drop (length l) (fst st), snd st)] else [])"
| "ms (Cat a b) st = concat (map (ms b) (ms a st))"
| "ms (Alt a b) st = ms a st @ ms b st"
| "ms (Opt a) st = ms a st @ [st]"
| "ms (Star a) st =
     concat (map (\<lambda>st'. if length (fst st') < length (fst st) then ms (Star a) st' else [])
                 (ms a st)) @ [st]"
| "ms (Grp n a) st =
     map (\<lambda>st'. (fst st', (n, take (length (fst st) - length (fst st')) (fst st)) # snd st'))
         (ms a st)"
  by pat_completeness auto
termination
  by (relation "measures [\<lambda>(r, st). size r, \<lambda>(r, st). length (fst st)]") auto

declare ms.simps(6) [simp del]

text \<open>The number of capturing groups of a pattern.\<close>

fun groups :: "rx \<Rightarrow> nat" where
  "groups (Cls P) = 0"
| "groups (Lit l) = 0"
| "groups (Cat a b) = groups a + groups b"
| "groups (Alt a b) = groups a + groups b"
| "groups (Opt a) = groups a"
| "groups (Star a) = groups a"
| "groups (Grp n a) = Suc (groups a)"

text \<open>
  One attempt at one position: the length of the first match in that order and its
  captures, or \<open>None\<close>.
\<close>

definition exec :: "rx \<Rightarrow> string \<Rightarrow> (nat \<times> (nat \<times> string) list) option" where
  "exec r s =
     (case ms r (s, []) of
        [] \<Rightarrow> None
      | st # _ \<Rightarrow> Some (length s - length (fst st), snd st))"

definition is_digit :: "char \<Rightarrow> bool" where
  "is_digit c = (c \<in> set ''0123456789'')"

definition is_quote :: "char \<Rightarrow> bool" where
  "is_quote c = (c = CHR 0x22 \<or> c = CHR 0x27)"

definition is_alpha :: "char \<Rightarrow> bool" where
  "is_alpha c = (c \<in> set ''abcdefghijklmnopqrstuvwxyzABCDEFGHIJKLMNOPQRSTUVWXYZ'')"

definition digit_val :: "char \<Rightarrow> nat" where
  "digit_val c = of_char c - 48"

text \<open>
  The replacement text is a template: \<open>$$\<close>, \<open>$&\<close>, \<open>$`\<close>, \<open>$'\<close> and \<open>$n\<close>,
  \<open>$nn\<close> are substituted, any other \<open>$\<close> stands for itself. The record holds what
  the substitutions refer to.
\<close>

record match_info =
  matched :: string
  before :: string
  after :: string
  captures :: "(nat \<times> string) list"
  ngroups :: nat

definition capture :: "match_info \<Rightarrow> nat \<Rightarrow> string" where
  "capture mi n = (case map_of (captures mi) n of None \<Rightarrow> [] | Some c \<Rightarrow> c)"

fun expand :: "match_info \<Rightarrow> string \<Rightarrow> string" where
  "expand mi [] = []"
| "expand mi [c] = [c]"
| "expand mi (c # d # t) =
     (if c \<noteq> CHR ''$'' then c # expand mi (d # t)
      else if d = CHR ''$'' then CHR ''$'' # expand mi t
      else if d = CHR ''&'' then matched mi @ expand mi t
      else if d = CHR 0x60 then before mi @ expand mi t
      else if d = CHR 0x27 then after mi @ expand mi t
      else if is_digit d then
        (case t of
           e # u \<Rightarrow>
             if is_digit e \<and> 10 * digit_val d + digit_val e \<le> ngroups mi then
               (if 1 \<le> 10 * digit_val d + digit_val e
                then capture mi (10 * digit_val d + digit_val e) @ expand mi u
                else c # d # e # expand mi u)
             else if 1 \<le> digit_val d \<and> digit_val d \<le> ngroups mi
               then capture mi (digit_val d) @ expand mi t
             else c # d # expand mi t
         | [] \<Rightarrow>
             if 1 \<le> digit_val d \<and> digit_val d \<le> ngroups mi
               then capture mi (digit_val d)
             else [c, d])
      else c # expand mi (d # t))"

text \<open>
  \<open>text.replace(/r/g, template)\<close>: the matcher is tried at each position from the
  left; a match is replaced and the scan goes on behind it. After an empty match the
  next character is copied and the scan goes on behind that. \<open>pre\<close> is the text
  already passed.
\<close>

function scan :: "rx \<Rightarrow> string \<Rightarrow> string \<Rightarrow> string \<Rightarrow> string" where
  "scan r tmpl pre s =
     (case exec r s of
        None \<Rightarrow> (case s of [] \<Rightarrow> [] | c # t \<Rightarrow> c # scan r tmpl (pre @ [c]) t)
      | Some (n, caps) \<Rightarrow>
          expand \<lparr>matched = take n s, before = pre, after = drop n s,
                  captures = caps, ngroups = groups r\<rparr> tmpl @
          (if n = 0 then (case s of [] \<Rightarrow> [] | c # t \<Rightarrow> c # scan r tmpl (pre @ [c]) t)
           else scan r tmpl (pre @ take n s) (drop n s)))"
  by pat_completeness auto
termination
  by (relation "measure (\<lambda>(r, tmpl, pre, s). length s)") (auto simp: exec_def split: list.splits)

declare scan.simps [simp del]

definition replaceAll :: "rx \<Rightarrow> string \<Rightarrow> string \<Rightarrow> string" where
  "replaceAll r tmpl s = scan r tmpl [] s"

text \<open>\<open>text.replace(pattern, template)\<close> with a string pattern: only the first occurrence.\<close>

fun scanFirst :: "string \<Rightarrow> string \<Rightarrow> string \<Rightarrow> string \<Rightarrow> string" where
  "scanFirst pat tmpl pre s =
     (if prefix pat s
      then expand \<lparr>matched = pat, before = pre, after = drop (length pat) s,
                   captures = [], ngroups = 0\<rparr> tmpl @ drop (length pat) s
      else (case s of [] \<Rightarrow> [] | c # t \<Rightarrow> c # scanFirst pat tmpl (pre @ [c]) t))"

definition replaceFirst :: "string \<Rightarrow> string \<Rightarrow> string \<Rightarrow> string" where
  "replaceFirst pat tmpl s = scanFirst pat tmpl [] s"

section \<open>The manifest patcher\<close>

text \<open>\<open>/["']?\d+:PORT["']?/\<close>\<close>

definition portBinding :: "string \<Rightarrow> rx" where
  "portBinding port =
     seq [Opt (Cls is_quote), Plus (Cls is_digit), Lit (CHR '':'' # port), Opt (Cls is_quote)]"

text \<open>\<open>/ports:\s*\n\s*-\s*["']?\d+:PORT["']?/\<close>\<close>

definition portsBlock :: "string \<Rightarrow> rx" where
  "portsBlock port =
     seq [Lit ''ports:'', Star White, Lit [NL], Star White, Lit ''-'',
          Star White,
          Opt (Cls is_quote), Plus (Cls is_digit), Lit (CHR '':'' # port), Opt (Cls is_quote)]"

text \<open>\<open>"${VAR:-PORT}:PORT"\<close>, the replacement of a single binding.\<close>

definition bindingText :: "string \<Rightarrow> string \<Rightarrow> string" where
  \<open>bindingText var port = ''"${'' @ var @ '':-'' @ port @ ''}:'' @ port @ ''"''\<close>

text \<open>\<open>'ports:\n      - "${VAR:-PORT}:PORT"'\<close>, the replacement of a block.\<close>

definition blockText :: "string \<Rightarrow> string \<Rightarrow> string" where
  "blockText var port = ''ports:'' @ [NL] @ ''      - '' @ bindingText var port"

text \<open>
  The dashboard port is rewritten with the configured port as the default:
  \<open>`"\${DASHBOARD_PORT:-${config.dashboardConfig.DASHBOARD_PORT}}:3001"`\<close>.
\<close>

definition dashboardBindingText :: "string \<Rightarrow> string" where
  \<open>dashboardBindingText dflt = ''"${DASHBOARD_PORT:-'' @ dflt @ ''}:3001"''\<close>

text \<open>The twelve \<open>replace\<close> calls of \<open>fixPortMappings\<close>, in source order.\<close>

definition portRules :: "(rx \<times> string) list" where
  "portRules =
    [(portsBlock ''3000'', blockText ''ENVOY_PORT'' ''3000''),
     (portsBlock ''4000'', blockText ''CORE_PORT'' ''4000''),
     (portsBlock ''5050'', blockText ''OBSERVER_PORT'' ''5050''),
     (portsBlock ''8123'', blockText ''CLICKHOUSE_PORT_2'' ''8123''),
     (portsBlock ''8443'', blockText ''CLICKHOUSE_PORT_3'' ''8443''),
     (portsBlock ''9000'', blockText ''CLICKHOUSE_PORT'' ''9000''),
     (portBinding ''3000'', bindingText ''ENVOY_PORT'' ''3000''),
     (portBinding ''4000'', bindingText ''CORE_PORT'' ''4000''),
     (portBinding ''5050'', bindingText ''OBSERVER_PORT'' ''5050''),
     (portBinding ''8123'', bindingText ''CLICKHOUSE_PORT_2'' ''8123''),
     (portBinding ''8443'', bindingText ''CLICKHOUSE_PORT_3'' ''8443''),
     (portBinding ''9000'', bindingText ''CLICKHOUSE_PORT'' ''9000'')]"

definition applyRules :: "(rx \<times> string) list \<Rightarrow> string \<Rightarrow> string" where
  "applyRules rules s = fold (\<lambda>rule fixed. replaceAll (fst rule) (snd rule) fixed) rules s"

definition fixPortMappings :: "string \<Rightarrow> string" where
  "fixPortMappings composeContent = applyRules portRules composeContent"

text \<open>\<open>/networks:\s*\n\s*ar-io-network:\s*\n\s*external:\s*true/\<close>\<close>

definition externalNetwork :: rx where
  "externalNetwork =
     seq [Lit ''networks:'', Star White, Lit [NL], Star White,
          Lit ''ar-io-network:'', Star White, Lit [NL], Star White,
          Lit ''external:'', Star White, Lit ''true'']"

definition prometheusMount :: string where
  "prometheusMount = ''      - ./prometheus.yml:/etc/prometheus/prometheus.yml''"

text \<open>\<open>/\s*volumes:\s*\n(\s*\n)+/\<close>\<close>

definition emptyVolumes :: rx where
  "emptyVolumes =
     seq [Star White, Lit ''volumes:'', Star White, Lit [NL],
          Plus (Grp 1 (Cat (Star White) (Lit [NL])))]"

text \<open>\<open>/\s*volumes:\s*\n(\s*)([a-zA-Z])/\<close>\<close>

definition volumesBeforeSection :: rx where
  "volumesBeforeSection =
     seq [Star White, Lit ''volumes:'', Star White, Lit [NL],
          Grp 1 (Star White), Grp 2 (Cls is_alpha)]"

text \<open>
  What the request handler does to \<open>docker-compose.grafana.yaml\<close> between reading and
  writing it: the port rewrite, then the four structural replacements.
\<close>

definition fixGrafanaCompose :: "string \<Rightarrow> string" where
  "fixGrafanaCompose grafanaCompose =
     (let g1 = fixPortMappings grafanaCompose;
          g2 = replaceAll externalNetwork (''networks:'' @ [NL] @ ''  ar-io-network:'') g1;
          g3 = replaceFirst prometheusMount [] g2;
          g4 = replaceAll emptyVolumes [NL] g3;
          g5 = replaceAll volumesBeforeSection (NL # ''$1$2'') g4
      in g5)"

definition fixDashboardCompose :: "string \<Rightarrow> string \<Rightarrow> string" where
  "fixDashboardCompose dflt dashboardCompose =
     (let d1 = fixPortMappings dashboardCompose;
          d2 = replaceAll (portsBlock ''3001'')
                 (''ports:'' @ [NL] @ ''      - '' @ dashboardBindingText dflt) d1;
          d3 = replaceAll (portBinding ''3001'') (dashboardBindingText dflt) d2
      in d3)"

section \<open>The server: state, log and effects\<close>

text \<open>
  The module keeps three variables: \<open>deploymentLogs\<close>, \<open>currentDeploymentProcess\<close>
  and \<open>deploymentCancelled\<close>. The other fields record what the handlers do to the
  world outside them:
  \<^item> \<open>clock\<close>: the ISO time stamp read when the k-th log line is written;
  \<^item> \<open>procs\<close>: every \<open>spawn(command, args)\<close> in order; the handle of a child process
    is its index in this list;
  \<^item> \<open>commands\<close>: every shell command run through \<open>exec\<close>;
  \<^item> \<open>signals\<close>: every \<open>handle.kill(signal)\<close>;
  \<^item> \<open>files\<close>: the files under the deployment directory, by path;
  \<^item> \<open>onClose\<close>: what the \<open>close\<close> listener of a deployment process has captured,
    the request's \<open>config\<close> and \<open>composeArgs\<close>;
  \<^item> \<open>composeFiles\<close>: the array of that name, local to the request being handled.
\<close>

record server =
  deploymentLogs :: "string list"
  currentDeploymentProcess :: "nat option"
  deploymentCancelled :: bool
  clock :: "nat \<Rightarrow> string"
  procs :: "(string \<times> string list) list"
  commands :: "string list"
  signals :: "(nat \<times> string) list"
  files :: "string \<Rightarrow> string option"
  onClose :: "nat \<Rightarrow> (config \<times> string list) option"
  composeFiles :: "string list"

definition appendLog :: "string \<Rightarrow> server \<Rightarrow> server" where
  "appendLog msg s =
     s\<lparr>deploymentLogs :=
         deploymentLogs s @ [''['' @ clock s (length (deploymentLogs s)) @ ''] '' @ msg]\<rparr>"

fun message :: "js_error \<Rightarrow> string" where
  "message (TypeError m) = m"
| "message (Error m) = m"

text \<open>
  A statement of a handler either completes or throws; the state it leaves is kept in
  both cases, since the log and the files are not rolled back.
\<close>

type_synonym action = "server \<Rightarrow> js_error option \<times> server"

fun seqA :: "action list \<Rightarrow> action" where
  "seqA [] s = (None, s)"
| "seqA (a # as) s =
     (case a s of (None, s') \<Rightarrow> seqA as s' | (Some e, s') \<Rightarrow> (Some e, s'))"

definition skipA :: action where
  "skipA s = (None, s)"

definition throwA :: "js_error \<Rightarrow> action" where
  "throwA e s = (Some e, s)"

definition logA :: "string \<Rightarrow> action" where
  "logA msg s = (None, appendLog msg s)"

definition ifA :: "bool \<Rightarrow> action list \<Rightarrow> action" where
  "ifA c as = (if c then seqA as else skipA)"

text \<open>\<open>try { body } catch (err) { handler }\<close>\<close>

definition tryA :: "action list \<Rightarrow> (js_error \<Rightarrow> action) \<Rightarrow> action" where
  "tryA body handler s =
     (case seqA body s of (None, s') \<Rightarrow> (None, s') | (Some e, s') \<Rightarrow> handler e s')"

text \<open>\<open>spawn(command, args)\<close>\<close>

definition spawnA :: "string \<Rightarrow> string list \<Rightarrow> action" where
  "spawnA cmd args s = (None, s\<lparr>procs := procs s @ [(cmd, args)]\<rparr>)"

text \<open>
  \<open>await execPromise(command)\<close>: the command is run; the promise is rejected when the
  command fails, which \<open>outcome\<close> decides.
\<close>

definition execA :: "(string \<Rightarrow> js_error option) \<Rightarrow> string \<Rightarrow> action" where
  "execA outcome cmd s = (outcome cmd, s\<lparr>commands := commands s @ [cmd]\<rparr>)"

definition writeFileA :: "string \<Rightarrow> string \<Rightarrow> action" where
  "writeFileA path content s = (None, s\<lparr>files := (files s)(path \<mapsto> content)\<rparr>)"

text \<open>
  \<open>fs.writeFile(path, v)\<close> for a member \<open>v\<close> of the configuration. A string is
  written. What the runtime makes of other data is not in this program: \<open>other\<close>
  gives the error it raises, or the text it writes.
\<close>

definition writeValueA :: "(jsval option \<Rightarrow> js_error + string) \<Rightarrow> string \<Rightarrow> jsval option \<Rightarrow> action" where
  "writeValueA other path v =
     (case v of
        Some (JStr content) \<Rightarrow> writeFileA path content
      | _ \<Rightarrow> (case other v of
               Inl e \<Rightarrow> throwA e
             | Inr content \<Rightarrow> writeFileA path content))"

text \<open>
  The conversions of a statement with template literals: the statement raises when one
  of the values it prints cannot be converted.
\<close>

definition convertA :: "jsval option list \<Rightarrow> action" where
  "convertA vs = (if list_all printable vs then skipA else throwA conversionError)"

definition enoent :: "string \<Rightarrow> js_error" where
  "enoent path = Error (''ENOENT: no such file or directory, open '' @ [CHR 0x27] @ path @ [CHR 0x27])"

text \<open>\<open>text = await fs.readFile(path); text = f(text); await fs.writeFile(path, text)\<close>\<close>

definition patchFileA :: "string \<Rightarrow> (string \<Rightarrow> string) \<Rightarrow> action" where
  "patchFileA path f s =
     (case files s path of
        None \<Rightarrow> (Some (enoent path), s)
      | Some content \<Rightarrow> (None, s\<lparr>files := (files s)(path \<mapsto> f content)\<rparr>))"

text \<open>\<open>if (await fs.access(path).then(() => true).catch(() => false)) { ... } else { ... }\<close>\<close>

definition ifExistsA :: "string \<Rightarrow> action list \<Rightarrow> action list \<Rightarrow> action" where
  "ifExistsA path as bs s = (if files s path \<noteq> None then seqA as s else seqA bs s)"

text \<open>\<open>await fs.access(path)\<close>\<close>

definition accessA :: "string \<Rightarrow> action" where
  "accessA path s = (if files s path \<noteq> None then (None, s) else (Some (enoent path), s))"

definition unlinkA :: "string \<Rightarrow> action" where
  "unlinkA path s =
     (if files s path \<noteq> None then (None, s\<lparr>files := (files s)(path := None)\<rparr>)
      else (Some (enoent path), s))"

definition pushComposeFileA :: "string \<Rightarrow> action" where
  "pushComposeFileA f s = (None, s\<lparr>composeFiles := composeFiles s @ [f]\<rparr>)"

text \<open>The pictographs of the log messages, as UTF-8.\<close>

definition check_mark :: string where
  "check_mark = [CHR 0xE2, CHR 0x9C, CHR 0x85]"

definition warning_sign :: string where
  "warning_sign = [CHR 0xE2, CHR 0x9A, CHR 0xA0, CHR 0xEF, CHR 0xB8, CHR 0x8F]"

definition memo_sign :: string where
  "memo_sign = [CHR 0xF0, CHR 0x9F, CHR 0x93, CHR 0x9D]"

definition party_sign :: string where
  "party_sign = [CHR 0xF0, CHR 0x9F, CHR 0x8E, CHR 0x89]"

text \<open>An exit code in a template literal; \<open>null\<close> when a signal ended the process.\<close>

fun showCode :: "nat option \<Rightarrow> string" where
  "showCode None = ''null''"
| "showCode (Some n) = string_of_nat n"

section \<open>What a deployment request meets outside the server\<close>

datatype tags_body =
    TagsUnparsable string
  | TagsNoName
  | TagsLatest string

datatype fetch_result =
    FetchThrows js_error
  | FetchStatus nat
  | FetchBody string

text \<open>
  \<^item> \<open>jwkToAddress\<close>: \<open>JSON.parse\<close> of the wallet text followed by
    \<open>arweave.wallets.jwkToAddress\<close>; either may throw;
  \<^item> \<open>tagsFetch\<close>: the request for the tag list; \<open>Inl\<close> when \<open>fetch\<close> or \<open>text()\<close>
    rejects, else what the \<open>try\<close> block makes of the body: an exception with its
    message, no usable first tag, or the name of the first tag;
  \<^item> \<open>repoExists\<close>, \<open>repoStillExists\<close>: the two \<open>fs.access(deployDir)\<close> probes;
  \<^item> \<open>updateExit\<close>, \<open>cloneExit\<close>: exit code and collected output of the two git runs;
  \<^item> \<open>repoFiles\<close>: the files in the deployment directory once git has run;
  \<^item> \<open>dashboardEnvFetch\<close>, \<open>dashboardComposeFetch\<close>: the two downloads;
  \<^item> \<open>execResult\<close>: which shell commands fail, and how;
  \<^item> \<open>writeFileData\<close>: what \<open>fs.writeFile\<close> makes of data that is not a string.
\<close>

record deploy_env =
  jwkToAddress :: "jsval option \<Rightarrow> js_error + string"
  tagsFetch :: "js_error + tags_body"
  repoExists :: bool
  updateExit :: "nat option \<times> string"
  repoStillExists :: bool
  cloneExit :: "nat option \<times> string"
  repoFiles :: "string \<Rightarrow> string option"
  dashboardEnvFetch :: fetch_result
  dashboardComposeFetch :: fetch_result
  execResult :: "string \<Rightarrow> js_error option"
  writeFileData :: "jsval option \<Rightarrow> js_error + string"

definition deployDir :: string where
  "deployDir = ''/tmp/ar-io-node''"

text \<open>\<open>a || ''\<close> on values.\<close>

definition orEmpty :: "jsval option \<Rightarrow> jsval" where
  "orEmpty v = (if truthy v then (case v of Some x \<Rightarrow> x | None \<Rightarrow> JStr []) else JStr [])"

text \<open>\<open>`${a || d}`\<close>, and the values it converts when \<open>d\<close> converts \<open>ws\<close>.\<close>

definition orElse :: "jsval option \<Rightarrow> string \<Rightarrow> string" where
  "orElse v d = (if truthy v then toStr v else d)"

definition orElseValues :: "jsval option \<Rightarrow> jsval option list \<Rightarrow> jsval option list" where
  "orElseValues v ws = (if truthy v then [v] else ws)"

text \<open>
  The address both derivation blocks arrive at: the derived address when the derivation
  returns a non-empty one, else the configured address or the empty string.
\<close>

definition derivedBundlerAddress :: "deploy_env \<Rightarrow> jsobj \<Rightarrow> jsval" where
  "derivedBundlerAddress env dd =
     (if truthy (dd ''BUNDLER_ARWEAVE_WALLET'') then
        (case jwkToAddress env (dd ''BUNDLER_ARWEAVE_WALLET'') of
           Inr a \<Rightarrow> if a \<noteq> [] then JStr a else orEmpty (dd ''BUNDLER_ARWEAVE_ADDRESS'')
         | Inl e \<Rightarrow> orEmpty (dd ''BUNDLER_ARWEAVE_ADDRESS''))
      else orEmpty (dd ''BUNDLER_ARWEAVE_ADDRESS''))"

definition setBundlerAddress :: "jsval \<Rightarrow> config \<Rightarrow> config" where
  "setBundlerAddress a cfg =
     cfg\<lparr>dashboardConfig := (dashboardConfig cfg)(''BUNDLER_ARWEAVE_ADDRESS'' \<mapsto> a)\<rparr>"

text \<open>The configuration after the block "Derive bundler address BEFORE building env file".\<close>

definition preDerived :: "deploy_env \<Rightarrow> config \<Rightarrow> config" where
  "preDerived env cfg =
     (if enableBundler (dockerConfig cfg) \<and> truthy (dashboardConfig cfg ''BUNDLER_ARWEAVE_WALLET'')
      then setBundlerAddress
             (orEmpty (Some (derivedBundlerAddress env (dashboardConfig cfg)))) cfg
      else cfg)"

definition preDeriveA :: "deploy_env \<Rightarrow> config \<Rightarrow> action" where
  "preDeriveA env cfg =
     ifA (enableBundler (dockerConfig cfg) \<and> truthy (dashboardConfig cfg ''BUNDLER_ARWEAVE_WALLET''))
       [case jwkToAddress env (dashboardConfig cfg ''BUNDLER_ARWEAVE_WALLET'') of
          Inr a \<Rightarrow> ifA (a \<noteq> []) [logA (check_mark @ '' Pre-derived bundler address: '' @ a)]
        | Inl e \<Rightarrow> logA (warning_sign @ '' Pre-derivation failed: '' @ message e)]"

definition latestTag :: "deploy_env \<Rightarrow> string" where
  "latestTag env = (case tagsFetch env of Inr (TagsLatest t) \<Rightarrow> t | _ \<Rightarrow> ''develop'')"

definition fetchTagsA :: "deploy_env \<Rightarrow> action" where
  "fetchTagsA env =
     (case tagsFetch env of
        Inl e \<Rightarrow> throwA e
      | Inr (TagsUnparsable m) \<Rightarrow>
          logA (''Error parsing tags JSON: '' @ m @ '', falling back to '' @ [CHR 0x27] @ ''develop'' @ [CHR 0x27])
      | Inr _ \<Rightarrow> skipA)"

section \<open>\<open>POST /deploy\<close>\<close>

subsection \<open>Repository provisioning\<close>

definition updateCommand :: "string \<Rightarrow> string" where
  \<open>updateCommand tag =
     ''cd "'' @ deployDir @ ''" && git fetch --tags && git reset --hard && git checkout '' @ tag @
     '' && git pull origin '' @ tag\<close>

text \<open>
  The update of an existing working copy. The listener on \<open>close\<close> calls \<open>resolve\<close>
  in both branches, so the promise this block waits for is never rejected.
\<close>

definition updateRepositoryA :: "deploy_env \<Rightarrow> action" where
  "updateRepositoryA env =
     ifA (repoExists env)
       [logA (''Repository exists, updating to latest version ('' @ latestTag env @ '')...''),
        spawnA ''bash'' [''-c'', updateCommand (latestTag env)],
        (if fst (updateExit env) = Some 0 then logA ''Repository updated successfully''
         else seqA
           [logA (''Git update failed with code '' @ showCode (fst (updateExit env)) @ '': '' @
                  snd (updateExit env)),
            logA ''Falling back to fresh clone...''])]"

text \<open>\<open>stillNeedsClone || !repoExists\<close>\<close>

definition cloneNeeded :: "deploy_env \<Rightarrow> bool" where
  "cloneNeeded env = (\<not> repoStillExists env \<or> \<not> repoExists env)"

text \<open>The clone. A non-zero exit code rejects the promise, and the \<open>await\<close> throws.\<close>

definition cloneRepositoryA :: "deploy_env \<Rightarrow> action" where
  "cloneRepositoryA env =
     ifA (cloneNeeded env)
       [logA (''Cloning AR.IO node repository ('' @ latestTag env @ '')...''),
        spawnA ''git''
          [''clone'', ''--branch'', latestTag env, ''--depth'', ''1'',
           ''https://github.com/ar-io/ar-io-node.git'', deployDir],
        (if fst (cloneExit env) = Some 0 then logA ''Repository cloned successfully''
         else seqA
           [logA (''Git clone failed with code '' @ showCode (fst (cloneExit env)) @ '': '' @
                  snd (cloneExit env)),
            throwA (Error (''Git clone failed: '' @ snd (cloneExit env)))])]"

text \<open>From here on the handler sees the directory as git has left it.\<close>

definition workingCopyA :: "deploy_env \<Rightarrow> action" where
  "workingCopyA env s = (None, s\<lparr>files := repoFiles env\<rparr>)"

subsection \<open>Admin dashboard files\<close>

definition downloadA :: "fetch_result \<Rightarrow> string \<Rightarrow> string \<Rightarrow> action" where
  "downloadA res path name =
     (case res of
        FetchThrows e \<Rightarrow> throwA e
      | FetchStatus n \<Rightarrow>
          logA (warning_sign @ '' Failed to download '' @ name @ '': '' @ string_of_nat n)
      | FetchBody content \<Rightarrow>
          seqA [writeFileA path content, logA (check_mark @ '' Downloaded '' @ name)])"

definition dashboardEnvLines :: "config \<Rightarrow> string list" where
  "dashboardEnvLines cfg =
     (let dd = dashboardConfig cfg; nc = nodeConfig cfg in
      [''ADMIN_USERNAME='' @ toStr (dd ''ADMIN_USERNAME''),
       ''ADMIN_PASSWORD='' @ toStr (dd ''ADMIN_PASSWORD''),
       ''NEXTAUTH_SECRET='' @ orElse (dd ''NEXTAUTH_SECRET'') ''your-admin-api-key'',
       ''NEXTAUTH_URL='' @ orElse (dd ''NEXTAUTH_URL'')
                            (''http://localhost:'' @ toStr (dd ''DASHBOARD_PORT'')),
       ''AR_IO_NODE_PATH='' @ orElse (dd ''AR_IO_NODE_PATH'') deployDir,
       ''DOCKER_PROJECT='' @ orElse (dd ''DOCKER_PROJECT'') ''ar-io-node'',
       ''NEXT_PUBLIC_GRAFANA_URL='' @ orElse (dd ''NEXT_PUBLIC_GRAFANA_URL'')
                            (''http://localhost:'' @ toStr (dd ''GRAFANA_PORT'')),
       ''ADMIN_API_KEY='' @ toStr (nc ''ADMIN_API_KEY'')])"

text \<open>The values those eight template literals convert, in order.\<close>

definition dashboardEnvValues :: "config \<Rightarrow> jsval option list" where
  "dashboardEnvValues cfg =
     (let dd = dashboardConfig cfg; nc = nodeConfig cfg in
      [dd ''ADMIN_USERNAME'', dd ''ADMIN_PASSWORD''] @
      orElseValues (dd ''NEXTAUTH_SECRET'') [] @
      orElseValues (dd ''NEXTAUTH_URL'') [dd ''DASHBOARD_PORT''] @
      orElseValues (dd ''AR_IO_NODE_PATH'') [] @
      orElseValues (dd ''DOCKER_PROJECT'') [] @
      orElseValues (dd ''NEXT_PUBLIC_GRAFANA_URL'') [dd ''GRAFANA_PORT''] @
      [nc ''ADMIN_API_KEY''])"

definition dashboardFilesA :: "deploy_env \<Rightarrow> config \<Rightarrow> action" where
  "dashboardFilesA env cfg =
     ifA (enableDashboard (dockerConfig cfg))
       [logA ''Admin dashboard enabled - fetching dashboard files...'',
        tryA
          [downloadA (dashboardEnvFetch env) (deployDir @ ''/.env.dashboard.example'')
             ''.env.dashboard.example'',
           downloadA (dashboardComposeFetch env) (deployDir @ ''/docker-compose.dashboard.yml'')
             ''docker-compose.dashboard.yml'',
           convertA (dashboardEnvValues cfg),
           writeFileA (deployDir @ ''/.env.dashboard'') (joinNL (dashboardEnvLines cfg)),
           logA (check_mark @ '' Created .env.dashboard with user configuration'')]
          (\<lambda>error. logA (warning_sign @ '' Error fetching admin dashboard files: '' @
                          message error))]"

subsection \<open>Patching the compose files\<close>

definition setComposeFilesA :: "string list \<Rightarrow> action" where
  "setComposeFilesA fs s = (None, s\<lparr>composeFiles := fs\<rparr>)"

definition patchComposeA :: "config \<Rightarrow> action" where
  "patchComposeA cfg =
     (let dc = dockerConfig cfg in
      seqA
       [setComposeFilesA [''docker-compose.yaml''],
        logA ''Fixing port mappings in docker-compose.yaml'',
        patchFileA (deployDir @ ''/docker-compose.yaml'') fixPortMappings,
        logA ''docker-compose.yaml updated with fixed port mappings'',
        ifA (enableAoCu dc)
          [logA ''Fixing port mappings in docker-compose.ao.yaml'',
           patchFileA (deployDir @ ''/docker-compose.ao.yaml'') fixPortMappings,
           logA ''docker-compose.ao.yaml updated with port mappings'',
           pushComposeFileA ''docker-compose.ao.yaml''],
        ifA (enableBundler dc)
          [logA ''Fixing port mappings in docker-compose.bundler.yaml'',
           patchFileA (deployDir @ ''/docker-compose.bundler.yaml'') fixPortMappings,
           logA ''docker-compose.bundler.yaml updated with port mappings'',
           pushComposeFileA ''docker-compose.bundler.yaml''],
        ifA (enableGrafana dc)
          [ifExistsA (deployDir @ ''/docker-compose.grafana.yaml'')
             [patchFileA (deployDir @ ''/docker-compose.grafana.yaml'') fixGrafanaCompose,
              logA (''Fixed Grafana compose file: port mappings, network config, '' @
                    ''and removed problematic prometheus.yml mount'')]
             [],
           pushComposeFileA ''docker-compose.grafana.yaml''],
        ifA (enableDashboard dc)
          [ifExistsA (deployDir @ ''/docker-compose.dashboard.yml'')
             [convertA [dashboardConfig cfg ''DASHBOARD_PORT''],
              patchFileA (deployDir @ ''/docker-compose.dashboard.yml'')
                (fixDashboardCompose (toStr (dashboardConfig cfg ''DASHBOARD_PORT''))),
              logA ''Fixed dashboard compose file: port mappings updated'',
              pushComposeFileA ''docker-compose.dashboard.yml'']
             [logA (warning_sign @
                    '' Dashboard compose file not found, dashboard may not be deployed'')]],
        ifA (enableClickhouse dc)
          [logA ''ClickHouse configuration files available in cloned repository''],
        logA ''Using original AR.IO repository docker-compose configuration'',
        logA ''.env example files available in cloned repository''])"

subsection \<open>Writing the generated files\<close>

text \<open>
  The old \<open>.env\<close> is removed inside \<open>try\<close>/\<open>catch\<close>, then the text computed at the start
  of the request is written.
\<close>

definition writeEnvA :: "string \<Rightarrow> action" where
  "writeEnvA envContent =
     seqA
       [tryA [unlinkA (deployDir @ ''/.env''), logA ''Removed existing .env file'']
          (\<lambda>err. logA ''No existing .env file to remove''),
        writeFileA (deployDir @ ''/.env'') envContent,
        logA ''.env file regenerated with current configuration'']"

definition observerWalletA :: "deploy_env \<Rightarrow> config \<Rightarrow> action" where
  "observerWalletA env cfg =
     (let nc = nodeConfig cfg in
      ifA (truthy (nc ''OBSERVER_JWK'') \<and> truthy (nc ''OBSERVER_WALLET''))
        [convertA [nc ''OBSERVER_WALLET''],
         writeValueA (writeFileData env)
           (deployDir @ ''/wallets/'' @ toStr (nc ''OBSERVER_WALLET'') @ ''.json'')
           (nc ''OBSERVER_JWK''),
         logA (check_mark @ '' Observer wallet created: '' @ toStr (nc ''OBSERVER_WALLET'') @
               ''.json'')])"

definition prometheusConfig :: string where
  "prometheusConfig = joinNL
    [''global:'',
     ''  scrape_interval: 15s # 5 minute scrape interval'',
     ''  evaluation_interval: 1m # Evaluate rules every 1 minute.'',
     [],
     ''scrape_configs:'',
     ''  - job_name: 'prometheus' # Scrape configuration for Prometheus itself'',
     ''    static_configs:'',
     ''      - targets: ['prometheus:9090']'',
     [],
     ''  - job_name: 'node_exporter' # Scrape server stats'',
     ''    static_configs:'',
     ''      - targets: ['node-exporter:9100']'',
     [],
     ''  - job_name: 'ar-io-node' # Scrape our node'',
     ''    metrics_path: '/ar-io/__gateway_metrics'' @ [CHR 0x27],
     ''    static_configs:'',
     ''      - targets: ['envoy:3000']'',
     [],
     ''  - job_name: 'ao-cu' # Scrape our compute unit'',
     ''    metrics_path: '/ao/cu/metrics'' @ [CHR 0x27],
     ''    static_configs:'',
     ''      - targets: ['envoy:3000']'',
     []]"

definition overrideYaml :: "config \<Rightarrow> string" where
  \<open>overrideYaml cfg =
     joinNL
       [''# Docker Compose override to fix network configuration'',
        ''networks:'',
        ''  ar-io-network:'',
        ''    name: ${DOCKER_NETWORK_NAME:-ar-io-network}'',
        ''    external: false'',
        []] @
     (if enableGrafana (dockerConfig cfg) then
        joinNL
          [[],
           ''services:'',
           ''  grafana:'',
           ''    user: "0:0"  # Run as root to fix /var/lib/grafana permissions'',
           []]
      else [])\<close>

definition dataDirsA :: "config \<Rightarrow> action" where
  "dataDirsA cfg =
     seqA
       [ifA (enableGrafana (dockerConfig cfg)) [logA ''Ensured Grafana data directory exists''],
        logA ''Ensured AR.IO core data directories exist'',
        ifA (enableGrafana (dockerConfig cfg))
          [writeFileA (deployDir @ ''/prometheus.yml'') prometheusConfig,
           logA ''Created Prometheus configuration with AR.IO node metrics scraping''],
        writeFileA (deployDir @ ''/docker-compose.override.yaml'') (overrideYaml cfg),
        logA ''Created docker-compose.override.yaml with network configuration'',
        pushComposeFileA ''docker-compose.override.yaml'',
        logA ''Added docker-compose.override.yaml as LAST compose file for precedence'']"

definition portLogsA :: "config \<Rightarrow> action" where
  "portLogsA cfg =
     seqA
       [ifA (truthy (dashboardConfig cfg ''ENABLE_ENVOY''))
          [convertA [dashboardConfig cfg ''ENVOY_PORT''],
           logA (''Gateway accessible at: http://localhost:'' @
                 toStr (dashboardConfig cfg ''ENVOY_PORT''))],
        convertA [nodeConfig cfg ''CORE_PORT''],
        logA (''Core API accessible at: http://localhost:'' @ toStr (nodeConfig cfg ''CORE_PORT'')),
        ifA (enableDashboard (dockerConfig cfg))
          [convertA [dashboardConfig cfg ''DASHBOARD_PORT''],
           logA (''Admin Dashboard will be accessible at: http://localhost:'' @
                 toStr (dashboardConfig cfg ''DASHBOARD_PORT''))]]"

subsection \<open>Module-specific env files\<close>

text \<open>
  \<open>.env.ao\<close>: four fixed lines, then every line of \<open>ADDITIONAL_AO_CU_ENV\<close> when that
  is truthy (\<open>split\<close> raises on a value that is not a string).
\<close>

definition aoValues :: "jsobj \<Rightarrow> jsval option list" where
  "aoValues dd =
     [dd ''CU_WALLET'', dd ''PROCESS_CHECKPOINT_TRUSTED_OWNERS'', dd ''GATEWAY_URL'',
      dd ''UPLOADER_URL'']"

definition aoLines :: "jsobj \<Rightarrow> js_error + string list" where
  "aoLines dd =
     (let base =
        [''CU_WALLET='' @ toStr (dd ''CU_WALLET''),
         ''PROCESS_CHECKPOINT_TRUSTED_OWNERS='' @ toStr (dd ''PROCESS_CHECKPOINT_TRUSTED_OWNERS''),
         ''GATEWAY_URL='' @ toStr (dd ''GATEWAY_URL''),
         ''UPLOADER_URL='' @ toStr (dd ''UPLOADER_URL'')]
      in if \<not> truthy (dd ''ADDITIONAL_AO_CU_ENV'') then Inr base
         else (case dd ''ADDITIONAL_AO_CU_ENV'' of
                 Some (JStr t) \<Rightarrow> Inr (base @ splitNL t)
               | _ \<Rightarrow> Inl (TypeError ''dd.ADDITIONAL_AO_CU_ENV.split is not a function'')))"

definition aoEnvA :: "config \<Rightarrow> action" where
  "aoEnvA cfg =
     ifA (enableAoCu (dockerConfig cfg))
       [convertA (aoValues (dashboardConfig cfg)),
        case aoLines (dashboardConfig cfg) of
          Inl e \<Rightarrow> throwA e
        | Inr ls \<Rightarrow> writeFileA (deployDir @ ''/.env.ao'') (joinNL ls),
        logA ''.env.ao written'']"

definition awsKeys :: "string list" where
  "awsKeys =
    [''AWS_S3_CONTIGUOUS_DATA_BUCKET'', ''AWS_S3_CONTIGUOUS_DATA_PREFIX'', ''AWS_ACCESS_KEY_ID'',
     ''AWS_SECRET_ACCESS_KEY'', ''AWS_REGION'', ''AWS_ENDPOINT'']"

text \<open>
  The array \<open>bundlerLines\<close>: five lines that are always there, then
  \<open>if (dd[key]) bundlerLines.push(`${key}=${dd[key]}`)\<close> for each of the six keys.
\<close>

definition bundlerLines :: "jsobj \<Rightarrow> jsval \<Rightarrow> string list" where
  "bundlerLines dd bundlerAddress =
     fold (\<lambda>key ls. if truthy (dd key) then ls @ [key @ ''='' @ toStr (dd key)] else ls)
       awsKeys
       [''BUNDLER_ARWEAVE_WALLET='' @ toStr (dd ''BUNDLER_ARWEAVE_WALLET''),
        ''BUNDLER_ARWEAVE_ADDRESS='' @ toStr (Some bundlerAddress),
        ''APP_NAME='' @ toStr (dd ''APP_NAME''),
        ''ANS104_INDEX_FILTER='' @ toStr (dd ''ANS104_INDEX_FILTER''),
        ''ANS104_UNBUNDLE_FILTER='' @ toStr (dd ''ANS104_UNBUNDLE_FILTER'')]"

text \<open>The values those template literals convert, in order.\<close>

definition bundlerValues :: "jsobj \<Rightarrow> jsval \<Rightarrow> jsval option list" where
  "bundlerValues dd bundlerAddress =
     [dd ''BUNDLER_ARWEAVE_WALLET'', Some bundlerAddress, dd ''APP_NAME'',
      dd ''ANS104_INDEX_FILTER'', dd ''ANS104_UNBUNDLE_FILTER''] @
     map dd (filter (\<lambda>key. truthy (dd key)) awsKeys)"

text \<open>The address the bundler block ends with: \<open>bundlerAddress = bundlerAddress || ''\<close>.\<close>

definition finalBundlerAddress :: "deploy_env \<Rightarrow> config \<Rightarrow> jsval" where
  "finalBundlerAddress env cfg = orEmpty (Some (derivedBundlerAddress env (dashboardConfig cfg)))"

text \<open>The text written to \<open>.env.bundler\<close>.\<close>

definition bundlerEnvContent :: "deploy_env \<Rightarrow> config \<Rightarrow> string" where
  "bundlerEnvContent env cfg =
     joinNL (bundlerLines (dashboardConfig cfg) (finalBundlerAddress env cfg))"

definition bundlerEnvA :: "deploy_env \<Rightarrow> config \<Rightarrow> action" where
  "bundlerEnvA env cfg =
     (let dd = dashboardConfig cfg in
      ifA (enableBundler (dockerConfig cfg))
        [ifA (truthy (dd ''BUNDLER_ARWEAVE_WALLET''))
           [case jwkToAddress env (dd ''BUNDLER_ARWEAVE_WALLET'') of
              Inr a \<Rightarrow>
                if a \<noteq> [] then logA (check_mark @ '' Derived bundler address from wallet: '' @ a)
                else logA (warning_sign @ '' Wallet derivation returned empty address'')
            | Inl e \<Rightarrow>
                logA (warning_sign @ '' Failed to derive bundler address from wallet: '' @
                      message e)],
         convertA [Some (finalBundlerAddress env cfg)],
         logA (memo_sign @ '' Final bundler address: '' @ [CHR 0x27] @
               toStr (Some (finalBundlerAddress env cfg)) @ [CHR 0x27]),
         ifA (\<not> truthy (Some (finalBundlerAddress env cfg)))
           [logA (warning_sign @
              '' Warning: BUNDLER_ARWEAVE_ADDRESS is empty - this may cause bundler issues'')],
         convertA (bundlerValues dd (finalBundlerAddress env cfg)),
         writeFileA (deployDir @ ''/.env.bundler'') (bundlerEnvContent env cfg),
         logA ''.env.bundler written''])"

text \<open>The configuration object as the bundler block leaves it.\<close>

definition postBundler :: "deploy_env \<Rightarrow> config \<Rightarrow> config" where
  "postBundler env cfg =
     (if enableBundler (dockerConfig cfg) then setBundlerAddress (finalBundlerAddress env cfg) cfg
      else cfg)"

subsection \<open>Teardown, cleanup and start\<close>

text \<open>A statement that reads the local array \<open>composeFiles\<close>.\<close>

definition withFilesA :: "(string list \<Rightarrow> action) \<Rightarrow> action" where
  "withFilesA f s = f (composeFiles s) s"

definition downProfiles :: "config \<Rightarrow> string list" where
  "downProfiles cfg =
     (if enableClickhouse (dockerConfig cfg) then [''--profile clickhouse''] else []) @
     (if enableLitestream (dockerConfig cfg) then [''--profile litestream''] else [])"

definition downCmd :: "config \<Rightarrow> string list \<Rightarrow> string" where
  "downCmd cfg fs =
     ''docker compose -p ar-io-node '' @ joinWith '' '' (map (\<lambda>f. ''-f '' @ f) fs) @ '' '' @
     joinWith '' '' (downProfiles cfg) @ '' down --remove-orphans''"

definition teardownA :: "deploy_env \<Rightarrow> config \<Rightarrow> action" where
  "teardownA env cfg =
     seqA
       [logA ''Tearing down any existing containers'',
        tryA
          [withFilesA (\<lambda>fs. execA (execResult env) (downCmd cfg fs)),
           logA ''Existing containers removed (data volumes preserved)'']
          (\<lambda>err. logA (''No existing containers to remove: '' @ message err))]"

definition stopCmd :: string where
  \<open>stopCmd = ''docker stop $(docker ps -q --filter "name=ar-io-node") 2>/dev/null || true''\<close>

definition rmCmd :: string where
  \<open>rmCmd = ''docker rm $(docker ps -aq --filter "name=ar-io-node") 2>/dev/null || true''\<close>

definition cleanupA :: "deploy_env \<Rightarrow> action" where
  "cleanupA env =
     seqA
       [logA ''Performing selective Docker cleanup...'',
        tryA
          [execA (execResult env) stopCmd,
           logA ''Stopped any running ar-io-node containers'',
           execA (execResult env) rmCmd,
           logA ''Removed any ar-io-node containers'',
           logA ''Skipping volume cleanup to preserve data'']
          (\<lambda>err. logA (''Docker cleanup warning: '' @ message err))]"

definition profiles :: "config \<Rightarrow> string list" where
  "profiles cfg =
     (if enableClickhouse (dockerConfig cfg) then [''clickhouse''] else []) @
     (if enableLitestream (dockerConfig cfg) then [''litestream''] else [])"

text \<open>\<open>composeArgs\<close> once the files and the profiles have been pushed.\<close>

definition composeArgs :: "string list \<Rightarrow> string list \<Rightarrow> string list" where
  "composeArgs fs ps =
     [''compose'', ''-p'', ''ar-io-node''] @ concat (map (\<lambda>f. [''-f'', f]) fs) @
     concat (map (\<lambda>p. [''--profile'', p]) ps)"

text \<open>
  The optional components in the order the source tests them: the flag tested, the
  service names pushed to \<open>servicesToStart\<close>, and the line logged.
\<close>

definition optionalServices :: "config \<Rightarrow> (bool \<times> string list \<times> string) list" where
  "optionalServices cfg =
     (let dd = dashboardConfig cfg; nc = nodeConfig cfg; dc = dockerConfig cfg in
      [(truthy (dd ''ENABLE_ENVOY''), [''envoy''], ''Including Envoy proxy service''),
       (truthy (nc ''RUN_OBSERVER''), [''observer''], ''Including Observer service''),
       (enableAutoheal dc, [''autoheal''], ''Including Autoheal service''),
       (enableClickhouse dc, [''clickhouse'', ''clickhouse-auto-import''],
          ''Including ClickHouse analytics services''),
       (enableLitestream dc, [''litestream''], ''Including Litestream SQLite backup service''),
       (enableBundler dc,
          [''upload-service'', ''fulfillment-service'', ''upload-service-pg'', ''localstack''],
          ''Including Turbo ANS-104 Bundler services''),
       (enableAoCu dc, [''ao-cu''], ''Including AO Compute Unit service''),
       (enableGrafana dc, [''prometheus'', ''grafana'', ''node-exporter''],
          ''Including Grafana monitoring services''),
       (enableDashboard dc, [''admin-dashboard''], ''Including Admin Dashboard service'')])"

text \<open>
  \<open>servicesToStart\<close> starts as \<open>['core', 'redis']\<close>; each
  \<open>if (flag) { servicesToStart.push(...names); appendLog(line); }\<close> extends it.
\<close>

definition servicesToStart :: "config \<Rightarrow> string list" where
  "servicesToStart cfg =
     fold (\<lambda>(flag, names, line) services. if flag then services @ names else services)
       (optionalServices cfg) [''core'', ''redis'']"

definition allPossibleServices :: "string list" where
  "allPossibleServices =
     [''envoy'', ''observer'', ''autoheal'', ''clickhouse'', ''clickhouse-auto-import'',
      ''litestream'']"

definition notStarted :: "config \<Rightarrow> string list" where
  "notStarted cfg = filter (\<lambda>sv. sv \<notin> set (servicesToStart cfg)) allPossibleServices"

definition startLogsA :: "config \<Rightarrow> action" where
  "startLogsA cfg =
     seqA
       ([ifA (enableClickhouse (dockerConfig cfg)) [logA ''Enabling ClickHouse profile''],
         ifA (enableLitestream (dockerConfig cfg)) [logA ''Enabling Litestream profile''],
         withFilesA (\<lambda>fs. logA (''Using compose files: '' @ joinWith '', '' fs)),
         ifA (profiles cfg \<noteq> []) [logA (''Using profiles: '' @ joinWith '', '' (profiles cfg))]] @
        map (\<lambda>(flag, names, line). ifA flag [logA line]) (optionalServices cfg) @
        [logA (''Starting all services: '' @ joinWith '', '' (servicesToStart cfg))])"

text \<open>\<open>currentDeploymentProcess = cp\<close>, for the process spawned last.\<close>

definition trackA :: action where
  "trackA s = (None, s\<lparr>currentDeploymentProcess := Some (length (procs s) - 1)\<rparr>)"

text \<open>The \<open>close\<close> listener registered on the process spawned last.\<close>

definition listenA :: "config \<Rightarrow> string list \<Rightarrow> action" where
  "listenA cfg args s = (None, s\<lparr>onClose := (onClose s)(length (procs s) - 1 \<mapsto> (cfg, args))\<rparr>)"

text \<open>
  \<open>spawn('docker', [...composeArgs, 'up', '-d', ...servicesToStart])\<close>, the one call
  that starts the orchestration CLI.
\<close>

definition startA :: "config \<Rightarrow> config \<Rightarrow> action" where
  "startA cfg closureCfg =
     withFilesA (\<lambda>fs.
       seqA
         [spawnA ''docker'' (composeArgs fs (profiles cfg) @ [''up'', ''-d''] @ servicesToStart cfg),
          trackA,
          logA (''Services NOT started: '' @
                (if joinWith '', '' (notStarted cfg) = [] then ''none''
                 else joinWith '', '' (notStarted cfg))),
          listenA closureCfg (composeArgs fs (profiles cfg))])"

subsection \<open>The handler\<close>

definition setCancelledA :: "bool \<Rightarrow> action" where
  "setCancelledA b s = (None, s\<lparr>deploymentCancelled := b\<rparr>)"

text \<open>The statements of the \<open>try\<close> block up to \<open>buildEnvFile(config)\<close>.\<close>

definition prepareActions :: "deploy_env \<Rightarrow> config \<Rightarrow> action list" where
  "prepareActions env cfg =
     [logA ''Received deployment request'',
      setCancelledA False,
      preDeriveA env cfg]"

text \<open>The statements from the tag lookup to the working copy.\<close>

definition provisionActions :: "deploy_env \<Rightarrow> action list" where
  "provisionActions env =
     [logA (''Using deployment directory: '' @ deployDir),
      logA ''Repository will be updated if it exists, or cloned if it does not exist'',
      logA ''Fetching latest AR.IO node version...'',
      fetchTagsA env,
      logA (''Using tag: '' @ latestTag env),
      updateRepositoryA env,
      cloneRepositoryA env,
      workingCopyA env,
      logA ''Setting up deployment directory...'']"

text \<open>The statements from the dashboard files to the teardown of the previous containers.\<close>

definition artifactActions :: "deploy_env \<Rightarrow> config \<Rightarrow> string \<Rightarrow> action list" where
  "artifactActions env cfg envContent =
     [dashboardFilesA env cfg,
      patchComposeA cfg,
      writeEnvA envContent,
      observerWalletA env cfg,
      dataDirsA cfg,
      portLogsA cfg,
      aoEnvA cfg,
      bundlerEnvA env cfg,
      teardownA env cfg,
      cleanupA env,
      startLogsA cfg]"

text \<open>
  The whole \<open>try\<close> block. \<open>cfg1\<close> is the configuration object after the first address
  derivation; the listener captures it as the bundler block leaves it.
\<close>

definition deployActions :: "deploy_env \<Rightarrow> config \<Rightarrow> action list" where
  "deployActions env cfg =
     (let cfg1 = preDerived env cfg in
      prepareActions env cfg @
      (case buildEnvFile cfg1 of
         Inl e \<Rightarrow> [throwA e]
       | Inr envContent \<Rightarrow>
           provisionActions env @ artifactActions env cfg1 envContent @
           [startA cfg1 (postBundler env cfg1)]))"

datatype body =
    StatusBody string
  | StatusWarningBody string string
  | ErrorBody string
  | LogsBody "string list"
  | RunningBody bool string
  | HealthBody string string

datatype response = Response nat body

text \<open>
  \<open>app.post('/deploy', ...)\<close>: \<open>None\<close> is a request body without \<open>config\<close>. The
  handler is taken as one step; what other requests do between its \<open>await\<close>s is not
  modelled.
\<close>

fun deploy :: "config option \<Rightarrow> deploy_env \<Rightarrow> server \<Rightarrow> response \<times> server" where
  "deploy None env s = (Response 400 (ErrorBody ''Missing config''), s)"
| "deploy (Some cfg) env s =
     (case seqA (deployActions env cfg) s of
        (None, s') \<Rightarrow> (Response 200 (StatusBody ''started''), s')
      | (Some err, s') \<Rightarrow>
          (Response 500 (ErrorBody (message err)),
           appendLog (''Deployment error: '' @ message err) s'))"

section \<open>Listeners on the deployment process\<close>

text \<open>\<open>if (!deploymentCancelled) appendLog(d.toString().trim())\<close>, for stdout and stderr.\<close>

definition onData :: "string \<Rightarrow> server \<Rightarrow> server" where
  "onData d s = (if \<not> deploymentCancelled s then appendLog (trim d) s else s)"

definition restartCmd :: "string list \<Rightarrow> string \<Rightarrow> string" where
  "restartCmd args service =
     ''docker compose '' @ joinWith '' '' (drop 1 args) @ '' restart '' @ service"

definition observerFixA :: "(string \<Rightarrow> js_error option) \<Rightarrow> config \<Rightarrow> string list \<Rightarrow> action" where
  "observerFixA ex cfg args =
     (let nc = nodeConfig cfg;
          walletFileName = toStr (nc ''OBSERVER_WALLET'') @ ''.json'';
          hostWalletPath = deployDir @ ''/wallets/'' @ walletFileName
      in ifA (truthy (nc ''OBSERVER_JWK'') \<and> truthy (nc ''OBSERVER_WALLET'') \<and>
              truthy (nc ''RUN_OBSERVER''))
           [convertA [nc ''OBSERVER_WALLET''],
            tryA
              [accessA hostWalletPath,
               execA ex (''docker cp '' @ hostWalletPath @
                         '' ar-io-node-observer-1:/app/wallets/'' @ walletFileName),
               logA (check_mark @ '' Copied observer wallet to container: '' @ walletFileName),
               execA ex (restartCmd args ''observer''),
               logA (check_mark @ '' Restarted observer to load wallet file'')]
              (\<lambda>walletErr. logA (warning_sign @ '' Observer wallet fix failed: '' @
                                 message walletErr))])"

definition grafanaFixA :: "(string \<Rightarrow> js_error option) \<Rightarrow> config \<Rightarrow> string list \<Rightarrow> action" where
  "grafanaFixA ex cfg args =
     ifA (enableGrafana (dockerConfig cfg))
       [tryA
          [execA ex (''docker cp '' @ deployDir @
                     ''/prometheus.yml ar-io-node-prometheus-1:/etc/prometheus/prometheus.yml''),
           logA (check_mark @ '' Copied Prometheus configuration to container''),
           execA ex (restartCmd args ''prometheus''),
           logA (check_mark @ '' Restarted Prometheus to reload configuration'')]
          (\<lambda>prometheusErr. logA (warning_sign @ '' Prometheus fix failed: '' @
                                 message prometheusErr)),
        tryA
          [execA ex (''docker cp '' @ deployDir @
                     ''/monitoring/grafana/provisioning/datasources '' @
                     ''ar-io-node-grafana-1:/etc/grafana/provisioning/''),
           logA (check_mark @ '' Copied Grafana datasources provisioning to container''),
           execA ex (''docker cp '' @ deployDir @
                     ''/monitoring/grafana/provisioning/dashboards '' @
                     ''ar-io-node-grafana-1:/etc/grafana/provisioning/''),
           logA (check_mark @ '' Copied Grafana dashboards provisioning to container''),
           execA ex (''docker cp '' @ deployDir @
                     ''/monitoring/grafana/dashboards ar-io-node-grafana-1:/etc/grafana/''),
           logA (check_mark @ '' Copied Grafana dashboard JSON files to container''),
           execA ex (restartCmd args ''grafana''),
           logA (check_mark @ '' Restarted Grafana to reload provisioning'')]
          (\<lambda>grafanaErr. logA (warning_sign @ '' Grafana provisioning fix failed: '' @
                              message grafanaErr))]"

text \<open>
  The \<open>close\<close> listener of the deployment process with handle \<open>h\<close>; \<open>code\<close> is the exit
  code. A handle without a listener is not a deployment process. The listener ends with
  \<open>currentDeploymentProcess = null\<close>, whichever process is tracked by then.
\<close>

definition onCloseEvent ::
  "(string \<Rightarrow> js_error option) \<Rightarrow> nat \<Rightarrow> nat option \<Rightarrow> server \<Rightarrow> server" where
  "onCloseEvent ex h code s =
     (case onClose s h of
        None \<Rightarrow> s
      | Some (cfg, args) \<Rightarrow>
          (snd
            ((if deploymentCancelled s then logA ''Deployment was cancelled''
              else seqA
                [logA (''docker compose exited with code '' @ showCode code),
                 ifA (code = Some 0)
                   [tryA
                      [observerFixA ex cfg args,
                       grafanaFixA ex cfg args,
                       logA (party_sign @ '' Post-deployment fixes completed!'')]
                      (\<lambda>err. logA (warning_sign @ '' Post-deployment fix warning: '' @
                                    message err))]]) s))
          \<lparr>currentDeploymentProcess := None\<rparr>)"

section \<open>\<open>GET /logs\<close>, \<open>GET /status\<close>, \<open>GET /health\<close>, \<open>POST /cancel\<close>\<close>

definition getLogs :: "server \<Rightarrow> response \<times> server" where
  "getLogs s = (Response 200 (LogsBody (deploymentLogs s)), s)"

text \<open>\<open>out\<close> is what \<open>docker ps\<close> has printed when it closes.\<close>

definition getStatus :: "string \<Rightarrow> server \<Rightarrow> response \<times> server" where
  "getStatus out s =
     (Response 200 (RunningBody (trim out \<noteq> []) (trim out)),
      s\<lparr>procs := procs s @
           [(''docker'', [''ps'', ''--filter'', ''name=ar-io-node-core'', ''--format'',
                          ''{{.Status}}''])]\<rparr>)"

definition getHealth :: "server \<Rightarrow> response \<times> server" where
  "getHealth s = (Response 200 (HealthBody ''ok'' (clock s (length (deploymentLogs s)))), s)"

text \<open>
  What \<open>POST /cancel\<close> meets: whether \<open>kill\<close> throws, and whether \<open>spawn\<close> of the
  stop-stack command throws.
\<close>

record cancel_env =
  killResult :: "js_error option"
  spawnResult :: "js_error option"

text \<open>\<open>currentDeploymentProcess.kill(signal)\<close>\<close>

definition killA :: "js_error option \<Rightarrow> nat \<Rightarrow> string \<Rightarrow> action" where
  "killA outcome h signal s = (outcome, s\<lparr>signals := signals s @ [(h, signal)]\<rparr>)"

definition spawnDownA :: "js_error option \<Rightarrow> action" where
  "spawnDownA outcome =
     (case outcome of
        Some e \<Rightarrow> throwA e
      | None \<Rightarrow> spawnA ''docker'' [''compose'', ''-p'', ''ar-io-node'', ''down''])"

text \<open>The first two statements: the log line and \<open>deploymentCancelled = true\<close>.\<close>

definition cancelRequested :: "server \<Rightarrow> server" where
  "cancelRequested s = (appendLog ''Cancel deployment requested'' s)\<lparr>deploymentCancelled := True\<rparr>"

text \<open>The branch taken when a process is tracked, up to the response.\<close>

definition killActions :: "cancel_env \<Rightarrow> nat \<Rightarrow> action list" where
  "killActions env h =
     [logA ''Killing deployment process...'',
      tryA [killA (killResult env) h ''SIGTERM'',
            logA ''Deployment process terminated'']
        (\<lambda>killErr. logA (''Warning: Could not kill process: '' @ message killErr)),
      spawnDownA (spawnResult env)]"

definition cancel :: "cancel_env \<Rightarrow> server \<Rightarrow> response \<times> server" where
  "cancel env s =
     (case currentDeploymentProcess (cancelRequested s) of
        Some h \<Rightarrow>
          (case seqA (killActions env h) (cancelRequested s) of
             (None, s3) \<Rightarrow> (Response 200 (StatusBody ''cancelled''), s3)
           | (Some err, s3) \<Rightarrow>
               (Response 200 (StatusWarningBody ''cancelled'' (message err)),
                appendLog (''Cancel error: '' @ message err) s3))
      | None \<Rightarrow>
          (Response 200 (StatusBody ''no_deployment_running''),
           appendLog ''No deployment process running, marking as cancelled anyway''
             (cancelRequested s)))"

text \<open>The listeners on the stop-stack process that \<open>POST /cancel\<close> starts.\<close>

definition onDownStdout :: "string \<Rightarrow> server \<Rightarrow> server" where
  "onDownStdout d s = appendLog (''Docker down: '' @ trim d) s"

definition onDownStderr :: "string \<Rightarrow> server \<Rightarrow> server" where
  "onDownStderr d s = appendLog (''Docker down error: '' @ trim d) s"

definition onDownClose :: "nat option \<Rightarrow> server \<Rightarrow> server" where
  "onDownClose code s = appendLog (''Docker compose down exited with code '' @ showCode code) s"

section \<open>The server as a reactive system\<close>

text \<open>Everything that makes the server run a piece of code: a request or a process event.\<close>

datatype event =
    PostDeploy "config option" deploy_env
  | GetLogs
  | GetStatus string
  | GetHealth
  | PostCancel cancel_env
  | DeployData string
  | DeployClose "string \<Rightarrow> js_error option" nat "nat option"
  | DownStdout string
  | DownStderr string
  | DownClose "nat option"

fun react :: "event \<Rightarrow> server \<Rightarrow> response option \<times> server" where
  "react (PostDeploy req env) s = (case deploy req env s of (r, s') \<Rightarrow> (Some r, s'))"
| "react GetLogs s = (case getLogs s of (r, s') \<Rightarrow> (Some r, s'))"
| "react (GetStatus out) s = (case getStatus out s of (r, s') \<Rightarrow> (Some r, s'))"
| "react GetHealth s = (case getHealth s of (r, s') \<Rightarrow> (Some r, s'))"
| "react (PostCancel env) s = (case cancel env s of (r, s') \<Rightarrow> (Some r, s'))"
| "react (DeployData d) s = (None, onData d s)"
| "react (DeployClose ex h code) s = (None, onCloseEvent ex h code s)"
| "react (DownStdout d) s = (None, onDownStdout d s)"
| "react (DownStderr d) s = (None, onDownStderr d s)"
| "react (DownClose code) s = (None, onDownClose code s)"

text \<open>The state after a sequence of events.\<close>

definition run :: "event list \<Rightarrow> server \<Rightarrow> server" where
  "run evs s = fold (\<lambda>ev st. snd (react ev st)) evs s"

text \<open>The server as the module leaves it when loaded, with a clock.\<close>

definition initial :: "(nat \<Rightarrow> string) \<Rightarrow> server" where
  "initial clk =
     \<lparr>deploymentLogs = [], currentDeploymentProcess = None, deploymentCancelled = False,
      clock = clk, procs = [], commands = [], signals = [], files = (\<lambda>p. None),
      onClose = (\<lambda>h. None), composeFiles = []\<rparr>"

text \<open>The orchestration CLI processes started so far: the \<open>docker compose ... up\<close> spawns.\<close>

definition isUp :: "string \<times> string list \<Rightarrow> bool" where
  "isUp p = (fst p = ''docker'' \<and> ''up'' \<in> set (snd p))"

definition upCount :: "server \<Rightarrow> nat" where
  "upCount s = length (filter isUp (procs s))"

section \<open>Vocabulary of the properties\<close>
















text \<open>The members of a response.\<close>

fun httpCode :: "response \<Rightarrow> nat" where
  "httpCode (Response c b) = c"

fun statusOf :: "response \<Rightarrow> string option" where
  "statusOf (Response c (StatusBody st)) = Some st"
| "statusOf (Response c (StatusWarningBody st w)) = Some st"
| "statusOf (Response c other) = None"

fun errorOf :: "response \<Rightarrow> string option" where
  "errorOf (Response c (ErrorBody e)) = Some e"
| "errorOf (Response c other) = None"

section \<open>Sample inputs\<close>

definition noServices :: docker_config where
  "noServices =
     \<lparr>useEnvoy = False, enableBundler = False, enableAoCu = False, enableGrafana = False,
      enableDashboard = False, enableClickhouse = False, enableLitestream = False,
      enableAutoheal = False, enableSsl = False\<rparr>"

text \<open>Only mandatory services, only the core port set.\<close>

definition coreOnlyConfig :: config where
  "coreOnlyConfig =
     \<lparr>nodeConfig = map_of [(''CORE_PORT'', JStr ''4000'')],
      dashboardConfig = map_of [],
      dockerConfig = noServices\<rparr>"








text \<open>The bundler enabled with the placeholder credentials and no wallet.\<close>

definition bundlerTestConfig :: config where
  "bundlerTestConfig =
     \<lparr>nodeConfig = map_of [(''CORE_PORT'', JStr ''4000'')],
      dashboardConfig =
        map_of [(''AWS_ACCESS_KEY_ID'', JStr ''test''), (''AWS_SECRET_ACCESS_KEY'', JStr ''test''),
                (''BUNDLER_ARWEAVE_WALLET'', JStr ''''), (''APP_NAME'', JStr ''b'')],
      dockerConfig = noServices\<lparr>enableBundler := True\<rparr>\<rparr>"

text \<open>Envoy, the observer and Grafana on.\<close>

definition someServicesConfig :: config where
  "someServicesConfig =
     \<lparr>nodeConfig = map_of [(''CORE_PORT'', JStr ''4000''), (''RUN_OBSERVER'', JBool True)],
      dashboardConfig = map_of [(''ENABLE_ENVOY'', JBool True)],
      dockerConfig = noServices\<lparr>enableGrafana := True\<rparr>\<rparr>"

text \<open>
  A runtime that rejects all data that is not a string, with the \<open>TypeError\<close> of
  Node for an argument of the wrong type.
\<close>

fun received :: "jsval option \<Rightarrow> string" where
  "received None = ''undefined''"
| "received (Some JNull) = ''null''"
| "received (Some (JBool b)) = ''type boolean ('' @ render (JBool b) @ '')''"
| "received (Some (JNum r)) = ''type number ('' @ r @ '')''"
| "received (Some (JStr s)) = ''type string''"
| "received (Some (JArr xs)) = ''an instance of Array''"
| "received (Some (JObj members)) = ''an instance of Object''"

definition invalidData :: "jsval option \<Rightarrow> js_error" where
  \<open>invalidData v =
     TypeError (''The "data" argument must be of type string or an instance of Buffer, '' @
                ''TypedArray, or DataView. Received '' @ received v)\<close>

text \<open>
  A world in which everything succeeds: the tag list names \<open>r1\<close>, the working copy
  exists and updates, and it holds a one-line \<open>docker-compose.yaml\<close>.
\<close>

definition calmEnv :: deploy_env where
  "calmEnv =
     \<lparr>jwkToAddress = (\<lambda>w. Inr ''addr''),
      tagsFetch = Inr (TagsLatest ''r1''),
      repoExists = True,
      updateExit = (Some 0, ''''),
      repoStillExists = True,
      cloneExit = (Some 0, ''''),
      repoFiles = map_of [(''/tmp/ar-io-node/docker-compose.yaml'', ''services:'')],
      dashboardEnvFetch = FetchStatus 404,
      dashboardComposeFetch = FetchStatus 404,
      execResult = (\<lambda>c. None),
      writeFileData = (\<lambda>v. Inl (invalidData v))\<rparr>"

text \<open>The same world with no working copy and a clone that fails.\<close>

definition cloneFailsEnv :: deploy_env where
  "cloneFailsEnv =
     calmEnv\<lparr>repoExists := False, repoStillExists := False, cloneExit := (Some 128, ''fatal'')\<rparr>"

text \<open>The same world with an update that fails.\<close>

definition updateFailsEnv :: deploy_env where
  "updateFailsEnv = calmEnv\<lparr>updateExit := (Some 1, ''error'')\<rparr>"

definition calmCancel :: cancel_env where
  "calmCancel = \<lparr>killResult = None, spawnResult = None\<rparr>"

definition fixedClock :: "nat \<Rightarrow> string" where
  "fixedClock k = ''T''"

text \<open>A server that tracks a deployment process with handle 0.\<close>

definition trackingServer :: server where
  "trackingServer =
     (initial fixedClock)
       \<lparr>currentDeploymentProcess := Some 0,
        procs := [(''docker'', [''compose'', ''-p'', ''ar-io-node'', ''up'', ''-d'', ''core'', ''redis''])]\<rparr>"




section \<open>Notions used in the proofs\<close>

text \<open>Every line written so far satisfies \<open>Q\<close>; a step that does not raise keeps that.\<close>

definition allLines :: "(string \<Rightarrow> bool) \<Rightarrow> env_state \<Rightarrow> bool" where
  "allLines Q st = (\<forall>l \<in> set (fst st). Q l)"

definition keeps :: "(string \<Rightarrow> bool) \<Rightarrow> env_step \<Rightarrow> bool" where
  "keeps Q f = (\<forall>st st'. allLines Q st \<and> f st = Inr st' \<longrightarrow> allLines Q st')"





text \<open>A statement only ever extends the log; a list of statements does.\<close>

definition grows :: "action \<Rightarrow> bool" where
  "grows a = (\<forall>s. prefix (deploymentLogs s) (deploymentLogs (snd (a s))))"

definition growsAll :: "action list \<Rightarrow> bool" where
  "growsAll as = (\<forall>a \<in> set as. grows a)"

text \<open>
  A statement that starts no orchestration CLI process and leaves the tracked handle
  alone.
\<close>

definition keepsUp :: "action \<Rightarrow> bool" where
  "keepsUp a =
     (\<forall>s. upCount (snd (a s)) = upCount s \<and>
          currentDeploymentProcess (snd (a s)) = currentDeploymentProcess s)"

definition keepsUpAll :: "action list \<Rightarrow> bool" where
  "keepsUpAll as = (\<forall>a \<in> set as. keepsUp a)"

text \<open>Two states that differ in the log at most.\<close>

definition sameButLogs :: "server \<Rightarrow> server \<Rightarrow> bool" where
  "sameButLogs s t =
     (currentDeploymentProcess s = currentDeploymentProcess t \<and>
      deploymentCancelled s = deploymentCancelled t \<and>
      clock s = clock t \<and> procs s = procs t \<and> commands s = commands t \<and>
      signals s = signals t \<and> files s = files t \<and> onClose s = onClose t \<and>
      composeFiles s = composeFiles t)"

text \<open>
  A statement whose outcome does not depend on the log, and which takes states that
  differ in the log at most to such states.
\<close>

definition blind :: "action \<Rightarrow> bool" where
  "blind a =
     (\<forall>s t. sameButLogs s t \<longrightarrow>
        fst (a s) = fst (a t) \<and> sameButLogs (snd (a s)) (snd (a t)))"

definition blindAll :: "action list \<Rightarrow> bool" where
  "blindAll as = (\<forall>a \<in> set as. blind a)"

text \<open>Two states that differ in the tracked handle at most.\<close>

definition sameButTracked :: "server \<Rightarrow> server \<Rightarrow> bool" where
  "sameButTracked s t =
     (deploymentLogs s = deploymentLogs t \<and>
      deploymentCancelled s = deploymentCancelled t \<and>
      clock s = clock t \<and> procs s = procs t \<and> commands s = commands t \<and>
      signals s = signals t \<and> files s = files t \<and> onClose s = onClose t \<and>
      composeFiles s = composeFiles t)"

text \<open>
  A statement whose outcome does not depend on the tracked handle, and which takes states
  that differ in it at most to such states.
\<close>

definition heedless :: "action \<Rightarrow> bool" where
  "heedless a =
     (\<forall>s t. sameButTracked s t \<longrightarrow>
        fst (a s) = fst (a t) \<and> sameButTracked (snd (a s)) (snd (a t)))"

definition heedlessAll :: "action list \<Rightarrow> bool" where
  "heedlessAll as = (\<forall>a \<in> set as. heedless a)"

text \<open>Some line of the log carries the message \<open>msg\<close> behind its time stamp.\<close>

definition logged :: "string \<Rightarrow> server \<Rightarrow> bool" where
  "logged msg s = (\<exists>l \<in> set (deploymentLogs s). suffix (''] '' @ msg) l)"

text \<open>
  The text has a digit followed by \<open>:port\<close>, which is what every pattern of
  \<open>fixPortMappings\<close> for that port needs.
\<close>

fun hasBinding :: "string \<Rightarrow> string \<Rightarrow> bool" where
  "hasBinding port [] = False"
| "hasBinding port (c # s) = ((is_digit c \<and> prefix (CHR '':'' # port) s) \<or> hasBinding port s)"

text \<open>The variables and ports of \<open>portRules\<close>, in the order of either half of it.\<close>

definition portVars :: "(string \<times> string) list" where
  "portVars =
     [(''ENVOY_PORT'', ''3000''), (''CORE_PORT'', ''4000''), (''OBSERVER_PORT'', ''5050''),
      (''CLICKHOUSE_PORT_2'', ''8123''), (''CLICKHOUSE_PORT_3'', ''8443''),
      (''CLICKHOUSE_PORT'', ''9000'')]"

text \<open>The text has no such digit for any of the six ports.\<close>

definition unbound :: "string \<Rightarrow> bool" where
  "unbound s = (\<forall>vp \<in> set portVars. \<not> hasBinding (snd vp) s)"

text \<open>The two halves of \<open>portRules\<close>: the rule for a block and the rule for a single binding.\<close>

definition blockRule :: "string \<times> string \<Rightarrow> rx \<times> string" where
  "blockRule vp = (portsBlock (snd vp), blockText (fst vp) (snd vp))"

definition bindingRule :: "string \<times> string \<Rightarrow> rx \<times> string" where
  "bindingRule vp = (portBinding (snd vp), bindingText (fst vp) (snd vp))"

text \<open>A Grafana manifest whose prometheus service mounts \<open>prometheus.yml\<close> twice.\<close>

definition twoMounts :: string where
  "twoMounts =
     joinNL [''services:'',
             ''  prometheus:'',
             ''    volumes:'',
             prometheusMount,
             prometheusMount,
             ''    command: run'']"

text \<open>A manifest that declares the network external twice.\<close>

definition twoExternals :: string where
  "twoExternals =
     joinNL [''networks:'', ''  ar-io-network:'', ''    external: true'', ''    external: true'']"

text \<open>A manifest with two \<open>volumes:\<close> keys without entries before the next section.\<close>

definition twoVolumes :: string where
  "twoVolumes = joinNL [''    volumes:'', ''    volumes:'', ''networks:'']"

section \<open>Collections of rules\<close>

named_theorems grow \<open>statements that only extend the log\<close>

named_theorems up \<open>statements that start no orchestration CLI process\<close>

named_theorems blnd \<open>statements whose outcome does not depend on the log\<close>

named_theorems heed \<open>statements whose outcome does not depend on the tracked handle\<close>

section \<open>Lemmas on the environment file\<close>


subsection \<open>Lines of a joined text\<close>








subsection \<open>What a step keeps\<close>



lemma keeps_pushKey: "Q (k @ ''='' @ toStr (obj k)) \<Longrightarrow> keeps Q (pushKey obj k)"
  by (auto simp: keeps_def pushKey_def allLines_def split: if_splits)












subsection \<open>No entry has a line feed\<close>











subsection \<open>The deny-list\<close>
















subsection \<open>Service keys\<close>













section \<open>The claims about the environment file at concrete configurations\<close>

text \<open>
  Claim C7. The text returned for a configuration with only the core port set is the
  single entry \<open>CORE_PORT=4000\<close>: there is no leading comment line and no time stamp.
\<close>

theorem env_file_has_no_header: "buildEnvFile coreOnlyConfig = Inr ''CORE_PORT=4000''"
  by code_simp
















section \<open>The services started\<close>

lemma fold_services:
  "fold (\<lambda>(flag, names, line) services. if flag then services @ names else services) opts acc =
     acc @ concat (map (\<lambda>(flag, names, line). if flag then names else []) opts)"
  by (induction opts arbitrary: acc) (auto split: prod.splits)

lemma servicesToStart_eq:
  "servicesToStart cfg =
     [''core'', ''redis''] @
     (if truthy (dashboardConfig cfg ''ENABLE_ENVOY'') then [''envoy''] else []) @
     (if truthy (nodeConfig cfg ''RUN_OBSERVER'') then [''observer''] else []) @
     (if enableAutoheal (dockerConfig cfg) then [''autoheal''] else []) @
     (if enableClickhouse (dockerConfig cfg) then [''clickhouse'', ''clickhouse-auto-import'']
      else []) @
     (if enableLitestream (dockerConfig cfg) then [''litestream''] else []) @
     (if enableBundler (dockerConfig cfg)
      then [''upload-service'', ''fulfillment-service'', ''upload-service-pg'', ''localstack'']
      else []) @
     (if enableAoCu (dockerConfig cfg) then [''ao-cu''] else []) @
     (if enableGrafana (dockerConfig cfg) then [''prometheus'', ''grafana'', ''node-exporter'']
      else []) @
     (if enableDashboard (dockerConfig cfg) then [''admin-dashboard''] else [])"
  by (simp add: servicesToStart_def fold_services optionalServices_def Let_def)

lemma startA_procs:
  "procs (snd (startA cfg c s)) =
     procs s @ [(''docker'', composeArgs (composeFiles s) (profiles cfg) @ [''up'', ''-d''] @ servicesToStart cfg)]"
  by (simp add: startA_def withFilesA_def spawnA_def trackA_def logA_def listenA_def appendLog_def)

text \<open>
  Claim C8. The list passed to \<open>docker compose ... up -d\<close> is \<open>core\<close> and \<open>redis\<close>
  followed, in this order, by the services of each optional component whose flag is true.
  The flag is \<open>dashboardConfig.ENABLE_ENVOY\<close> for the proxy and
  \<open>nodeConfig.RUN_OBSERVER\<close> for the observer, the two settings themselves; for
  autoheal, ClickHouse, Litestream, the bundler, AO-CU, Grafana and the dashboard it is
  the switch of \<open>dockerConfig\<close>, which the wizard derives from the settings. The list
  is the tail of the arguments of the command spawned, and with no flag true it is
  \<open>[core, redis]\<close>.
\<close>

theorem service_activation_set:
  "servicesToStart cfg =
     [''core'', ''redis''] @
     (if truthy (dashboardConfig cfg ''ENABLE_ENVOY'') then [''envoy''] else []) @
     (if truthy (nodeConfig cfg ''RUN_OBSERVER'') then [''observer''] else []) @
     (if enableAutoheal (dockerConfig cfg) then [''autoheal''] else []) @
     (if enableClickhouse (dockerConfig cfg) then [''clickhouse'', ''clickhouse-auto-import'']
      else []) @
     (if enableLitestream (dockerConfig cfg) then [''litestream''] else []) @
     (if enableBundler (dockerConfig cfg)
      then [''upload-service'', ''fulfillment-service'', ''upload-service-pg'', ''localstack'']
      else []) @
     (if enableAoCu (dockerConfig cfg) then [''ao-cu''] else []) @
     (if enableGrafana (dockerConfig cfg) then [''prometheus'', ''grafana'', ''node-exporter'']
      else []) @
     (if enableDashboard (dockerConfig cfg) then [''admin-dashboard''] else []) \<and>
   take 2 (servicesToStart cfg) = [''core'', ''redis''] \<and>
   procs (snd (startA cfg c s)) =
     procs s @ [(''docker'', composeArgs (composeFiles s) (profiles cfg) @ [''up'', ''-d''] @
                              servicesToStart cfg)] \<and>
   (\<not> truthy (dashboardConfig cfg ''ENABLE_ENVOY'') \<and> \<not> truthy (nodeConfig cfg ''RUN_OBSERVER'') \<and>
    \<not> enableAutoheal (dockerConfig cfg) \<and> \<not> enableClickhouse (dockerConfig cfg) \<and>
    \<not> enableLitestream (dockerConfig cfg) \<and> \<not> enableBundler (dockerConfig cfg) \<and>
    \<not> enableAoCu (dockerConfig cfg) \<and> \<not> enableGrafana (dockerConfig cfg) \<and>
    \<not> enableDashboard (dockerConfig cfg) \<longrightarrow>
    servicesToStart cfg = [''core'', ''redis''])"
proof (intro conjI impI)
  show "take 2 (servicesToStart cfg) = [''core'', ''redis'']"
    by (simp add: servicesToStart_def fold_services)
  show "procs (snd (startA cfg c s)) =
     procs s @ [(''docker'', composeArgs (composeFiles s) (profiles cfg) @ [''up'', ''-d''] @
                              servicesToStart cfg)]"
    by (rule startA_procs)
next
  assume "\<not> truthy (dashboardConfig cfg ''ENABLE_ENVOY'') \<and> \<not> truthy (nodeConfig cfg ''RUN_OBSERVER'') \<and>
    \<not> enableAutoheal (dockerConfig cfg) \<and> \<not> enableClickhouse (dockerConfig cfg) \<and>
    \<not> enableLitestream (dockerConfig cfg) \<and> \<not> enableBundler (dockerConfig cfg) \<and>
    \<not> enableAoCu (dockerConfig cfg) \<and> \<not> enableGrafana (dockerConfig cfg) \<and>
    \<not> enableDashboard (dockerConfig cfg)"
  then show "servicesToStart cfg = [''core'', ''redis'']"
    by (simp add: servicesToStart_eq)
qed (rule servicesToStart_eq)

lemma someServices_flags:
  "truthy (dashboardConfig someServicesConfig ''ENABLE_ENVOY'')"
  "truthy (nodeConfig someServicesConfig ''RUN_OBSERVER'')"
  "\<not> enableAutoheal (dockerConfig someServicesConfig)"
  "\<not> enableClickhouse (dockerConfig someServicesConfig)"
  "\<not> enableLitestream (dockerConfig someServicesConfig)"
  "\<not> enableBundler (dockerConfig someServicesConfig)"
  "\<not> enableAoCu (dockerConfig someServicesConfig)"
  "enableGrafana (dockerConfig someServicesConfig)"
  "\<not> enableDashboard (dockerConfig someServicesConfig)"
  by (simp_all add: someServicesConfig_def noServices_def)

lemma coreOnly_no_flags:
  "\<not> truthy (dashboardConfig coreOnlyConfig ''ENABLE_ENVOY'') \<and>
   \<not> truthy (nodeConfig coreOnlyConfig ''RUN_OBSERVER'') \<and>
   \<not> enableAutoheal (dockerConfig coreOnlyConfig) \<and> \<not> enableClickhouse (dockerConfig coreOnlyConfig) \<and>
   \<not> enableLitestream (dockerConfig coreOnlyConfig) \<and> \<not> enableBundler (dockerConfig coreOnlyConfig) \<and>
   \<not> enableAoCu (dockerConfig coreOnlyConfig) \<and> \<not> enableGrafana (dockerConfig coreOnlyConfig) \<and>
   \<not> enableDashboard (dockerConfig coreOnlyConfig)"
  by (simp add: coreOnlyConfig_def noServices_def)

text \<open>
  Claim C8 at two configurations: one with no optional component, one with the proxy,
  the observer and Grafana on.
\<close>

theorem service_activation_set_witness:
  "servicesToStart coreOnlyConfig = [''core'', ''redis''] \<and>
   servicesToStart someServicesConfig =
     [''core'', ''redis'', ''envoy'', ''observer'', ''prometheus'', ''grafana'', ''node-exporter'']"
proof -
  from service_activation_set[of coreOnlyConfig] coreOnly_no_flags
  have a: "servicesToStart coreOnlyConfig = [''core'', ''redis'']" by blast
  from service_activation_set[of someServicesConfig]
  have "servicesToStart someServicesConfig =
     [''core'', ''redis''] @
     (if truthy (dashboardConfig someServicesConfig ''ENABLE_ENVOY'') then [''envoy''] else []) @
     (if truthy (nodeConfig someServicesConfig ''RUN_OBSERVER'') then [''observer''] else []) @
     (if enableAutoheal (dockerConfig someServicesConfig) then [''autoheal''] else []) @
     (if enableClickhouse (dockerConfig someServicesConfig)
      then [''clickhouse'', ''clickhouse-auto-import''] else []) @
     (if enableLitestream (dockerConfig someServicesConfig) then [''litestream''] else []) @
     (if enableBundler (dockerConfig someServicesConfig)
      then [''upload-service'', ''fulfillment-service'', ''upload-service-pg'', ''localstack'']
      else []) @
     (if enableAoCu (dockerConfig someServicesConfig) then [''ao-cu''] else []) @
     (if enableGrafana (dockerConfig someServicesConfig)
      then [''prometheus'', ''grafana'', ''node-exporter''] else []) @
     (if enableDashboard (dockerConfig someServicesConfig) then [''admin-dashboard''] else [])"
    by (rule conjunct1)
  then have b: "servicesToStart someServicesConfig =
     [''core'', ''redis'', ''envoy'', ''observer'', ''prometheus'', ''grafana'', ''node-exporter'']"
    by (simp add: someServices_flags)
  show ?thesis using a b by (intro conjI)
qed

section \<open>The bundler env file\<close>










lemma bundlerTest_content:
  "bundlerEnvContent calmEnv bundlerTestConfig =
     joinNL [''BUNDLER_ARWEAVE_WALLET='', ''BUNDLER_ARWEAVE_ADDRESS='', ''APP_NAME=b'',
       ''ANS104_INDEX_FILTER=undefined'', ''ANS104_UNBUNDLE_FILTER=undefined'',
       ''AWS_ACCESS_KEY_ID=test'', ''AWS_SECRET_ACCESS_KEY=test'']"
  by code_simp




section \<open>The log only grows\<close>

lemma growsAll_Nil [grow]: "growsAll []"
  by (simp add: growsAll_def)

lemma growsAll_Cons [grow]: "grows a \<Longrightarrow> growsAll as \<Longrightarrow> growsAll (a # as)"
  by (simp add: growsAll_def)

lemma growsAll_append [grow]: "growsAll as \<Longrightarrow> growsAll bs \<Longrightarrow> growsAll (as @ bs)"
  by (auto simp: growsAll_def)

lemma growsAll_map [grow]: "(\<And>x. grows (f x)) \<Longrightarrow> growsAll (map f xs)"
  by (auto simp: growsAll_def)

lemma grows_seqA [grow]: "growsAll as \<Longrightarrow> grows (seqA as)"
proof (induction as)
  case Nil
  then show ?case by (simp add: grows_def)
next
  case (Cons a as)
  then have a: "grows a" and as: "grows (seqA as)" by (simp_all add: growsAll_def)
  show ?case unfolding grows_def
  proof
    fix s
    obtain r s' where r: "a s = (r, s')" by (cases "a s")
    have p1: "prefix (deploymentLogs s) (deploymentLogs s')" using a r by (auto simp: grows_def dest: spec[of _ s])
    show "prefix (deploymentLogs s) (deploymentLogs (snd (seqA (a # as) s)))"
    proof (cases r)
      case None
      have "prefix (deploymentLogs s') (deploymentLogs (snd (seqA as s')))" using as by (simp add: grows_def)
      with p1 None r show ?thesis by (auto intro: prefix_order.trans)
    next
      case (Some e)
      with p1 r show ?thesis by simp
    qed
  qed
qed

lemma grows_skipA [grow]: "grows skipA"
  by (simp add: grows_def skipA_def)

lemma grows_throwA [grow]: "grows (throwA e)"
  by (simp add: grows_def throwA_def)

lemma grows_logA [grow]: "grows (logA msg)"
  by (simp add: grows_def logA_def appendLog_def)

lemma grows_ifA [grow]: "growsAll as \<Longrightarrow> grows (ifA c as)"
  by (simp add: ifA_def grow)

lemma grows_if [grow]: "grows a \<Longrightarrow> grows b \<Longrightarrow> grows (if c then a else b)"
  by simp

lemma grows_tryA [grow]: "growsAll body \<Longrightarrow> (\<And>e. grows (handler e)) \<Longrightarrow> grows (tryA body handler)"
proof -
  assume b: "growsAll body" and h: "\<And>e. grows (handler e)"
  have sb: "grows (seqA body)" using b by (rule grows_seqA)
  show ?thesis unfolding grows_def
  proof
    fix s
    obtain r s' where r: "seqA body s = (r, s')" by (cases "seqA body s")
    have p1: "prefix (deploymentLogs s) (deploymentLogs s')" using sb r by (auto simp: grows_def dest: spec[of _ s])
    show "prefix (deploymentLogs s) (deploymentLogs (snd (tryA body handler s)))"
    proof (cases r)
      case None
      with p1 r show ?thesis by (simp add: tryA_def)
    next
      case (Some e)
      have "prefix (deploymentLogs s') (deploymentLogs (snd (handler e s')))" using h[of e] by (simp add: grows_def)
      with p1 Some r show ?thesis by (auto simp: tryA_def intro: prefix_order.trans)
    qed
  qed
qed

lemma grows_spawnA [grow]: "grows (spawnA cmd args)"
  by (simp add: grows_def spawnA_def)

lemma grows_execA [grow]: "grows (execA outcome cmd)"
  by (simp add: grows_def execA_def)

lemma grows_writeFileA [grow]: "grows (writeFileA path content)"
  by (simp add: grows_def writeFileA_def)

lemma grows_writeValueA [grow]: "grows (writeValueA other path v)"
  by (auto simp: writeValueA_def grow split: option.splits jsval.splits sum.splits)

lemma grows_convertA [grow]: "grows (convertA vs)"
  by (simp add: convertA_def grow)

lemma grows_patchFileA [grow]: "grows (patchFileA path f)"
  by (simp add: grows_def patchFileA_def split: option.splits)

lemma grows_ifExistsA [grow]: "growsAll as \<Longrightarrow> growsAll bs \<Longrightarrow> grows (ifExistsA path as bs)"
  using grows_seqA[of as] grows_seqA[of bs] by (simp add: grows_def ifExistsA_def)

lemma grows_accessA [grow]: "grows (accessA path)"
  by (simp add: grows_def accessA_def)

lemma grows_unlinkA [grow]: "grows (unlinkA path)"
  by (simp add: grows_def unlinkA_def)

lemma grows_pushComposeFileA [grow]: "grows (pushComposeFileA f)"
  by (simp add: grows_def pushComposeFileA_def)

lemma grows_setComposeFilesA [grow]: "grows (setComposeFilesA fs)"
  by (simp add: grows_def setComposeFilesA_def)

lemma grows_setCancelledA [grow]: "grows (setCancelledA b)"
  by (simp add: grows_def setCancelledA_def)

lemma grows_withFilesA [grow]: "(\<And>fs. grows (f fs)) \<Longrightarrow> grows (withFilesA f)"
  by (simp add: grows_def withFilesA_def)

lemma grows_trackA [grow]: "grows trackA"
  by (simp add: grows_def trackA_def)

lemma grows_listenA [grow]: "grows (listenA cfg args)"
  by (simp add: grows_def listenA_def)

lemma grows_workingCopyA [grow]: "grows (workingCopyA env)"
  by (simp add: grows_def workingCopyA_def)

lemma grows_killA [grow]: "grows (killA outcome h sig)"
  by (simp add: grows_def killA_def)

lemma grows_case_sum [grow]:
  "(\<And>x. grows (f x)) \<Longrightarrow> (\<And>y. grows (g y)) \<Longrightarrow> grows (case v of Inl x \<Rightarrow> f x | Inr y \<Rightarrow> g y)"
  by (cases v) simp_all

lemma grows_case_option [grow]:
  "grows a \<Longrightarrow> (\<And>x. grows (f x)) \<Longrightarrow> grows (case v of None \<Rightarrow> a | Some x \<Rightarrow> f x)"
  by (cases v) simp_all

lemma grows_case_prod [grow]: "(\<And>x y. grows (f x y)) \<Longrightarrow> grows (case p of (x, y) \<Rightarrow> f x y)"
  by (cases p) simp

lemma grows_case_fetch [grow]:
  "(\<And>e. grows (f e)) \<Longrightarrow> (\<And>n. grows (g n)) \<Longrightarrow> (\<And>b. grows (h b)) \<Longrightarrow>
   grows (case v of FetchThrows e \<Rightarrow> f e | FetchStatus n \<Rightarrow> g n | FetchBody b \<Rightarrow> h b)"
  by (cases v) simp_all

lemma grows_case_tags [grow]:
  "(\<And>m. grows (f m)) \<Longrightarrow> grows g \<Longrightarrow> (\<And>t. grows (h t)) \<Longrightarrow>
   grows (case v of TagsUnparsable m \<Rightarrow> f m | TagsNoName \<Rightarrow> g | TagsLatest t \<Rightarrow> h t)"
  by (cases v) simp_all

lemma growsAll_case_sum [grow]:
  "(\<And>x. growsAll (f x)) \<Longrightarrow> (\<And>y. growsAll (g y)) \<Longrightarrow> growsAll (case v of Inl x \<Rightarrow> f x | Inr y \<Rightarrow> g y)"
  by (cases v) simp_all

lemma grows_preDeriveA [grow]: "grows (preDeriveA env cfg)"
  unfolding preDeriveA_def by (intro grow)

lemma grows_fetchTagsA [grow]: "grows (fetchTagsA env)"
  unfolding fetchTagsA_def by (intro grow)

lemma grows_updateRepositoryA [grow]: "grows (updateRepositoryA env)"
  unfolding updateRepositoryA_def by (intro grow)

lemma grows_cloneRepositoryA [grow]: "grows (cloneRepositoryA env)"
  unfolding cloneRepositoryA_def by (intro grow)

lemma grows_downloadA [grow]: "grows (downloadA res path name)"
  unfolding downloadA_def by (intro grow)

lemma grows_dashboardFilesA [grow]: "grows (dashboardFilesA env cfg)"
  unfolding dashboardFilesA_def by (intro grow)

lemma grows_patchComposeA [grow]: "grows (patchComposeA cfg)"
  unfolding patchComposeA_def Let_def by (intro grow)

lemma grows_writeEnvA [grow]: "grows (writeEnvA envContent)"
  unfolding writeEnvA_def by (intro grow)

lemma grows_observerWalletA [grow]: "grows (observerWalletA env cfg)"
  unfolding observerWalletA_def Let_def by (intro grow)

lemma grows_dataDirsA [grow]: "grows (dataDirsA cfg)"
  unfolding dataDirsA_def by (intro grow)

lemma grows_portLogsA [grow]: "grows (portLogsA cfg)"
  unfolding portLogsA_def by (intro grow)

lemma grows_aoEnvA [grow]: "grows (aoEnvA cfg)"
  unfolding aoEnvA_def by (intro grow)

lemma grows_bundlerEnvA [grow]: "grows (bundlerEnvA env cfg)"
  unfolding bundlerEnvA_def Let_def by (intro grow)

lemma grows_teardownA [grow]: "grows (teardownA env cfg)"
  unfolding teardownA_def by (intro grow)

lemma grows_cleanupA [grow]: "grows (cleanupA env)"
  unfolding cleanupA_def by (intro grow)

lemma grows_startLogsA [grow]: "grows (startLogsA cfg)"
  unfolding startLogsA_def by (intro grow)

lemma grows_startA [grow]: "grows (startA cfg c)"
  unfolding startA_def by (intro grow)

lemma growsAll_deployActions: "growsAll (deployActions env cfg)"
  unfolding deployActions_def Let_def prepareActions_def provisionActions_def artifactActions_def
  by (intro grow)

lemma appendLog_prefix: "prefix (deploymentLogs s) (deploymentLogs (appendLog msg s))"
  by (simp add: appendLog_def)

lemma grows_snd: "grows a \<Longrightarrow> prefix (deploymentLogs s) (deploymentLogs (snd (a s)))"
  by (simp add: grows_def)

lemma deploy_grows: "prefix (deploymentLogs s) (deploymentLogs (snd (deploy req env s)))"
proof (cases req)
  case None
  then show ?thesis by simp
next
  case (Some cfg)
  obtain r s' where r: "seqA (deployActions env cfg) s = (r, s')" by (cases "seqA (deployActions env cfg) s")
  have "prefix (deploymentLogs s) (deploymentLogs s')"
    using grows_snd[OF grows_seqA[OF growsAll_deployActions], of s env cfg] r by simp
  then show ?thesis using Some r appendLog_prefix[of s']
    by (cases r) (auto intro: prefix_order.trans)
qed

lemma grows_observerFixA [grow]: "grows (observerFixA ex cfg args)"
  unfolding observerFixA_def Let_def by (intro grow)

lemma grows_grafanaFixA [grow]: "grows (grafanaFixA ex cfg args)"
  unfolding grafanaFixA_def by (intro grow)

lemma onCloseEvent_grows: "prefix (deploymentLogs s) (deploymentLogs (onCloseEvent ex h code s))"
proof (cases "onClose s h")
  case None
  then show ?thesis by (simp add: onCloseEvent_def)
next
  case (Some p)
  obtain cfg args where p: "p = (cfg, args)" by (cases p)
  have "grows (if deploymentCancelled s then logA ''Deployment was cancelled''
              else seqA
                [logA (''docker compose exited with code '' @ showCode code),
                 ifA (code = Some 0)
                   [tryA
                      [observerFixA ex cfg args,
                       grafanaFixA ex cfg args,
                       logA (party_sign @ '' Post-deployment fixes completed!'')]
                      (\<lambda>err. logA (warning_sign @ '' Post-deployment fix warning: '' @
                                    message err))]])"
    by (intro grow)
  from grows_snd[OF this, of s] show ?thesis using Some p by (simp add: onCloseEvent_def)
qed

lemma grows_spawnDownA [grow]: "grows (spawnDownA outcome)"
  unfolding spawnDownA_def by (intro grow)

lemma cancelRequested_grows: "prefix (deploymentLogs s) (deploymentLogs (cancelRequested s))"
  by (simp add: cancelRequested_def appendLog_def)

lemma growsAll_killActions: "growsAll (killActions env h)"
  unfolding killActions_def by (intro grow)

lemma cancel_grows: "prefix (deploymentLogs s) (deploymentLogs (snd (cancel env s)))"
proof -
  define s2 where "s2 = cancelRequested s"
  have p2: "prefix (deploymentLogs s) (deploymentLogs s2)"
    unfolding s2_def by (rule cancelRequested_grows)
  have "prefix (deploymentLogs s2) (deploymentLogs (snd (cancel env s)))"
  proof (cases "currentDeploymentProcess s2")
    case None
    then show ?thesis using appendLog_prefix[of s2] by (simp add: cancel_def s2_def)
  next
    case (Some h)
    obtain r s3 where r: "seqA (killActions env h) s2 = (r, s3)"
      by (cases "seqA (killActions env h) s2")
    have p3: "prefix (deploymentLogs s2) (deploymentLogs s3)"
      using grows_snd[OF grows_seqA[OF growsAll_killActions], of s2 env h] r by simp
    show ?thesis
    proof (cases r)
      case None
      with Some r p3 show ?thesis by (simp add: cancel_def s2_def)
    next
      case (Some e)
      have "prefix (deploymentLogs s3) (deploymentLogs (appendLog (''Cancel error: '' @ message e) s3))"
        by (rule appendLog_prefix)
      with p3 have "prefix (deploymentLogs s2) (deploymentLogs (appendLog (''Cancel error: '' @ message e) s3))"
        by (rule prefix_order.trans)
      with \<open>currentDeploymentProcess s2 = Some h\<close> Some r show ?thesis by (simp add: cancel_def s2_def)
    qed
  qed
  with p2 show ?thesis by (rule prefix_order.trans)
qed

lemma react_grows: "prefix (deploymentLogs s) (deploymentLogs (snd (react ev s)))"
proof (cases ev)
  case (PostDeploy req env)
  then show ?thesis using deploy_grows[of s req env] by (cases "deploy req env s") auto
next
  case (PostCancel env)
  then show ?thesis using cancel_grows[of s env] by (cases "cancel env s") auto
next
  case (DeployClose ex h code)
  then show ?thesis using onCloseEvent_grows by simp
qed (simp_all add: getLogs_def getStatus_def getHealth_def onData_def onDownStdout_def onDownStderr_def
      onDownClose_def appendLog_def)

lemma run_Cons: "run (ev # evs) s = run evs (snd (react ev s))"
  by (simp add: run_def)

lemma run_append: "run (evs @ evs') s = run evs' (run evs s)"
  by (simp add: run_def)

lemma run_grows: "prefix (deploymentLogs s) (deploymentLogs (run evs s))"
proof (induction evs arbitrary: s)
  case Nil
  then show ?case by (simp add: run_def)
next
  case (Cons ev evs)
  have "prefix (deploymentLogs s) (deploymentLogs (snd (react ev s)))" by (rule react_grows)
  also have "prefix \<dots> (deploymentLogs (run evs (snd (react ev s))))" by (rule Cons.IH)
  finally show ?case by (simp only: run_Cons)
qed

text \<open>
  Claim C9. Whatever requests and process events the server handles, the log it has after
  any sequence of them is a prefix of the log it has after any longer sequence: lines are
  only added at the end. \<open>GET /logs\<close> answers with the whole log as it is.
\<close>

theorem log_is_append_only:
  "prefix (deploymentLogs (run evs s)) (deploymentLogs (run (evs @ later) s)) \<and>
   fst (react GetLogs (run evs s)) = Some (Response 200 (LogsBody (deploymentLogs (run evs s))))"
  by (simp add: run_append run_grows getLogs_def)

text \<open>
  Claim C9 for two runs: the log after a first deployment is a prefix of the log after a
  cancellation, a second deployment and a log retrieval have followed.
\<close>

theorem log_is_append_only_witness:
  "prefix
     (deploymentLogs (run [PostDeploy (Some coreOnlyConfig) calmEnv] (initial fixedClock)))
     (deploymentLogs
        (run ([PostDeploy (Some coreOnlyConfig) calmEnv] @
              [PostCancel calmCancel, PostDeploy (Some coreOnlyConfig) calmEnv, GetLogs])
           (initial fixedClock))) \<and>
   fst (react GetLogs (run [PostDeploy (Some coreOnlyConfig) calmEnv] (initial fixedClock))) =
     Some (Response 200
       (LogsBody (deploymentLogs (run [PostDeploy (Some coreOnlyConfig) calmEnv] (initial fixedClock)))))"
  by (rule log_is_append_only)

section \<open>\<open>POST /cancel\<close>\<close>

lemma cancelRequested_fields:
  "currentDeploymentProcess (cancelRequested s) = currentDeploymentProcess s"
  "signals (cancelRequested s) = signals s"
  by (simp_all add: cancelRequested_def appendLog_def)

lemma cancel_untracked:
  assumes "currentDeploymentProcess s = None"
  shows "fst (cancel env s) = Response 200 (StatusBody ''no_deployment_running'')"
    and "signals (snd (cancel env s)) = signals s"
  using assms by (simp_all add: cancel_def cancelRequested_fields appendLog_def)

lemma cancel_tracked:
  assumes "currentDeploymentProcess s = Some h"
  shows "httpCode (fst (cancel env s)) = 200"
    and "statusOf (fst (cancel env s)) = Some ''cancelled''"
    and "errorOf (fst (cancel env s)) = None"
    and "signals (snd (cancel env s)) = signals s @ [(h, ''SIGTERM'')]"
  using assms
  by (auto simp: cancel_def cancelRequested_fields killActions_def tryA_def killA_def logA_def
      spawnDownA_def spawnA_def throwA_def appendLog_def cancelRequested_def
      split: option.splits)

text \<open>
  Claim C6. \<open>POST /cancel\<close> always answers with status code 200 and no error member. Its
  status is \<open>cancelled\<close> when a process is tracked, and then the tracked process has been
  sent \<open>SIGTERM\<close>; it is \<open>no_deployment_running\<close> when none is tracked, and then no
  signal has been sent.
\<close>

theorem cancel_has_two_outcomes:
  "httpCode (fst (cancel env s)) = 200 \<and>
   errorOf (fst (cancel env s)) = None \<and>
   statusOf (fst (cancel env s)) =
     Some (if currentDeploymentProcess s = None then ''no_deployment_running'' else ''cancelled'') \<and>
   (\<forall>h. currentDeploymentProcess s = Some h \<longrightarrow>
        signals (snd (cancel env s)) = signals s @ [(h, ''SIGTERM'')]) \<and>
   (currentDeploymentProcess s = None \<longrightarrow> signals (snd (cancel env s)) = signals s)"
proof (cases "currentDeploymentProcess s")
  case None
  then show ?thesis using cancel_untracked[OF None, of env] by simp
next
  case (Some h)
  then show ?thesis using cancel_tracked[OF Some, of env] by simp
qed

lemma tracking_tracked: "currentDeploymentProcess trackingServer = Some 0"
  by (simp add: trackingServer_def initial_def)

lemma tracking_signals: "signals trackingServer = []"
  by (simp add: trackingServer_def initial_def)

lemma initial_untracked: "currentDeploymentProcess (initial fixedClock) = None"
  by (simp add: initial_def)

text \<open>
  Claim C6 at a server that has never deployed, and at a server that tracks a process.
\<close>

theorem cancel_has_two_outcomes_witness:
  "currentDeploymentProcess (initial fixedClock) = None \<and>
   statusOf (fst (cancel calmCancel (initial fixedClock))) = Some ''no_deployment_running'' \<and>
   currentDeploymentProcess trackingServer = Some 0 \<and>
   statusOf (fst (cancel calmCancel trackingServer)) = Some ''cancelled'' \<and>
   signals (snd (cancel calmCancel trackingServer)) = [(0, ''SIGTERM'')]"
proof -
  from cancel_has_two_outcomes[of calmCancel "initial fixedClock"] initial_untracked
  have a: "statusOf (fst (cancel calmCancel (initial fixedClock))) = Some ''no_deployment_running''"
    by simp
  from cancel_has_two_outcomes[of calmCancel trackingServer] tracking_tracked
  have b: "statusOf (fst (cancel calmCancel trackingServer)) = Some ''cancelled''"
    and c: "signals (snd (cancel calmCancel trackingServer)) = signals trackingServer @ [(0, ''SIGTERM'')]"
    by simp_all
  from c have d: "signals (snd (cancel calmCancel trackingServer)) = [(0, ''SIGTERM'')]"
    by (simp add: tracking_signals)
  show ?thesis using initial_untracked a tracking_tracked b d by (intro conjI)
qed

section \<open>Running the handler at a concrete world\<close>

lemma appendLog_fields [simp]:
  "currentDeploymentProcess (appendLog m s) = currentDeploymentProcess s"
  "deploymentCancelled (appendLog m s) = deploymentCancelled s"
  "clock (appendLog m s) = clock s"
  "procs (appendLog m s) = procs s"
  "commands (appendLog m s) = commands s"
  "signals (appendLog m s) = signals s"
  "files (appendLog m s) = files s"
  "onClose (appendLog m s) = onClose s"
  "composeFiles (appendLog m s) = composeFiles s"
  by (simp_all add: appendLog_def)

lemmas action_defs =
  ifA_def skipA_def throwA_def logA_def tryA_def spawnA_def execA_def writeFileA_def
  writeValueA_def convertA_def patchFileA_def ifExistsA_def accessA_def unlinkA_def
  pushComposeFileA_def
  setComposeFilesA_def setCancelledA_def withFilesA_def trackA_def listenA_def workingCopyA_def

lemmas block_defs =
  prepareActions_def provisionActions_def artifactActions_def preDeriveA_def fetchTagsA_def
  updateRepositoryA_def cloneRepositoryA_def cloneNeeded_def downloadA_def dashboardFilesA_def
  patchComposeA_def writeEnvA_def observerWalletA_def dataDirsA_def portLogsA_def aoEnvA_def
  bundlerEnvA_def teardownA_def cleanupA_def startLogsA_def startA_def

lemma coreOnly_env: "buildEnvFile coreOnlyConfig = Inr ''CORE_PORT=4000''"
  by code_simp

lemma coreOnly_preDerived: "preDerived env coreOnlyConfig = coreOnlyConfig"
  by (simp add: preDerived_def coreOnlyConfig_def noServices_def)

lemma coreOnly_flags:
  "dockerConfig coreOnlyConfig = noServices"
  "truthy (dashboardConfig coreOnlyConfig k) = False"
  "truthy (nodeConfig coreOnlyConfig ''OBSERVER_JWK'') = False"
  "truthy (nodeConfig coreOnlyConfig ''RUN_OBSERVER'') = False"
  "printable (nodeConfig coreOnlyConfig k) = True"
  "printable (dashboardConfig coreOnlyConfig k) = True"
  by (simp_all add: coreOnlyConfig_def)

lemma noServices_flags:
  "useEnvoy noServices = False" "enableBundler noServices = False" "enableAoCu noServices = False"
  "enableGrafana noServices = False" "enableDashboard noServices = False"
  "enableClickhouse noServices = False" "enableLitestream noServices = False"
  "enableAutoheal noServices = False" "enableSsl noServices = False"
  by (simp_all add: noServices_def)

lemma calm_fields:
  "tagsFetch calmEnv = Inr (TagsLatest ''r1'')" "repoExists calmEnv = True"
  "repoStillExists calmEnv = True" "fst (updateExit calmEnv) = Some 0"
  "execResult calmEnv c = None"
  "repoFiles calmEnv ''/tmp/ar-io-node/docker-compose.yaml'' = Some ''services:''"
  "repoFiles calmEnv ''/tmp/ar-io-node/.env'' = None"
  by (simp_all add: calmEnv_def)

lemma calm_core_run: "fst (seqA (deployActions calmEnv coreOnlyConfig) s) = None"
  by (simp add: deployActions_def coreOnly_preDerived coreOnly_env block_defs action_defs
      coreOnly_flags noServices_flags calm_fields optionalServices_def profiles_def Let_def
      deployDir_def)

lemma calm_core_started:
  "fst (deploy (Some coreOnlyConfig) calmEnv s) = Response 200 (StatusBody ''started'')"
  using calm_core_run[of s] by (cases "seqA (deployActions calmEnv coreOnlyConfig) s") auto

section \<open>Which statements start the orchestration CLI\<close>

lemma keepsUpAll_Nil [up]: "keepsUpAll []"
  by (simp add: keepsUpAll_def)

lemma keepsUpAll_Cons [up]: "keepsUp a \<Longrightarrow> keepsUpAll as \<Longrightarrow> keepsUpAll (a # as)"
  by (simp add: keepsUpAll_def)

lemma keepsUpAll_append [up]: "keepsUpAll as \<Longrightarrow> keepsUpAll bs \<Longrightarrow> keepsUpAll (as @ bs)"
  by (auto simp: keepsUpAll_def)

lemma keepsUpAll_map [up]: "(\<And>x. keepsUp (f x)) \<Longrightarrow> keepsUpAll (map f xs)"
  by (auto simp: keepsUpAll_def)

lemma keepsUp_seqA [up]: "keepsUpAll as \<Longrightarrow> keepsUp (seqA as)"
proof (induction as)
  case Nil
  then show ?case by (simp add: keepsUp_def)
next
  case (Cons a as)
  then have a: "keepsUp a" and as: "keepsUp (seqA as)" by (simp_all add: keepsUpAll_def)
  show ?case unfolding keepsUp_def
  proof
    fix s
    obtain r s' where r: "a s = (r, s')" by (cases "a s")
    have p1: "upCount s' = upCount s \<and> currentDeploymentProcess s' = currentDeploymentProcess s"
      using a r by (auto simp: keepsUp_def dest: spec[of _ s])
    have p2: "upCount (snd (seqA as s')) = upCount s' \<and>
              currentDeploymentProcess (snd (seqA as s')) = currentDeploymentProcess s'"
      using as by (simp add: keepsUp_def)
    show "upCount (snd (seqA (a # as) s)) = upCount s \<and>
          currentDeploymentProcess (snd (seqA (a # as) s)) = currentDeploymentProcess s"
      using p1 p2 r by (cases r) auto
  qed
qed

lemma upCount_fields [simp]:
  "upCount (appendLog m s) = upCount s"
  "upCount (s\<lparr>commands := c\<rparr>) = upCount s"
  "upCount (s\<lparr>files := f\<rparr>) = upCount s"
  "upCount (s\<lparr>composeFiles := cf\<rparr>) = upCount s"
  "upCount (s\<lparr>deploymentCancelled := b\<rparr>) = upCount s"
  "upCount (s\<lparr>onClose := oc\<rparr>) = upCount s"
  "upCount (s\<lparr>currentDeploymentProcess := p\<rparr>) = upCount s"
  "upCount (s\<lparr>signals := sg\<rparr>) = upCount s"
  by (simp_all add: upCount_def)

lemma keepsUp_skipA [up]: "keepsUp skipA"
  by (simp add: keepsUp_def skipA_def)

lemma keepsUp_throwA [up]: "keepsUp (throwA e)"
  by (simp add: keepsUp_def throwA_def)

lemma keepsUp_logA [up]: "keepsUp (logA msg)"
  by (simp add: keepsUp_def logA_def)

lemma keepsUp_ifA [up]: "keepsUpAll as \<Longrightarrow> keepsUp (ifA c as)"
  by (simp add: ifA_def up)

lemma keepsUp_if [up]: "keepsUp a \<Longrightarrow> keepsUp b \<Longrightarrow> keepsUp (if c then a else b)"
  by simp

lemma keepsUp_tryA [up]:
  assumes b: "keepsUpAll body" and h: "\<And>e. keepsUp (handler e)"
  shows "keepsUp (tryA body handler)"
proof -
  have sb: "keepsUp (seqA body)" using b by (rule keepsUp_seqA)
  show ?thesis unfolding keepsUp_def
  proof
    fix s
    obtain r s' where r: "seqA body s = (r, s')" by (cases "seqA body s")
    have p1: "upCount s' = upCount s \<and> currentDeploymentProcess s' = currentDeploymentProcess s"
      using sb r by (auto simp: keepsUp_def dest: spec[of _ s])
    show "upCount (snd (tryA body handler s)) = upCount s \<and>
          currentDeploymentProcess (snd (tryA body handler s)) = currentDeploymentProcess s"
    proof (cases r)
      case None
      with p1 r show ?thesis by (simp add: tryA_def)
    next
      case (Some e)
      have "upCount (snd (handler e s')) = upCount s' \<and>
            currentDeploymentProcess (snd (handler e s')) = currentDeploymentProcess s'"
        using h[of e] by (simp add: keepsUp_def)
      with p1 Some r show ?thesis by (simp add: tryA_def)
    qed
  qed
qed

lemma keepsUp_spawnA [up]: "cmd \<noteq> ''docker'' \<Longrightarrow> keepsUp (spawnA cmd args)"
  by (simp add: keepsUp_def spawnA_def upCount_def isUp_def)

lemma keepsUp_execA [up]: "keepsUp (execA outcome cmd)"
  by (simp add: keepsUp_def execA_def)

lemma keepsUp_writeFileA [up]: "keepsUp (writeFileA path content)"
  by (simp add: keepsUp_def writeFileA_def)

lemma keepsUp_writeValueA [up]: "keepsUp (writeValueA other path v)"
  by (auto simp: writeValueA_def up split: option.splits jsval.splits sum.splits)

lemma keepsUp_convertA [up]: "keepsUp (convertA vs)"
  by (simp add: convertA_def up)

lemma keepsUp_patchFileA [up]: "keepsUp (patchFileA path f)"
  by (simp add: keepsUp_def patchFileA_def split: option.splits)

lemma keepsUp_ifExistsA [up]: "keepsUpAll as \<Longrightarrow> keepsUpAll bs \<Longrightarrow> keepsUp (ifExistsA path as bs)"
  using keepsUp_seqA[of as] keepsUp_seqA[of bs] by (simp add: keepsUp_def ifExistsA_def)

lemma keepsUp_accessA [up]: "keepsUp (accessA path)"
  by (simp add: keepsUp_def accessA_def)

lemma keepsUp_unlinkA [up]: "keepsUp (unlinkA path)"
  by (simp add: keepsUp_def unlinkA_def)

lemma keepsUp_pushComposeFileA [up]: "keepsUp (pushComposeFileA f)"
  by (simp add: keepsUp_def pushComposeFileA_def)

lemma keepsUp_setComposeFilesA [up]: "keepsUp (setComposeFilesA fs)"
  by (simp add: keepsUp_def setComposeFilesA_def)

lemma keepsUp_setCancelledA [up]: "keepsUp (setCancelledA b)"
  by (simp add: keepsUp_def setCancelledA_def)

lemma keepsUp_withFilesA [up]: "(\<And>fs. keepsUp (f fs)) \<Longrightarrow> keepsUp (withFilesA f)"
  by (simp add: keepsUp_def withFilesA_def)

lemma keepsUp_workingCopyA [up]: "keepsUp (workingCopyA env)"
  by (simp add: keepsUp_def workingCopyA_def)

lemma keepsUp_case_sum [up]:
  "(\<And>x. keepsUp (f x)) \<Longrightarrow> (\<And>y. keepsUp (g y)) \<Longrightarrow> keepsUp (case v of Inl x \<Rightarrow> f x | Inr y \<Rightarrow> g y)"
  by (cases v) simp_all

lemma keepsUp_case_prod [up]: "(\<And>x y. keepsUp (f x y)) \<Longrightarrow> keepsUp (case p of (x, y) \<Rightarrow> f x y)"
  by (cases p) simp

lemma keepsUp_case_fetch [up]:
  "(\<And>e. keepsUp (f e)) \<Longrightarrow> (\<And>n. keepsUp (g n)) \<Longrightarrow> (\<And>b. keepsUp (h b)) \<Longrightarrow>
   keepsUp (case v of FetchThrows e \<Rightarrow> f e | FetchStatus n \<Rightarrow> g n | FetchBody b \<Rightarrow> h b)"
  by (cases v) simp_all

lemma keepsUp_case_tags [up]:
  "(\<And>m. keepsUp (f m)) \<Longrightarrow> keepsUp g \<Longrightarrow> (\<And>t. keepsUp (h t)) \<Longrightarrow>
   keepsUp (case v of TagsUnparsable m \<Rightarrow> f m | TagsNoName \<Rightarrow> g | TagsLatest t \<Rightarrow> h t)"
  by (cases v) simp_all

lemma keepsUp_preDeriveA [up]: "keepsUp (preDeriveA env cfg)"
  unfolding preDeriveA_def by (intro up)

lemma keepsUp_fetchTagsA [up]: "keepsUp (fetchTagsA env)"
  unfolding fetchTagsA_def by (intro up)

lemma keepsUp_updateRepositoryA [up]: "keepsUp (updateRepositoryA env)"
  unfolding updateRepositoryA_def by (intro up) simp

lemma keepsUp_cloneRepositoryA [up]: "keepsUp (cloneRepositoryA env)"
  unfolding cloneRepositoryA_def by (intro up) simp

lemma keepsUp_downloadA [up]: "keepsUp (downloadA res path name)"
  unfolding downloadA_def by (intro up)

lemma keepsUp_dashboardFilesA [up]: "keepsUp (dashboardFilesA env cfg)"
  unfolding dashboardFilesA_def by (intro up)

lemma keepsUp_patchComposeA [up]: "keepsUp (patchComposeA cfg)"
  unfolding patchComposeA_def Let_def by (intro up)

lemma keepsUp_writeEnvA [up]: "keepsUp (writeEnvA envContent)"
  unfolding writeEnvA_def by (intro up)

lemma keepsUp_observerWalletA [up]: "keepsUp (observerWalletA env cfg)"
  unfolding observerWalletA_def Let_def by (intro up)

lemma keepsUp_dataDirsA [up]: "keepsUp (dataDirsA cfg)"
  unfolding dataDirsA_def by (intro up)

lemma keepsUp_portLogsA [up]: "keepsUp (portLogsA cfg)"
  unfolding portLogsA_def by (intro up)

lemma keepsUp_aoEnvA [up]: "keepsUp (aoEnvA cfg)"
  unfolding aoEnvA_def by (intro up)

lemma keepsUp_bundlerEnvA [up]: "keepsUp (bundlerEnvA env cfg)"
  unfolding bundlerEnvA_def Let_def by (intro up)

lemma keepsUp_teardownA [up]: "keepsUp (teardownA env cfg)"
  unfolding teardownA_def by (intro up)

lemma keepsUp_cleanupA [up]: "keepsUp (cleanupA env)"
  unfolding cleanupA_def by (intro up)

lemma keepsUp_startLogsA [up]: "keepsUp (startLogsA cfg)"
  unfolding startLogsA_def by (intro up)

lemma keepsUpAll_before_start:
  "keepsUpAll (prepareActions env cfg)"
  "keepsUpAll (provisionActions env @ artifactActions env cfg1 envContent)"
  unfolding prepareActions_def provisionActions_def artifactActions_def
  by (intro up)+

lemma keepsUp_snd:
  "keepsUp a \<Longrightarrow> upCount (snd (a s)) = upCount s \<and>
     currentDeploymentProcess (snd (a s)) = currentDeploymentProcess s"
  by (simp add: keepsUp_def)

lemma seqA_append:
  "seqA (as @ bs) s =
     (case seqA as s of (None, s') \<Rightarrow> seqA bs s' | (Some e, s') \<Rightarrow> (Some e, s'))"
  by (induction as arbitrary: s) (auto split: prod.splits option.splits)

text \<open>What the last statement of the \<open>try\<close> block does.\<close>

lemma startA_effect:
  "fst (startA cfg c s) = None"
  "upCount (snd (startA cfg c s)) = Suc (upCount s)"
  "currentDeploymentProcess (snd (startA cfg c s)) = Some (length (procs s))"
  "procs (snd (startA cfg c s)) =
     procs s @ [(''docker'', composeArgs (composeFiles s) (profiles cfg) @ [''up'', ''-d''] @
                              servicesToStart cfg)]"
  by (simp_all add: startA_def withFilesA_def spawnA_def trackA_def logA_def listenA_def
      upCount_def isUp_def)

text \<open>The \<open>try\<close> block either throws before the CLI is started, or ends by starting it.\<close>

lemma deployActions_cases:
  obtains (threw) e s' where "seqA (deployActions env cfg) s = (Some e, s')"
      "upCount s' = upCount s" "currentDeploymentProcess s' = currentDeploymentProcess s"
  | (started) s1 where "seqA (deployActions env cfg) s = startA (preDerived env cfg) (postBundler env (preDerived env cfg)) s1"
      "upCount s1 = upCount s"
proof -
  define cfg1 where "cfg1 = preDerived env cfg"
  obtain r0 s0 where r0: "seqA (prepareActions env cfg) s = (r0, s0)"
    by (cases "seqA (prepareActions env cfg) s")
  have k0: "upCount s0 = upCount s \<and> currentDeploymentProcess s0 = currentDeploymentProcess s"
    using keepsUp_snd[OF keepsUp_seqA[OF keepsUpAll_before_start(1)], of env cfg s] r0 by simp
  show thesis
  proof (cases r0)
    case (Some e)
    then have "seqA (deployActions env cfg) s = (Some e, s0)"
      using r0 by (simp add: deployActions_def Let_def seqA_append)
    then show thesis using k0 by (intro threw[of e s0]) simp_all
  next
    case None
    show thesis
    proof (cases "buildEnvFile cfg1")
      case (Inl e)
      then have "seqA (deployActions env cfg) s = (Some e, s0)"
        using r0 None by (simp add: deployActions_def Let_def seqA_append cfg1_def throwA_def)
      then show thesis using k0 by (intro threw[of e s0]) simp_all
    next
      case (Inr envContent)
      define mid where "mid = provisionActions env @ artifactActions env cfg1 envContent"
      obtain r1 s1 where r1: "seqA mid s0 = (r1, s1)" by (cases "seqA mid s0")
      have k1: "upCount s1 = upCount s0 \<and> currentDeploymentProcess s1 = currentDeploymentProcess s0"
        using keepsUp_snd[OF keepsUp_seqA[OF keepsUpAll_before_start(2)], of env cfg1 envContent s0] r1
        by (simp add: mid_def)
      have d: "seqA (deployActions env cfg) s =
                 (case seqA mid s0 of (None, s') \<Rightarrow> seqA [startA cfg1 (postBundler env cfg1)] s'
                  | (Some e, s') \<Rightarrow> (Some e, s'))"
        using r0 None Inr
        by (simp add: deployActions_def Let_def seqA_append cfg1_def[symmetric] mid_def
            del: append_assoc add: append_assoc[symmetric])
      show thesis
      proof (cases r1)
        case (Some e)
        with d r1 have "seqA (deployActions env cfg) s = (Some e, s1)" by simp
        then show thesis using k0 k1 by (intro threw[of e s1]) simp_all
      next
        case None
        with d r1 have "seqA (deployActions env cfg) s = startA cfg1 (postBundler env cfg1) s1"
          by (simp split: prod.splits option.splits)
        then show thesis using k0 k1 by (intro started[of s1]) (simp_all add: cfg1_def)
      qed
    qed
  qed
qed

lemma deploy_effect:
  "(fst (deploy req env s) = Response 200 (StatusBody ''started'') \<longrightarrow>
      upCount (snd (deploy req env s)) = Suc (upCount s) \<and>
      (\<exists>args. procs (snd (deploy req env s)) \<noteq> [] \<and>
              last (procs (snd (deploy req env s))) = (''docker'', args) \<and> ''up'' \<in> set args) \<and>
      currentDeploymentProcess (snd (deploy req env s)) =
        Some (length (procs (snd (deploy req env s))) - 1)) \<and>
   (fst (deploy req env s) \<noteq> Response 200 (StatusBody ''started'') \<longrightarrow>
      upCount (snd (deploy req env s)) = upCount s \<and>
      currentDeploymentProcess (snd (deploy req env s)) = currentDeploymentProcess s)"
proof (cases req)
  case None
  then show ?thesis by simp
next
  case (Some cfg)
  show ?thesis
  proof (cases rule: deployActions_cases[of env cfg s])
    case (threw e s')
    then show ?thesis using Some by simp
  next
    case (started s1)
    obtain s' where s': "startA (preDerived env cfg) (postBundler env (preDerived env cfg)) s1 = (None, s')"
      using startA_effect(1)[of "preDerived env cfg" "postBundler env (preDerived env cfg)" s1]
      by (cases "startA (preDerived env cfg) (postBundler env (preDerived env cfg)) s1") auto
    have e: "upCount s' = Suc (upCount s1)" "currentDeploymentProcess s' = Some (length (procs s1))"
      "procs s' = procs s1 @ [(''docker'', composeArgs (composeFiles s1) (profiles (preDerived env cfg)) @
          [''up'', ''-d''] @ servicesToStart (preDerived env cfg))]"
      using startA_effect(2,3,4)[of "preDerived env cfg" "postBundler env (preDerived env cfg)" s1] s'
      by simp_all
    have d: "deploy req env s = (Response 200 (StatusBody ''started''), s')"
      using Some started(1) s' by simp
    show ?thesis unfolding d using e started(2) by simp
  qed
qed

section \<open>The handler never reads the tracked handle\<close>

lemma sameButTracked_refl: "sameButTracked s s"
  by (simp add: sameButTracked_def)

lemma sameButTracked_appendLog: "sameButTracked s t \<Longrightarrow> sameButTracked (appendLog m s) (appendLog m t)"
  by (simp add: sameButTracked_def appendLog_def)

lemma heedlessAll_Nil [heed]: "heedlessAll []"
  by (simp add: heedlessAll_def)

lemma heedlessAll_Cons [heed]: "heedless a \<Longrightarrow> heedlessAll as \<Longrightarrow> heedlessAll (a # as)"
  by (simp add: heedlessAll_def)

lemma heedlessAll_append [heed]: "heedlessAll as \<Longrightarrow> heedlessAll bs \<Longrightarrow> heedlessAll (as @ bs)"
  by (auto simp: heedlessAll_def)

lemma heedlessAll_map [heed]: "(\<And>x. heedless (f x)) \<Longrightarrow> heedlessAll (map f xs)"
  by (auto simp: heedlessAll_def)

lemma heedlessD:
  "heedless a \<Longrightarrow> sameButTracked s t \<Longrightarrow> fst (a s) = fst (a t) \<and> sameButTracked (snd (a s)) (snd (a t))"
  by (simp add: heedless_def)

lemma heedless_seqA [heed]: "heedlessAll as \<Longrightarrow> heedless (seqA as)"
proof (induction as)
  case Nil
  then show ?case by (simp add: heedless_def)
next
  case (Cons a as)
  then have a: "heedless a" and as: "heedless (seqA as)" by (simp_all add: heedlessAll_def)
  show ?case unfolding heedless_def
  proof (intro allI impI)
    fix s t assume st: "sameButTracked s t"
    obtain r s' where r: "a s = (r, s')" by (cases "a s")
    obtain q t' where q: "a t = (q, t')" by (cases "a t")
    from heedlessD[OF a st] r q have q': "a t = (r, t')" and st': "sameButTracked s' t'" by simp_all
    show "fst (seqA (a # as) s) = fst (seqA (a # as) t) \<and>
          sameButTracked (snd (seqA (a # as) s)) (snd (seqA (a # as) t))"
    proof (cases r)
      case None
      with r q' heedlessD[OF as st'] show ?thesis by simp
    next
      case (Some e)
      with r q' st' show ?thesis by simp
    qed
  qed
qed

lemma heedless_skipA [heed]: "heedless skipA"
  by (simp add: heedless_def skipA_def)

lemma heedless_throwA [heed]: "heedless (throwA e)"
  by (simp add: heedless_def throwA_def)

lemma heedless_logA [heed]: "heedless (logA msg)"
  by (simp add: heedless_def logA_def sameButTracked_appendLog)

lemma heedless_ifA [heed]: "heedlessAll as \<Longrightarrow> heedless (ifA c as)"
  by (simp add: ifA_def heed)

lemma heedless_if [heed]: "heedless a \<Longrightarrow> heedless b \<Longrightarrow> heedless (if c then a else b)"
  by simp

lemma heedless_tryA [heed]:
  assumes b: "heedlessAll body" and h: "\<And>e. heedless (handler e)"
  shows "heedless (tryA body handler)"
proof -
  have sb: "heedless (seqA body)" using b by (rule heedless_seqA)
  show ?thesis unfolding heedless_def
  proof (intro allI impI)
    fix s t assume st: "sameButTracked s t"
    obtain r s' where r: "seqA body s = (r, s')" by (cases "seqA body s")
    obtain q t' where q: "seqA body t = (q, t')" by (cases "seqA body t")
    from heedlessD[OF sb st] r q have q': "seqA body t = (r, t')" and st': "sameButTracked s' t'"
      by simp_all
    show "fst (tryA body handler s) = fst (tryA body handler t) \<and>
          sameButTracked (snd (tryA body handler s)) (snd (tryA body handler t))"
    proof (cases r)
      case None
      with r q' st' show ?thesis by (simp add: tryA_def)
    next
      case (Some e)
      with r q' heedlessD[OF h[of e] st'] show ?thesis by (simp add: tryA_def)
    qed
  qed
qed

lemma heedless_spawnA [heed]: "heedless (spawnA cmd args)"
  by (simp add: heedless_def spawnA_def sameButTracked_def)

lemma heedless_execA [heed]: "heedless (execA outcome cmd)"
  by (simp add: heedless_def execA_def sameButTracked_def)

lemma heedless_writeFileA [heed]: "heedless (writeFileA path content)"
  by (simp add: heedless_def writeFileA_def sameButTracked_def)

lemma heedless_writeValueA [heed]: "heedless (writeValueA other path v)"
  by (auto simp: writeValueA_def heed split: option.splits jsval.splits sum.splits)

lemma heedless_convertA [heed]: "heedless (convertA vs)"
  by (simp add: convertA_def heed)

lemma heedless_patchFileA [heed]: "heedless (patchFileA path f)"
  by (simp add: heedless_def patchFileA_def sameButTracked_def split: option.splits)

lemma heedless_ifExistsA [heed]:
  assumes "heedlessAll as" and "heedlessAll bs"
  shows "heedless (ifExistsA path as bs)"
proof -
  have a: "heedless (seqA as)" and b: "heedless (seqA bs)" using assms by (simp_all add: heed)
  show ?thesis unfolding heedless_def
  proof (intro allI impI)
    fix s t assume st: "sameButTracked s t"
    then have f: "files s = files t" by (simp add: sameButTracked_def)
    show "fst (ifExistsA path as bs s) = fst (ifExistsA path as bs t) \<and>
          sameButTracked (snd (ifExistsA path as bs s)) (snd (ifExistsA path as bs t))"
      using heedlessD[OF a st] heedlessD[OF b st] f by (simp add: ifExistsA_def)
  qed
qed

lemma heedless_accessA [heed]: "heedless (accessA path)"
  by (simp add: heedless_def accessA_def sameButTracked_def)

lemma heedless_unlinkA [heed]: "heedless (unlinkA path)"
  by (simp add: heedless_def unlinkA_def sameButTracked_def)

lemma heedless_pushComposeFileA [heed]: "heedless (pushComposeFileA f)"
  by (simp add: heedless_def pushComposeFileA_def sameButTracked_def)

lemma heedless_setComposeFilesA [heed]: "heedless (setComposeFilesA fs)"
  by (simp add: heedless_def setComposeFilesA_def sameButTracked_def)

lemma heedless_withFilesA [heed]:
  assumes "\<And>fs. heedless (f fs)"
  shows "heedless (withFilesA f)"
  unfolding heedless_def
proof (intro allI impI)
  fix s t assume st: "sameButTracked s t"
  then have c: "composeFiles s = composeFiles t" by (simp add: sameButTracked_def)
  show "fst (withFilesA f s) = fst (withFilesA f t) \<and>
        sameButTracked (snd (withFilesA f s)) (snd (withFilesA f t))"
    using heedlessD[OF assms[of "composeFiles t"] st] c by (simp add: withFilesA_def)
qed

lemma heedless_trackA [heed]: "heedless trackA"
  by (simp add: heedless_def trackA_def sameButTracked_def)

lemma heedless_listenA [heed]: "heedless (listenA cfg args)"
  by (simp add: heedless_def listenA_def sameButTracked_def)

lemma heedless_workingCopyA [heed]: "heedless (workingCopyA env)"
  by (simp add: heedless_def workingCopyA_def sameButTracked_def)

lemma heedless_case_sum [heed]:
  "(\<And>x. heedless (f x)) \<Longrightarrow> (\<And>y. heedless (g y)) \<Longrightarrow> heedless (case v of Inl x \<Rightarrow> f x | Inr y \<Rightarrow> g y)"
  by (cases v) simp_all

lemma heedless_case_prod [heed]: "(\<And>x y. heedless (f x y)) \<Longrightarrow> heedless (case p of (x, y) \<Rightarrow> f x y)"
  by (cases p) simp

lemma heedless_case_fetch [heed]:
  "(\<And>e. heedless (f e)) \<Longrightarrow> (\<And>n. heedless (g n)) \<Longrightarrow> (\<And>b. heedless (h b)) \<Longrightarrow>
   heedless (case v of FetchThrows e \<Rightarrow> f e | FetchStatus n \<Rightarrow> g n | FetchBody b \<Rightarrow> h b)"
  by (cases v) simp_all

lemma heedless_cloneRepositoryA [heed]: "heedless (cloneRepositoryA env)"
  unfolding cloneRepositoryA_def by (intro heed)

lemma heedless_downloadA [heed]: "heedless (downloadA res path name)"
  unfolding downloadA_def by (intro heed)

lemma heedless_dashboardFilesA [heed]: "heedless (dashboardFilesA env cfg)"
  unfolding dashboardFilesA_def by (intro heed)

lemma heedless_patchComposeA [heed]: "heedless (patchComposeA cfg)"
  unfolding patchComposeA_def Let_def by (intro heed)

lemma heedless_writeEnvA [heed]: "heedless (writeEnvA envContent)"
  unfolding writeEnvA_def by (intro heed)

lemma heedless_observerWalletA [heed]: "heedless (observerWalletA env cfg)"
  unfolding observerWalletA_def Let_def by (intro heed)

lemma heedless_dataDirsA [heed]: "heedless (dataDirsA cfg)"
  unfolding dataDirsA_def by (intro heed)

lemma heedless_portLogsA [heed]: "heedless (portLogsA cfg)"
  unfolding portLogsA_def by (intro heed)

lemma heedless_aoEnvA [heed]: "heedless (aoEnvA cfg)"
  unfolding aoEnvA_def by (intro heed)

lemma heedless_bundlerEnvA [heed]: "heedless (bundlerEnvA env cfg)"
  unfolding bundlerEnvA_def Let_def by (intro heed)

lemma heedless_teardownA [heed]: "heedless (teardownA env cfg)"
  unfolding teardownA_def by (intro heed)

lemma heedless_cleanupA [heed]: "heedless (cleanupA env)"
  unfolding cleanupA_def by (intro heed)

lemma heedless_startLogsA [heed]: "heedless (startLogsA cfg)"
  unfolding startLogsA_def by (intro heed)

lemma heedless_startA [heed]: "heedless (startA cfg c)"
  unfolding startA_def by (intro heed)

lemma heedless_setCancelledA [heed]: "heedless (setCancelledA b)"
  by (simp add: heedless_def setCancelledA_def sameButTracked_def)

lemma heedless_case_tags [heed]:
  "(\<And>m. heedless (f m)) \<Longrightarrow> heedless g \<Longrightarrow> (\<And>t. heedless (h t)) \<Longrightarrow>
   heedless (case v of TagsUnparsable m \<Rightarrow> f m | TagsNoName \<Rightarrow> g | TagsLatest t \<Rightarrow> h t)"
  by (cases v) simp_all

lemma heedless_preDeriveA [heed]: "heedless (preDeriveA env cfg)"
  unfolding preDeriveA_def by (intro heed)

lemma heedless_fetchTagsA [heed]: "heedless (fetchTagsA env)"
  unfolding fetchTagsA_def by (intro heed)

lemma heedless_updateRepositoryA [heed]: "heedless (updateRepositoryA env)"
  unfolding updateRepositoryA_def by (intro heed)







lemma upCount_initial: "upCount (initial clk) = 0"
  by (simp add: upCount_def initial_def)





section \<open>The handler never reads the log\<close>

lemma sameButLogs_refl: "sameButLogs s s"
  by (simp add: sameButLogs_def)

lemma sameButLogs_appendLog: "sameButLogs s t \<Longrightarrow> sameButLogs (appendLog m s) (appendLog m' t)"
  by (simp add: sameButLogs_def)

lemma blindAll_Nil [blnd]: "blindAll []"
  by (simp add: blindAll_def)

lemma blindAll_Cons [blnd]: "blind a \<Longrightarrow> blindAll as \<Longrightarrow> blindAll (a # as)"
  by (simp add: blindAll_def)

lemma blindAll_append [blnd]: "blindAll as \<Longrightarrow> blindAll bs \<Longrightarrow> blindAll (as @ bs)"
  by (auto simp: blindAll_def)

lemma blindAll_map [blnd]: "(\<And>x. blind (f x)) \<Longrightarrow> blindAll (map f xs)"
  by (auto simp: blindAll_def)

lemma blindD:
  "blind a \<Longrightarrow> sameButLogs s t \<Longrightarrow> fst (a s) = fst (a t) \<and> sameButLogs (snd (a s)) (snd (a t))"
  by (simp add: blind_def)

lemma blind_seqA [blnd]: "blindAll as \<Longrightarrow> blind (seqA as)"
proof (induction as)
  case Nil
  then show ?case by (simp add: blind_def)
next
  case (Cons a as)
  then have a: "blind a" and as: "blind (seqA as)" by (simp_all add: blindAll_def)
  show ?case unfolding blind_def
  proof (intro allI impI)
    fix s t assume st: "sameButLogs s t"
    obtain r s' where r: "a s = (r, s')" by (cases "a s")
    obtain q t' where q: "a t = (q, t')" by (cases "a t")
    from blindD[OF a st] r q have q': "a t = (r, t')" and st': "sameButLogs s' t'" by simp_all
    show "fst (seqA (a # as) s) = fst (seqA (a # as) t) \<and>
          sameButLogs (snd (seqA (a # as) s)) (snd (seqA (a # as) t))"
    proof (cases r)
      case None
      with r q' blindD[OF as st'] show ?thesis by simp
    next
      case (Some e)
      with r q' st' show ?thesis by simp
    qed
  qed
qed

lemma blind_skipA [blnd]: "blind skipA"
  by (simp add: blind_def skipA_def)

lemma blind_throwA [blnd]: "blind (throwA e)"
  by (simp add: blind_def throwA_def)

lemma blind_logA [blnd]: "blind (logA msg)"
  by (simp add: blind_def logA_def sameButLogs_appendLog)

lemma blind_ifA [blnd]: "blindAll as \<Longrightarrow> blind (ifA c as)"
  by (simp add: ifA_def blnd)

lemma blind_if [blnd]: "blind a \<Longrightarrow> blind b \<Longrightarrow> blind (if c then a else b)"
  by simp

lemma blind_tryA [blnd]:
  assumes b: "blindAll body" and h: "\<And>e. blind (handler e)"
  shows "blind (tryA body handler)"
proof -
  have sb: "blind (seqA body)" using b by (rule blind_seqA)
  show ?thesis unfolding blind_def
  proof (intro allI impI)
    fix s t assume st: "sameButLogs s t"
    obtain r s' where r: "seqA body s = (r, s')" by (cases "seqA body s")
    obtain q t' where q: "seqA body t = (q, t')" by (cases "seqA body t")
    from blindD[OF sb st] r q have q': "seqA body t = (r, t')" and st': "sameButLogs s' t'"
      by simp_all
    show "fst (tryA body handler s) = fst (tryA body handler t) \<and>
          sameButLogs (snd (tryA body handler s)) (snd (tryA body handler t))"
    proof (cases r)
      case None
      with r q' st' show ?thesis by (simp add: tryA_def)
    next
      case (Some e)
      with r q' blindD[OF h[of e] st'] show ?thesis by (simp add: tryA_def)
    qed
  qed
qed

lemma blind_spawnA [blnd]: "blind (spawnA cmd args)"
  by (simp add: blind_def spawnA_def sameButLogs_def)

lemma blind_execA [blnd]: "blind (execA outcome cmd)"
  by (simp add: blind_def execA_def sameButLogs_def)

lemma blind_writeFileA [blnd]: "blind (writeFileA path content)"
  by (simp add: blind_def writeFileA_def sameButLogs_def)

lemma blind_writeValueA [blnd]: "blind (writeValueA other path v)"
  by (auto simp: writeValueA_def blnd split: option.splits jsval.splits sum.splits)

lemma blind_convertA [blnd]: "blind (convertA vs)"
  by (simp add: convertA_def blnd)

lemma blind_patchFileA [blnd]: "blind (patchFileA path f)"
  by (simp add: blind_def patchFileA_def sameButLogs_def split: option.splits)

lemma blind_ifExistsA [blnd]:
  assumes "blindAll as" and "blindAll bs"
  shows "blind (ifExistsA path as bs)"
proof -
  have a: "blind (seqA as)" and b: "blind (seqA bs)" using assms by (simp_all add: blnd)
  show ?thesis unfolding blind_def
  proof (intro allI impI)
    fix s t assume st: "sameButLogs s t"
    then have f: "files s = files t" by (simp add: sameButLogs_def)
    show "fst (ifExistsA path as bs s) = fst (ifExistsA path as bs t) \<and>
          sameButLogs (snd (ifExistsA path as bs s)) (snd (ifExistsA path as bs t))"
      using blindD[OF a st] blindD[OF b st] f by (simp add: ifExistsA_def)
  qed
qed

lemma blind_accessA [blnd]: "blind (accessA path)"
  by (simp add: blind_def accessA_def sameButLogs_def)

lemma blind_unlinkA [blnd]: "blind (unlinkA path)"
  by (simp add: blind_def unlinkA_def sameButLogs_def)

lemma blind_pushComposeFileA [blnd]: "blind (pushComposeFileA f)"
  by (simp add: blind_def pushComposeFileA_def sameButLogs_def)

lemma blind_setComposeFilesA [blnd]: "blind (setComposeFilesA fs)"
  by (simp add: blind_def setComposeFilesA_def sameButLogs_def)

lemma blind_withFilesA [blnd]:
  assumes "\<And>fs. blind (f fs)"
  shows "blind (withFilesA f)"
  unfolding blind_def
proof (intro allI impI)
  fix s t assume st: "sameButLogs s t"
  then have c: "composeFiles s = composeFiles t" by (simp add: sameButLogs_def)
  show "fst (withFilesA f s) = fst (withFilesA f t) \<and>
        sameButLogs (snd (withFilesA f s)) (snd (withFilesA f t))"
    using blindD[OF assms[of "composeFiles t"] st] c by (simp add: withFilesA_def)
qed

lemma blind_trackA [blnd]: "blind trackA"
  by (simp add: blind_def trackA_def sameButLogs_def)

lemma blind_listenA [blnd]: "blind (listenA cfg args)"
  by (simp add: blind_def listenA_def sameButLogs_def)

lemma blind_workingCopyA [blnd]: "blind (workingCopyA env)"
  by (simp add: blind_def workingCopyA_def sameButLogs_def)

lemma blind_case_sum [blnd]:
  "(\<And>x. blind (f x)) \<Longrightarrow> (\<And>y. blind (g y)) \<Longrightarrow> blind (case v of Inl x \<Rightarrow> f x | Inr y \<Rightarrow> g y)"
  by (cases v) simp_all

lemma blind_case_prod [blnd]: "(\<And>x y. blind (f x y)) \<Longrightarrow> blind (case p of (x, y) \<Rightarrow> f x y)"
  by (cases p) simp

lemma blind_case_fetch [blnd]:
  "(\<And>e. blind (f e)) \<Longrightarrow> (\<And>n. blind (g n)) \<Longrightarrow> (\<And>b. blind (h b)) \<Longrightarrow>
   blind (case v of FetchThrows e \<Rightarrow> f e | FetchStatus n \<Rightarrow> g n | FetchBody b \<Rightarrow> h b)"
  by (cases v) simp_all

lemma blind_cloneRepositoryA [blnd]: "blind (cloneRepositoryA env)"
  unfolding cloneRepositoryA_def by (intro blnd)

lemma blind_downloadA [blnd]: "blind (downloadA res path name)"
  unfolding downloadA_def by (intro blnd)

lemma blind_dashboardFilesA [blnd]: "blind (dashboardFilesA env cfg)"
  unfolding dashboardFilesA_def by (intro blnd)

lemma blind_patchComposeA [blnd]: "blind (patchComposeA cfg)"
  unfolding patchComposeA_def Let_def by (intro blnd)

lemma blind_writeEnvA [blnd]: "blind (writeEnvA envContent)"
  unfolding writeEnvA_def by (intro blnd)

lemma blind_observerWalletA [blnd]: "blind (observerWalletA env cfg)"
  unfolding observerWalletA_def Let_def by (intro blnd)

lemma blind_dataDirsA [blnd]: "blind (dataDirsA cfg)"
  unfolding dataDirsA_def by (intro blnd)

lemma blind_portLogsA [blnd]: "blind (portLogsA cfg)"
  unfolding portLogsA_def by (intro blnd)

lemma blind_aoEnvA [blnd]: "blind (aoEnvA cfg)"
  unfolding aoEnvA_def by (intro blnd)

lemma blind_bundlerEnvA [blnd]: "blind (bundlerEnvA env cfg)"
  unfolding bundlerEnvA_def Let_def by (intro blnd)

lemma blind_teardownA [blnd]: "blind (teardownA env cfg)"
  unfolding teardownA_def by (intro blnd)

lemma blind_cleanupA [blnd]: "blind (cleanupA env)"
  unfolding cleanupA_def by (intro blnd)

lemma blind_startLogsA [blnd]: "blind (startLogsA cfg)"
  unfolding startLogsA_def by (intro blnd)

lemma blind_startA [blnd]: "blind (startA cfg c)"
  unfolding startA_def by (intro blnd)

section \<open>Repository provisioning\<close>

text \<open>The statements of the \<open>try\<close> block before and after the update of the working copy.\<close>

lemma provisionActions_split:
  "provisionActions env =
     take 5 (provisionActions env) @ [updateRepositoryA env] @ drop 6 (provisionActions env)"
  by (simp add: provisionActions_def)

lemma updateExit_irrelevant:
  "preDerived (env\<lparr>updateExit := x\<rparr>) cfg = preDerived env cfg"
  "prepareActions (env\<lparr>updateExit := x\<rparr>) cfg = prepareActions env cfg"
  "take 5 (provisionActions (env\<lparr>updateExit := x\<rparr>)) = take 5 (provisionActions env)"
  "drop 6 (provisionActions (env\<lparr>updateExit := x\<rparr>)) = drop 6 (provisionActions env)"
  "artifactActions (env\<lparr>updateExit := x\<rparr>) cfg1 envContent = artifactActions env cfg1 envContent"
  "postBundler (env\<lparr>updateExit := x\<rparr>) cfg1 = postBundler env cfg1"
proof -
  have wc: "workingCopyA (env\<lparr>updateExit := x\<rparr>) = workingCopyA env"
    by (rule ext) (simp add: workingCopyA_def)
  have fa: "\<And>c. finalBundlerAddress (env\<lparr>updateExit := x\<rparr>) c = finalBundlerAddress env c"
    by (simp add: finalBundlerAddress_def derivedBundlerAddress_def)
  show "preDerived (env\<lparr>updateExit := x\<rparr>) cfg = preDerived env cfg"
    by (simp add: preDerived_def derivedBundlerAddress_def)
  show "prepareActions (env\<lparr>updateExit := x\<rparr>) cfg = prepareActions env cfg"
    by (simp add: prepareActions_def preDeriveA_def)
  show "take 5 (provisionActions (env\<lparr>updateExit := x\<rparr>)) = take 5 (provisionActions env)"
    by (simp add: provisionActions_def fetchTagsA_def latestTag_def)
  show "drop 6 (provisionActions (env\<lparr>updateExit := x\<rparr>)) = drop 6 (provisionActions env)"
    by (simp add: provisionActions_def cloneRepositoryA_def cloneNeeded_def latestTag_def wc)
  show "artifactActions (env\<lparr>updateExit := x\<rparr>) cfg1 envContent = artifactActions env cfg1 envContent"
    by (simp add: artifactActions_def dashboardFilesA_def bundlerEnvA_def bundlerEnvContent_def
        observerWalletA_def
        fa teardownA_def cleanupA_def)
  show "postBundler (env\<lparr>updateExit := x\<rparr>) cfg1 = postBundler env cfg1"
    by (simp add: postBundler_def fa)
qed

lemma update_never_throws: "fst (updateRepositoryA env s) = None"
  by (simp add: updateRepositoryA_def ifA_def skipA_def logA_def spawnA_def)

lemma update_any_exit:
  "sameButLogs (snd (updateRepositoryA (env\<lparr>updateExit := x\<rparr>) s))
               (snd (updateRepositoryA (env\<lparr>updateExit := y\<rparr>) s))"
  by (simp add: updateRepositoryA_def ifA_def skipA_def logA_def spawnA_def latestTag_def
      sameButLogs_def)

lemma blindAll_after_update:
  "blindAll (drop 6 (provisionActions env) @ artifactActions env cfg1 envContent @ [startA cfg1 c])"
  unfolding provisionActions_def artifactActions_def by simp (intro blnd)

lemma deployActions_shape:
  "deployActions env cfg =
     (case buildEnvFile (preDerived env cfg) of
        Inl e \<Rightarrow> prepareActions env cfg @ [throwA e]
      | Inr envContent \<Rightarrow>
          (prepareActions env cfg @ take 5 (provisionActions env)) @ [updateRepositoryA env] @
          (drop 6 (provisionActions env) @ artifactActions env (preDerived env cfg) envContent @
           [startA (preDerived env cfg) (postBundler env (preDerived env cfg))]))"
  by (simp add: deployActions_def Let_def provisionActions_def split: sum.splits)

lemma try_block_any_exit:
  "fst (seqA (deployActions (env\<lparr>updateExit := x\<rparr>) cfg) s) =
   fst (seqA (deployActions (env\<lparr>updateExit := y\<rparr>) cfg) s)"
proof (cases "buildEnvFile (preDerived env cfg)")
  case (Inl e)
  then show ?thesis by (simp add: deployActions_shape updateExit_irrelevant)
next
  case (Inr envContent)
  define A where "A = prepareActions env cfg @ take 5 (provisionActions env)"
  define B where "B = drop 6 (provisionActions env) @
      artifactActions env (preDerived env cfg) envContent @
      [startA (preDerived env cfg) (postBundler env (preDerived env cfg))]"
  have d: "\<And>z. deployActions (env\<lparr>updateExit := z\<rparr>) cfg =
      A @ [updateRepositoryA (env\<lparr>updateExit := z\<rparr>)] @ B"
    using Inr by (simp add: deployActions_shape updateExit_irrelevant A_def B_def)
  have bB: "blind (seqA B)" unfolding B_def by (intro blind_seqA blindAll_after_update)
  obtain r sA where r: "seqA A s = (r, sA)" by (cases "seqA A s")
  show ?thesis
  proof (cases r)
    case (Some e)
    with r show ?thesis by (simp add: d seqA_append)
  next
    case None
    have run: "\<And>z. seqA (deployActions (env\<lparr>updateExit := z\<rparr>) cfg) s =
        seqA B (snd (updateRepositoryA (env\<lparr>updateExit := z\<rparr>) sA))"
    proof -
      fix z
      obtain u where u: "updateRepositoryA (env\<lparr>updateExit := z\<rparr>) sA = (None, u)"
        using update_never_throws[of "env\<lparr>updateExit := z\<rparr>" sA]
        by (cases "updateRepositoryA (env\<lparr>updateExit := z\<rparr>) sA") auto
      show "seqA (deployActions (env\<lparr>updateExit := z\<rparr>) cfg) s =
        seqA B (snd (updateRepositoryA (env\<lparr>updateExit := z\<rparr>) sA))"
        using r None u by (simp add: d seqA_append)
    qed
    from blindD[OF bB update_any_exit[where env = env and x = x and y = y and s = sA]] run
    show ?thesis by simp
  qed
qed

lemma deploy_any_exit:
  "fst (deploy req (env\<lparr>updateExit := x\<rparr>) s) = fst (deploy req (env\<lparr>updateExit := y\<rparr>) s)"
proof (cases req)
  case None
  then show ?thesis by simp
next
  case (Some cfg)
  obtain r1 s1 where r1: "seqA (deployActions (env\<lparr>updateExit := x\<rparr>) cfg) s = (r1, s1)"
    by (cases "seqA (deployActions (env\<lparr>updateExit := x\<rparr>) cfg) s")
  obtain r2 s2 where r2: "seqA (deployActions (env\<lparr>updateExit := y\<rparr>) cfg) s = (r2, s2)"
    by (cases "seqA (deployActions (env\<lparr>updateExit := y\<rparr>) cfg) s")
  from try_block_any_exit[where env = env and x = x and y = y and cfg = cfg and s = s] r1 r2
  have "r1 = r2" by simp
  with r1 have r1': "seqA (deployActions (env\<lparr>updateExit := x\<rparr>) cfg) s = (r2, s1)"
    by simp
  show ?thesis
  proof (cases r2)
    case None
    with Some r1' r2 show ?thesis by simp
  next
    case (Some e)
    with \<open>req = Some cfg\<close> r1' r2 show ?thesis by simp
  qed
qed

lemma prepare_never_throws: "fst (seqA (prepareActions env cfg) s) = None"
  by (auto simp: prepareActions_def preDeriveA_def ifA_def skipA_def logA_def setCancelledA_def
      split: sum.splits)

lemma logged_appendLog: "logged msg (appendLog msg s)"
  by (simp add: logged_def appendLog_def suffix_def)

lemma logged_prefix:
  "logged msg s \<Longrightarrow> prefix (deploymentLogs s) (deploymentLogs t) \<Longrightarrow> logged msg t"
  by (auto simp: logged_def dest: set_mono_prefix)

lemma update_failure_logged:
  assumes "repoExists env" and "fst (updateExit env) \<noteq> Some 0"
  shows "logged (''Git update failed with code '' @ showCode (fst (updateExit env)) @ '': '' @
                 snd (updateExit env)) (snd (updateRepositoryA env s))"
  using assms
  by (simp add: updateRepositoryA_def ifA_def logA_def spawnA_def logged_def appendLog_def
      suffix_def)


lemma fallback_logged:
  assumes "repoExists env" and "fst (updateExit env) \<noteq> Some 0"
  shows "logged ''Falling back to fresh clone...'' (snd (updateRepositoryA env s))"
  using assms
  by (simp add: updateRepositoryA_def ifA_def logA_def spawnA_def logged_def appendLog_def
      suffix_def)

lemma before_update_runs:
  assumes "tagsFetch env = Inr tb"
  shows "fst (seqA (prepareActions env cfg @ take 5 (provisionActions env)) s) = None"
  using assms
  by (auto simp: prepareActions_def provisionActions_def preDeriveA_def fetchTagsA_def ifA_def
      skipA_def logA_def setCancelledA_def split: sum.splits tags_body.splits)

lemma deploy_logs_from:
  "prefix (deploymentLogs (snd (seqA (deployActions env cfg) s)))
          (deploymentLogs (snd (deploy (Some cfg) env s)))"
  by (cases "seqA (deployActions env cfg) s")
     (auto simp: appendLog_prefix split: option.splits)

lemma grows_after_update:
  "grows (seqA (drop 6 (provisionActions env) @ artifactActions env cfg1 envContent @
                [startA cfg1 c]))"
  unfolding provisionActions_def artifactActions_def by simp (intro grow)

text \<open>The log after the update is kept to the end of the request.\<close>

lemma update_log_kept:
  assumes b: "buildEnvFile (preDerived env cfg) = Inr envContent" and t: "tagsFetch env = Inr tb"
  shows "\<exists>sA. prefix (deploymentLogs (snd (updateRepositoryA env sA)))
                      (deploymentLogs (snd (deploy (Some cfg) env s)))"
proof -
  define A where "A = prepareActions env cfg @ take 5 (provisionActions env)"
  define B where "B = drop 6 (provisionActions env) @
      artifactActions env (preDerived env cfg) envContent @
      [startA (preDerived env cfg) (postBundler env (preDerived env cfg))]"
  have d: "deployActions env cfg = A @ [updateRepositoryA env] @ B"
    using b by (simp add: deployActions_shape A_def B_def)
  obtain sA where sA: "seqA A s = (None, sA)"
    using before_update_runs[OF t, of cfg s] unfolding A_def
    by (cases "seqA (prepareActions env cfg @ take 5 (provisionActions env)) s") auto
  obtain u where u: "updateRepositoryA env sA = (None, u)"
    using update_never_throws[of env sA] by (cases "updateRepositoryA env sA") auto
  have run: "seqA (deployActions env cfg) s = seqA B u"
    using sA u by (simp add: d seqA_append)
  have "prefix (deploymentLogs u) (deploymentLogs (snd (seqA B u)))"
    unfolding B_def by (rule grows_snd[OF grows_after_update])
  with run have "prefix (deploymentLogs u) (deploymentLogs (snd (seqA (deployActions env cfg) s)))"
    by simp
  from this deploy_logs_from[of env cfg s]
  have "prefix (deploymentLogs u) (deploymentLogs (snd (deploy (Some cfg) env s)))"
    by (rule prefix_order.trans)
  with u show ?thesis by (intro exI[of _ sA]) simp
qed

text \<open>A clone that fails throws, and the handler answers 500 with the message.\<close>

lemma clone_failure_throws:
  assumes "cloneNeeded env" and "fst (cloneExit env) \<noteq> Some 0"
  shows "fst (cloneRepositoryA env s) = Some (Error (''Git clone failed: '' @ snd (cloneExit env)))"
  using assms
  by (simp add: cloneRepositoryA_def ifA_def logA_def spawnA_def throwA_def)

lemma clone_failure_response:
  assumes b: "buildEnvFile (preDerived env cfg) = Inr envContent" and t: "tagsFetch env = Inr tb"
    and n: "cloneNeeded env" and c: "fst (cloneExit env) \<noteq> Some 0"
  shows "fst (deploy (Some cfg) env s) =
           Response 500 (ErrorBody (''Git clone failed: '' @ snd (cloneExit env)))"
proof -
  define A where "A = prepareActions env cfg @ take 5 (provisionActions env)"
  define C where "C = drop 7 (provisionActions env) @
      artifactActions env (preDerived env cfg) envContent @
      [startA (preDerived env cfg) (postBundler env (preDerived env cfg))]"
  have d: "deployActions env cfg = A @ [updateRepositoryA env] @ [cloneRepositoryA env] @ C"
    using b by (simp add: deployActions_def Let_def provisionActions_def A_def C_def)
  obtain sA where sA: "seqA A s = (None, sA)"
    using before_update_runs[OF t, of cfg s] unfolding A_def
    by (cases "seqA (prepareActions env cfg @ take 5 (provisionActions env)) s") auto
  obtain u where u: "updateRepositoryA env sA = (None, u)"
    using update_never_throws[of env sA] by (cases "updateRepositoryA env sA") auto
  obtain v where v: "cloneRepositoryA env u =
      (Some (Error (''Git clone failed: '' @ snd (cloneExit env))), v)"
    using clone_failure_throws[OF n c, of u] by (cases "cloneRepositoryA env u") auto
  have "seqA (deployActions env cfg) s =
      (Some (Error (''Git clone failed: '' @ snd (cloneExit env))), v)"
    using sA u v by (simp add: d seqA_append)
  then show ?thesis by simp
qed

lemma sample_env_fields:
  "calmEnv\<lparr>updateExit := (Some 0, [])\<rparr> = calmEnv"
  "updateFailsEnv = calmEnv\<lparr>updateExit := (Some 1, ''error'')\<rparr>"
  "tagsFetch updateFailsEnv = Inr (TagsLatest ''r1'')"
  "repoExists updateFailsEnv" "updateExit updateFailsEnv = (Some 1, ''error'')"
  "cloneNeeded updateFailsEnv = False"
  "tagsFetch cloneFailsEnv = Inr (TagsLatest ''r1'')"
  "repoExists cloneFailsEnv = False"
  "cloneNeeded cloneFailsEnv" "cloneExit cloneFailsEnv = (Some 128, ''fatal'')"
  by (simp_all add: calmEnv_def updateFailsEnv_def cloneFailsEnv_def cloneNeeded_def)

lemma showCode_1: "string_of_nat (Suc 0) = ''1''"
  by code_simp

text \<open>
  Claim C5. Repository provisioning fails asymmetrically. The update of an existing working
  copy never throws, and the response to the request is the same whatever the exit code of
  the update is; when the request gets as far as the update and the update fails, the
  failure and the fallback are in the log at the end of the request. A clone that is needed
  and fails ends the request with the response 500 carrying the message of the clone, and
  the orchestration CLI is not started.
\<close>

theorem provisioning_failure_asymmetry:
  assumes "buildEnvFile (preDerived env cfg) = Inr envContent" and "tagsFetch env = Inr tb"
  shows "fst (updateRepositoryA env s0) = None \<and>
         fst (deploy (Some cfg) (env\<lparr>updateExit := x\<rparr>) s) =
           fst (deploy (Some cfg) (env\<lparr>updateExit := y\<rparr>) s) \<and>
         (repoExists env \<and> fst (updateExit env) \<noteq> Some 0 \<longrightarrow>
            logged (''Git update failed with code '' @ showCode (fst (updateExit env)) @ '': '' @
                    snd (updateExit env)) (snd (deploy (Some cfg) env s)) \<and>
            logged ''Falling back to fresh clone...'' (snd (deploy (Some cfg) env s))) \<and>
         (cloneNeeded env \<and> fst (cloneExit env) \<noteq> Some 0 \<longrightarrow>
            fst (deploy (Some cfg) env s) =
              Response 500 (ErrorBody (''Git clone failed: '' @ snd (cloneExit env))) \<and>
            upCount (snd (deploy (Some cfg) env s)) = upCount s)"
proof (intro conjI impI)
  show "fst (updateRepositoryA env s0) = None" by (rule update_never_throws)
  show "fst (deploy (Some cfg) (env\<lparr>updateExit := x\<rparr>) s) =
        fst (deploy (Some cfg) (env\<lparr>updateExit := y\<rparr>) s)" by (rule deploy_any_exit)
next
  assume f: "repoExists env \<and> fst (updateExit env) \<noteq> Some 0"
  obtain sA where p: "prefix (deploymentLogs (snd (updateRepositoryA env sA)))
                             (deploymentLogs (snd (deploy (Some cfg) env s)))"
    using update_log_kept[OF assms, of s] by blast
  from f show "logged (''Git update failed with code '' @ showCode (fst (updateExit env)) @ '': '' @
                    snd (updateExit env)) (snd (deploy (Some cfg) env s))"
    by (intro logged_prefix[OF update_failure_logged p]) simp_all
  from f show "logged ''Falling back to fresh clone...'' (snd (deploy (Some cfg) env s))"
    by (intro logged_prefix[OF fallback_logged p]) simp_all
next
  assume f: "cloneNeeded env \<and> fst (cloneExit env) \<noteq> Some 0"
  then show r: "fst (deploy (Some cfg) env s) =
      Response 500 (ErrorBody (''Git clone failed: '' @ snd (cloneExit env)))"
    using clone_failure_response[OF assms, of s] by simp
  then have "fst (deploy (Some cfg) env s) \<noteq> Response 200 (StatusBody ''started'')" by simp
  then show "upCount (snd (deploy (Some cfg) env s)) = upCount s"
    using deploy_effect[of "Some cfg" env s] by blast
qed

text \<open>
  Claim C5 at two worlds: one where the working copy exists and its update exits with 1,
  and one with no working copy where the clone exits with 128.
\<close>

theorem provisioning_failure_asymmetry_witness:
  "fst (deploy (Some coreOnlyConfig) updateFailsEnv (initial fixedClock)) =
     Response 200 (StatusBody ''started'') \<and>
   logged ''Git update failed with code 1: error''
     (snd (deploy (Some coreOnlyConfig) updateFailsEnv (initial fixedClock))) \<and>
   fst (deploy (Some coreOnlyConfig) cloneFailsEnv (initial fixedClock)) =
     Response 500 (ErrorBody ''Git clone failed: fatal'') \<and>
   upCount (snd (deploy (Some coreOnlyConfig) cloneFailsEnv (initial fixedClock))) = 0"
proof -
  have b: "\<And>env. buildEnvFile (preDerived env coreOnlyConfig) = Inr ''CORE_PORT=4000''"
    by (simp add: coreOnly_preDerived coreOnly_env)
  note u = provisioning_failure_asymmetry[OF b sample_env_fields(3),
      where s = "initial fixedClock" and x = "(Some 1, ''error'')" and y = "(Some 0, [])"]
  note a = provisioning_failure_asymmetry[OF b calm_fields(1),
      where s = "initial fixedClock" and x = "(Some 1, ''error'')" and y = "(Some 0, [])"]
  note c = provisioning_failure_asymmetry[OF b sample_env_fields(7),
      where s = "initial fixedClock"]
  from a have "fst (deploy (Some coreOnlyConfig) (calmEnv\<lparr>updateExit := (Some 1, ''error'')\<rparr>)
                    (initial fixedClock)) =
                fst (deploy (Some coreOnlyConfig) (calmEnv\<lparr>updateExit := (Some 0, [])\<rparr>)
                    (initial fixedClock))"
    by (rule conjunct2[THEN conjunct1])
  then have "fst (deploy (Some coreOnlyConfig) updateFailsEnv (initial fixedClock)) =
             fst (deploy (Some coreOnlyConfig) calmEnv (initial fixedClock))"
    by (simp only: sample_env_fields(1) sample_env_fields(2)[symmetric])
  then have 1: "fst (deploy (Some coreOnlyConfig) updateFailsEnv (initial fixedClock)) =
     Response 200 (StatusBody ''started'')"
    by (simp only: calm_core_started)
  have 2: "logged ''Git update failed with code 1: error''
     (snd (deploy (Some coreOnlyConfig) updateFailsEnv (initial fixedClock)))"
    using u by (simp add: sample_env_fields(4,5) showCode_1 del: deploy.simps)
  have 3: "fst (deploy (Some coreOnlyConfig) cloneFailsEnv (initial fixedClock)) =
     Response 500 (ErrorBody ''Git clone failed: fatal'')"
    using c by (simp add: sample_env_fields(9,10) del: deploy.simps)
  have 4: "upCount (snd (deploy (Some coreOnlyConfig) cloneFailsEnv (initial fixedClock))) = 0"
    using c by (simp add: sample_env_fields(9,10) upCount_initial del: deploy.simps)
  from 1 2 3 4 show ?thesis by (intro conjI)
qed

section \<open>The manifest patcher applied twice\<close>

lemma hasBinding_suffix: "suffix t s \<Longrightarrow> hasBinding p t \<Longrightarrow> hasBinding p s"
  by (induction s) (auto simp: suffix_Cons)

lemma prefix_skip: "x \<notin> set q \<Longrightarrow> prefix q (a @ x # b) \<longleftrightarrow> prefix q a"
proof (induction a arbitrary: q)
  case Nil
  then show ?case by (cases q) auto
next
  case (Cons c a)
  then show ?case by (cases q) auto
qed

lemma hasBinding_skip:
  "x \<notin> set p \<Longrightarrow> x \<noteq> CHR '':'' \<Longrightarrow> \<not> is_digit x \<Longrightarrow>
   hasBinding p (a @ x # b) \<longleftrightarrow> hasBinding p a \<or> hasBinding p b"
proof (induction a)
  case Nil
  then show ?case by simp
next
  case (Cons c a)
  then have "prefix (CHR '':'' # p) (a @ x # b) \<longleftrightarrow> prefix (CHR '':'' # p) a"
    by (intro prefix_skip) simp
  with Cons show ?case by auto
qed

lemma hasBinding_digit:
  "is_digit d \<Longrightarrow> prefix (CHR '':'' # p) t \<Longrightarrow> hasBinding p (ds @ d # t)"
  by (induction ds) auto

subsection \<open>What a match of a port pattern needs\<close>

lemma ms_Cls_iff:
  "st' \<in> set (ms (Cls P) st) \<longleftrightarrow> (\<exists>c. fst st = c # fst st' \<and> P c \<and> snd st' = snd st)"
  by (cases st; cases st') (auto split: list.splits)

lemma ms_Lit_iff:
  "st' \<in> set (ms (Lit l) st) \<longleftrightarrow> prefix l (fst st) \<and> st' = (drop (length l) (fst st), snd st)"
  by auto

lemma ms_Cat_iff:
  "st' \<in> set (ms (Cat a b) st) \<longleftrightarrow> (\<exists>st1 \<in> set (ms a st). st' \<in> set (ms b st1))"
  by auto

lemma ms_Star_iff:
  "st' \<in> set (ms (Star a) st) \<longleftrightarrow>
     st' = st \<or>
     (\<exists>st1 \<in> set (ms a st). length (fst st1) < length (fst st) \<and> st' \<in> set (ms (Star a) st1))"
  by (subst ms.simps(6)) (auto split: if_splits)

lemma ms_suffix: "st' \<in> set (ms r st) \<Longrightarrow> suffix (fst st') (fst st)"
proof (induction r st arbitrary: st' rule: ms.induct)
  case (1 P st)
  then show ?case by (cases st) (auto split: list.splits if_splits simp: suffix_Cons)
next
  case (2 l st)
  then show ?case by (auto split: if_splits simp: suffix_drop)
next
  case (3 a b st)
  from 3(3) obtain st1 where a: "st1 \<in> set (ms a st)" and b: "st' \<in> set (ms b st1)"
    using ms_Cat_iff by blast
  from 3(1)[OF a] 3(2)[OF a b] show ?case by (rule suffix_order.trans[rotated])
next
  case (4 a b st)
  from 4(3) have "st' \<in> set (ms a st) \<or> st' \<in> set (ms b st)" by auto
  with 4(1)[of st'] 4(2)[of st'] show ?case by blast
next
  case (5 a st)
  from 5(2) have "st' \<in> set (ms a st) \<or> st' = st" by auto
  with 5(1)[of st'] show ?case by blast
next
  case (6 a st)
  from 6(3) consider "st' = st"
    | st1 where "st1 \<in> set (ms a st)" "length (fst st1) < length (fst st)"
        "st' \<in> set (ms (Star a) st1)"
    using ms_Star_iff[of st' a st] by blast
  then show ?case
  proof cases
    case 1
    then show ?thesis by simp
  next
    case (2 st1)
    from 6(1)[OF 2(1)] 6(2)[OF 2(1) 2(2) 2(3)] show ?thesis
      by (rule suffix_order.trans[rotated])
  qed
next
  case (7 n a st)
  from 7(2) obtain st1 where "st1 \<in> set (ms a st)" "fst st' = fst st1" by auto
  with 7(1)[of st1] show ?case by simp
qed

lemma ms_star_cls:
  "st' \<in> set (ms (Star (Cls P)) st) \<Longrightarrow> \<exists>ds. fst st = ds @ fst st' \<and> (\<forall>c \<in> set ds. P c)"
proof (induction "length (fst st)" arbitrary: st rule: less_induct)
  case less
  from less(2) consider "st' = st"
    | st1 where "st1 \<in> set (ms (Cls P) st)" "length (fst st1) < length (fst st)"
        "st' \<in> set (ms (Star (Cls P)) st1)"
    using ms_Star_iff[of st' "Cls P" st] by blast
  then show ?case
  proof cases
    case 1
    then show ?thesis by simp
  next
    case (2 st1)
    from 2(1) obtain c where c: "fst st = c # fst st1" "P c"
      using ms_Cls_iff[of st1 P st] by blast
    from less(1)[OF 2(2) 2(3)] obtain ds where "fst st1 = ds @ fst st'" "\<forall>c \<in> set ds. P c"
      by blast
    with c have "fst st = (c # ds) @ fst st' \<and> (\<forall>c \<in> set (c # ds). P c)" by simp
    then show ?thesis by blast
  qed
qed

lemma binding_core:
  assumes "st' \<in> set (ms (Cat (Plus (Cls is_digit)) (Cat (Lit (CHR '':'' # p)) c)) st)"
  shows "hasBinding p (fst st) \<and> length (fst st') < length (fst st)"
proof -
  from assms obtain st1 where
    pl: "st1 \<in> set (ms (Cat (Cls is_digit) (Star (Cls is_digit))) st)" and
    tl: "st' \<in> set (ms (Cat (Lit (CHR '':'' # p)) c) st1)"
    unfolding Plus_def using ms_Cat_iff by blast
  from pl obtain st0 where
    st0: "st0 \<in> set (ms (Cls is_digit) st)" and
    st1: "st1 \<in> set (ms (Star (Cls is_digit)) st0)"
    using ms_Cat_iff by blast
  from tl obtain st2 where
    st2: "st2 \<in> set (ms (Lit (CHR '':'' # p)) st1)" and
    st': "st' \<in> set (ms c st2)"
    using ms_Cat_iff by blast
  from st0 obtain d where d: "fst st = d # fst st0" "is_digit d"
    using ms_Cls_iff[of st0 is_digit st] by blast
  from ms_star_cls[OF st1] obtain ds where ds: "fst st0 = ds @ fst st1" "\<forall>c \<in> set ds. is_digit c"
    by blast
  from st2 have p: "prefix (CHR '':'' # p) (fst st1)" using ms_Lit_iff by blast
  have "d # ds \<noteq> []" by simp
  then obtain es e where es: "d # ds = es @ [e]" by (cases "d # ds" rule: rev_cases) auto
  have "e \<in> set (es @ [e])" by simp
  then have "e \<in> set (d # ds)" by (simp only: es)
  with d ds have e: "is_digit e" by auto
  from d ds es have "fst st = es @ e # fst st1" by simp
  with hasBinding_digit[OF e p] have h: "hasBinding p (fst st)" by simp
  from suffix_length_le[OF ms_suffix[OF st2]] suffix_length_le[OF ms_suffix[OF st']]
  have "length (fst st') \<le> length (fst st1)" by simp
  with d ds have "length (fst st') < length (fst st)" by simp
  with h show ?thesis by simp
qed

lemma binding_Cat:
  assumes b: "\<And>st st'. st' \<in> set (ms b st) \<Longrightarrow>
                hasBinding p (fst st) \<and> length (fst st') < length (fst st)"
    and m: "st' \<in> set (ms (Cat a b) st)"
  shows "hasBinding p (fst st) \<and> length (fst st') < length (fst st)"
proof -
  from m obtain st1 where a: "st1 \<in> set (ms a st)" and s: "st' \<in> set (ms b st1)"
    using ms_Cat_iff by blast
  from ms_suffix[OF a] have suf: "suffix (fst st1) (fst st)" .
  from b[OF s] hasBinding_suffix[OF suf] suffix_length_le[OF suf] show ?thesis by simp
qed

lemma portBinding_match:
  assumes "st' \<in> set (ms (portBinding p) st)"
  shows "hasBinding p (fst st) \<and> length (fst st') < length (fst st)"
proof (rule binding_Cat)
  show "st' \<in> set (ms (Cat (Opt (Cls is_quote))
          (Cat (Plus (Cls is_digit)) (Cat (Lit (CHR '':'' # p)) (Opt (Cls is_quote))))) st)"
    using assms by (simp only: portBinding_def seq.simps)
qed (rule binding_core)

lemma portsBlock_match:
  assumes "st' \<in> set (ms (portsBlock p) st)"
  shows "hasBinding p (fst st) \<and> length (fst st') < length (fst st)"
  apply (rule binding_Cat[OF _ assms[unfolded portsBlock_def seq.simps]])
  apply (erule binding_Cat[rotated])
  apply (erule binding_Cat[rotated])
  apply (erule binding_Cat[rotated])
  apply (erule binding_Cat[rotated])
  apply (erule binding_Cat[rotated])
  apply (erule binding_Cat[rotated])
  apply (erule binding_core)
  done

subsection \<open>One attempt of the matcher\<close>

lemma exec_Some:
  assumes m: "\<And>st st'. st' \<in> set (ms r st) \<Longrightarrow>
                hasBinding p (fst st) \<and> length (fst st') < length (fst st)"
    and e: "exec r s = Some (n, caps)"
  shows "hasBinding p s \<and> 0 < n \<and> n \<le> length s"
proof -
  from e obtain st rest where l: "ms r (s, []) = st # rest" and n: "n = length s - length (fst st)"
    by (auto simp: exec_def split: list.splits)
  from l have "st \<in> set (ms r (s, []))" by simp
  from m[OF this] n show ?thesis by simp
qed

lemma exec_None_iff: "exec r s = None \<longleftrightarrow> ms r (s, []) = []"
  by (simp add: exec_def split: list.splits)

lemma digit_not_quote: "is_digit c \<Longrightarrow> \<not> is_quote c"
  by (auto simp: is_digit_def is_quote_def)

lemma ms_Star_refl: "st \<in> set (ms (Star a) st)"
  using ms_Star_iff[of st a st] by simp

lemma portBinding_fires:
  assumes d: "is_digit c" and p: "prefix (CHR '':'' # p) t"
  shows "exec (portBinding p) (c # t) \<noteq> None"
proof -
  let ?end = "(drop (length (CHR '':'' # p)) t, [])"
  have 1: "(c # t, []) \<in> set (ms (Opt (Cls is_quote)) (c # t, []))" by simp
  have 2: "(t, []) \<in> set (ms (Cls is_digit) (c # t, []))" using d by simp
  have 3: "(t, []) \<in> set (ms (Star (Cls is_digit)) (t, []))" by (rule ms_Star_refl)
  have 4: "?end \<in> set (ms (Lit (CHR '':'' # p)) (t, []))" using p by simp
  have 5: "?end \<in> set (ms (Opt (Cls is_quote)) ?end)" by simp
  from 4 5 have 6: "?end \<in> set (ms (Cat (Lit (CHR '':'' # p)) (Opt (Cls is_quote))) (t, []))"
    using ms_Cat_iff by blast
  from 2 3 have 7: "(t, []) \<in> set (ms (Plus (Cls is_digit)) (c # t, []))"
    unfolding Plus_def using ms_Cat_iff by blast
  from 7 6 have 8: "?end \<in> set (ms (Cat (Plus (Cls is_digit))
      (Cat (Lit (CHR '':'' # p)) (Opt (Cls is_quote)))) (c # t, []))"
    using ms_Cat_iff by blast
  from 1 8 have "?end \<in> set (ms (portBinding p) (c # t, []))"
    unfolding portBinding_def seq.simps using ms_Cat_iff by blast
  then have "ms (portBinding p) (c # t, []) \<noteq> []" by auto
  then show ?thesis by (simp add: exec_None_iff)
qed

subsection \<open>A pass over a text\<close>

text \<open>A pass over a text without a binding for its port changes nothing.\<close>

lemma scan_id:
  assumes m: "\<And>st st'. st' \<in> set (ms r st) \<Longrightarrow>
                hasBinding p (fst st) \<and> length (fst st') < length (fst st)"
  shows "\<not> hasBinding p s \<Longrightarrow> scan r tmpl pre s = s"
proof (induction s arbitrary: pre)
  case Nil
  have "exec r [] = None"
  proof (cases "exec r []")
    case (Some a)
    with exec_Some[OF m, where s = "[]" and n = "fst a" and caps = "snd a"] show ?thesis by simp
  qed simp
  then show ?case by (subst scan.simps) simp
next
  case (Cons c t)
  have "exec r (c # t) = None"
  proof (cases "exec r (c # t)")
    case (Some a)
    with exec_Some[OF m, where s = "c # t" and n = "fst a" and caps = "snd a"] Cons(2) show ?thesis by simp
  qed simp
  moreover from Cons(2) have "\<not> hasBinding p t" by simp
  ultimately show ?case using Cons(1) by (subst scan.simps) simp
qed

text \<open>
  What a pass puts in begins with a double quote, so a text without one that begins the
  result begins the input.
\<close>

lemma scan_prefix:
  assumes m: "\<And>st st'. st' \<in> set (ms r st) \<Longrightarrow>
                hasBinding p (fst st) \<and> length (fst st') < length (fst st)"
    and rep: "\<And>mi. expand mi tmpl = CHR 0x22 # rest"
  shows "CHR 0x22 \<notin> set q \<Longrightarrow> prefix q (scan r tmpl pre s) \<Longrightarrow> prefix q s"
proof (induction q arbitrary: pre s)
  case Nil
  then show ?case by simp
next
  case (Cons x q)
  show ?case
  proof (cases "exec r s")
    case None
    show ?thesis
    proof (cases s)
      case Nil
      with None Cons(3) show ?thesis by (subst (asm) scan.simps) simp
    next
      case (Cons c t)
      with None \<open>prefix (x # q) (scan r tmpl pre s)\<close>
      have "x = c \<and> prefix q (scan r tmpl (pre @ [c]) t)"
        by (subst (asm) scan.simps) simp
      with Cons.IH[of "pre @ [c]" t] \<open>CHR 0x22 \<notin> set (x # q)\<close> Cons show ?thesis by simp
    qed
  next
    case (Some a)
    with exec_Some[OF m, where s = s and n = "fst a" and caps = "snd a"] have n: "0 < fst a" by simp
    from Some n Cons(3) rep have "x = CHR 0x22"
      by (subst (asm) scan.simps) (cases a, simp)
    with Cons(2) show ?thesis by simp
  qed
qed

text \<open>A text put in between double quotes adds no binding when it has none.\<close>

lemma quote_facts: "CHR 0x22 \<noteq> CHR '':''" "\<not> is_digit (CHR 0x22)"
  by (simp_all add: is_digit_def)

lemma hasBinding_quoted:
  assumes "CHR 0x22 \<notin> set p" and "\<not> hasBinding p mid"
  shows "hasBinding p (CHR 0x22 # mid @ CHR 0x22 # rest) \<longleftrightarrow> hasBinding p rest"
  using assms hasBinding_skip[of "CHR 0x22" p mid rest] by (simp add: quote_facts)

text \<open>A pass adds no binding for any port.\<close>

lemma scan_keeps:
  assumes m: "\<And>st st'. st' \<in> set (ms r st) \<Longrightarrow>
                hasBinding p (fst st) \<and> length (fst st') < length (fst st)"
    and rep: "\<And>mi. expand mi tmpl = CHR 0x22 # mid @ [CHR 0x22]"
    and q: "CHR 0x22 \<notin> set p'" and mid: "\<not> hasBinding p' mid"
  shows "hasBinding p' (scan r tmpl pre s) \<Longrightarrow> hasBinding p' s"
proof (induction "length s" arbitrary: s pre rule: less_induct)
  case less
  show ?case
  proof (cases "exec r s")
    case None
    show ?thesis
    proof (cases s)
      case Nil
      with None less.prems show ?thesis by (subst (asm) scan.simps) simp
    next
      case (Cons c t)
      with None less.prems
      have h: "(is_digit c \<and> prefix (CHR '':'' # p') (scan r tmpl (pre @ [c]) t)) \<or>
               hasBinding p' (scan r tmpl (pre @ [c]) t)"
        by (subst (asm) scan.simps) simp
      have pq: "CHR 0x22 \<notin> set (CHR '':'' # p')" using q by simp
      have rep': "\<And>mi. expand mi tmpl = CHR 0x22 # (mid @ [CHR 0x22])" using rep by simp
      from h show ?thesis
      proof
        assume "is_digit c \<and> prefix (CHR '':'' # p') (scan r tmpl (pre @ [c]) t)"
        with scan_prefix[OF m rep' pq, where pre = "pre @ [c]" and s = t] Cons show ?thesis by simp
      next
        assume "hasBinding p' (scan r tmpl (pre @ [c]) t)"
        with less.hyps[of t "pre @ [c]"] Cons show ?thesis by simp
      qed
    qed
  next
    case (Some a)
    obtain n caps where a: "a = (n, caps)" by (cases a)
    from exec_Some[OF m, where s = s and n = n and caps = caps] Some a
    have n: "0 < n" "n \<le> length s" by simp_all
    from Some a n less.prems rep
    have "hasBinding p' (CHR 0x22 # mid @ CHR 0x22 # scan r tmpl (pre @ take n s) (drop n s))"
      by (subst (asm) scan.simps) simp
    with hasBinding_quoted[OF q mid] have "hasBinding p' (scan r tmpl (pre @ take n s) (drop n s))"
      by simp
    moreover from n have "length (drop n s) < length s" by simp
    ultimately have "hasBinding p' (drop n s)" using less.hyps[of "drop n s" "pre @ take n s"] by simp
    then show ?thesis by (rule hasBinding_suffix[OF suffix_drop])
  qed
qed

text \<open>The pass for a port leaves no binding for that port.\<close>

lemma scan_kills:
  assumes rep: "\<And>mi. expand mi tmpl = CHR 0x22 # mid @ [CHR 0x22]"
    and q: "CHR 0x22 \<notin> set p" and mid: "\<not> hasBinding p mid"
  shows "\<not> hasBinding p (scan (portBinding p) tmpl pre s)"
proof (induction "length s" arbitrary: s pre rule: less_induct)
  case less
  have m: "\<And>st st'. st' \<in> set (ms (portBinding p) st) \<Longrightarrow>
              hasBinding p (fst st) \<and> length (fst st') < length (fst st)"
    by (rule portBinding_match)
  show ?case
  proof (cases "exec (portBinding p) s")
    case None
    show ?thesis
    proof (cases s)
      case Nil
      with None show ?thesis by (subst scan.simps) simp
    next
      case (Cons c t)
      have pq: "CHR 0x22 \<notin> set (CHR '':'' # p)" using q by simp
      have rep': "\<And>mi. expand mi tmpl = CHR 0x22 # (mid @ [CHR 0x22])" using rep by simp
      have 1: "\<not> hasBinding p (scan (portBinding p) tmpl (pre @ [c]) t)"
        using less.hyps[of t "pre @ [c]"] Cons by simp
      have 2: "\<not> (is_digit c \<and> prefix (CHR '':'' # p) (scan (portBinding p) tmpl (pre @ [c]) t))"
      proof
        assume a: "is_digit c \<and> prefix (CHR '':'' # p) (scan (portBinding p) tmpl (pre @ [c]) t)"
        with scan_prefix[OF m rep' pq, where pre = "pre @ [c]" and s = t] have "prefix (CHR '':'' # p) t" by simp
        with a portBinding_fires[of c p t] None Cons show False by simp
      qed
      from None Cons 1 2 show ?thesis by (subst scan.simps) simp
    qed
  next
    case (Some a)
    obtain n caps where a: "a = (n, caps)" by (cases a)
    from exec_Some[OF m, where s = s and n = n and caps = caps] Some a
    have n: "0 < n" "n \<le> length s" by simp_all
    from n have "length (drop n s) < length s" by simp
    then have "\<not> hasBinding p (scan (portBinding p) tmpl (pre @ take n s) (drop n s))"
      by (rule less.hyps)
    with hasBinding_quoted[OF q mid]
    have "\<not> hasBinding p (CHR 0x22 # mid @ CHR 0x22 #
            scan (portBinding p) tmpl (pre @ take n s) (drop n s))" by simp
    with Some a n rep show ?thesis by (subst scan.simps) simp
  qed
qed

subsection \<open>The twelve passes\<close>

lemma port_quote: "(v, p) \<in> set portVars \<Longrightarrow> CHR 0x22 \<notin> set p"
  by (auto simp: portVars_def)

lemma binding_template:
  "(v, p) \<in> set portVars \<Longrightarrow>
   expand mi (bindingText v p) = CHR 0x22 # (''${'' @ v @ '':-'' @ p @ ''}:'' @ p) @ [CHR 0x22]"
  by (auto simp: portVars_def bindingText_def is_digit_def)

lemma binding_clean:
  "\<forall>(v, p) \<in> set portVars. \<forall>(v', p') \<in> set portVars.
     \<not> hasBinding p' (''${'' @ v @ '':-'' @ p @ ''}:'' @ p)"
  by code_simp

lemma mid_clean:
  assumes "(v, p) \<in> set portVars" and "(v', p') \<in> set portVars"
  shows "\<not> hasBinding p' (''${'' @ v @ '':-'' @ p @ ''}:'' @ p)"
  using binding_clean assms by blast

lemma pass_kills:
  assumes "(v, p) \<in> set portVars"
  shows "\<not> hasBinding p (replaceAll (portBinding p) (bindingText v p) s)"
  unfolding replaceAll_def
  by (rule scan_kills[OF binding_template[OF assms] port_quote[OF assms] mid_clean[OF assms assms]])

lemma pass_keeps:
  assumes vp: "(v, p) \<in> set portVars" and vp': "(v', p') \<in> set portVars"
    and c: "\<not> hasBinding p' s"
  shows "\<not> hasBinding p' (replaceAll (portBinding p) (bindingText v p) s)"
proof
  assume h: "hasBinding p' (replaceAll (portBinding p) (bindingText v p) s)"
  have "hasBinding p' (scan (portBinding p) (bindingText v p) [] s) \<Longrightarrow> hasBinding p' s"
    apply (rule scan_keeps[where r = "portBinding p" and p = p and tmpl = "bindingText v p"
          and mid = "''${'' @ v @ '':-'' @ p @ ''}:'' @ p" and pre = "[]"])
        apply (erule portBinding_match)
       apply (rule binding_template[OF vp])
      apply (rule port_quote[OF vp'])
     apply (rule mid_clean[OF vp vp'])
    apply assumption
    done
  with h c show False by (simp add: replaceAll_def)
qed

lemma portRules_eq: "portRules = map blockRule portVars @ map bindingRule portVars"
  by (simp add: portRules_def portVars_def blockRule_def bindingRule_def)

lemma applyRules_append: "applyRules (rs @ rs') s = applyRules rs' (applyRules rs s)"
  by (simp add: applyRules_def)

lemma applyRules_Cons: "applyRules (r # rs) s = applyRules rs (replaceAll (fst r) (snd r) s)"
  by (simp add: applyRules_def)

text \<open>Behind the passes for single bindings there is no binding for the ports passed.\<close>

lemma bindings_clean:
  assumes "set vps \<subseteq> set portVars" and "set done \<subseteq> set portVars"
    and "\<forall>vp \<in> set done. \<not> hasBinding (snd vp) s"
  shows "\<forall>vp \<in> set done \<union> set vps. \<not> hasBinding (snd vp) (applyRules (map bindingRule vps) s)"
  using assms
proof (induction vps arbitrary: s "done")
  case Nil
  then show ?case by (simp add: applyRules_def)
next
  case (Cons vp vps)
  obtain v p where vp: "vp = (v, p)" by (cases vp)
  let ?s = "replaceAll (portBinding p) (bindingText v p) s"
  from Cons.prems(1) vp have in_vars: "(v, p) \<in> set portVars" by simp
  have 1: "set vps \<subseteq> set portVars" using Cons.prems(1) by simp
  have 2: "set (vp # done) \<subseteq> set portVars" using Cons.prems(1,2) by simp
  have 3: "\<forall>vp' \<in> set (vp # done). \<not> hasBinding (snd vp') ?s"
  proof
    fix vp' assume a: "vp' \<in> set (vp # done)"
    show "\<not> hasBinding (snd vp') ?s"
    proof (cases "vp' = vp")
      case True
      with vp pass_kills[OF in_vars, of s] show ?thesis by simp
    next
      case False
      with a have d: "vp' \<in> set done" by simp
      obtain v' p' where vp': "vp' = (v', p')" by (cases vp')
      from d Cons.prems(2) vp' have "(v', p') \<in> set portVars" by auto
      moreover from d Cons.prems(3) vp' have "\<not> hasBinding p' s" by auto
      ultimately show ?thesis using pass_keeps[OF in_vars, of v' p' s] vp' by simp
    qed
  qed
  from Cons.IH[OF 1 2 3]
  have "\<forall>vp' \<in> set (vp # done) \<union> set vps. \<not> hasBinding (snd vp') (applyRules (map bindingRule vps) ?s)" .
  moreover have "applyRules (map bindingRule (vp # vps)) s = applyRules (map bindingRule vps) ?s"
    by (simp add: applyRules_Cons bindingRule_def vp)
  ultimately show ?case by auto
qed

text \<open>What \<open>fixPortMappings\<close> returns has no binding for any of the six ports.\<close>

lemma fixPortMappings_clean:
  "\<forall>vp \<in> set portVars. \<not> hasBinding (snd vp) (fixPortMappings s)"
  using bindings_clean[of portVars "[]" "applyRules (map blockRule portVars) s"]
  by (simp add: fixPortMappings_def portRules_eq applyRules_append)

text \<open>On a text without such a binding every pass changes nothing.\<close>

lemma rules_id:
  assumes "\<forall>vp \<in> set vps. replaceAll (fst (f vp)) (snd (f vp)) s = s"
  shows "applyRules (map f vps) s = s"
  using assms by (induction vps) (simp_all add: applyRules_def)

lemma clean_fixed:
  assumes "\<forall>vp \<in> set portVars. \<not> hasBinding (snd vp) s"
  shows "fixPortMappings s = s"
proof -
  have b: "\<forall>vp \<in> set portVars. replaceAll (fst (blockRule vp)) (snd (blockRule vp)) s = s"
  proof
    fix vp assume "vp \<in> set portVars"
    with assms have c: "\<not> hasBinding (snd vp) s" by simp
    have m: "\<And>st st'. st' \<in> set (ms (portsBlock (snd vp)) st) \<Longrightarrow>
              hasBinding (snd vp) (fst st) \<and> length (fst st') < length (fst st)"
      by (rule portsBlock_match)
    show "replaceAll (fst (blockRule vp)) (snd (blockRule vp)) s = s"
      unfolding replaceAll_def blockRule_def fst_conv snd_conv by (rule scan_id[OF m c])
  qed
  have s: "\<forall>vp \<in> set portVars. replaceAll (fst (bindingRule vp)) (snd (bindingRule vp)) s = s"
  proof
    fix vp assume "vp \<in> set portVars"
    with assms have c: "\<not> hasBinding (snd vp) s" by simp
    have m: "\<And>st st'. st' \<in> set (ms (portBinding (snd vp)) st) \<Longrightarrow>
              hasBinding (snd vp) (fst st) \<and> length (fst st') < length (fst st)"
      by (rule portBinding_match)
    show "replaceAll (fst (bindingRule vp)) (snd (bindingRule vp)) s = s"
      unfolding replaceAll_def bindingRule_def fst_conv snd_conv by (rule scan_id[OF m c])
  qed
  show ?thesis
    by (simp add: fixPortMappings_def portRules_eq applyRules_append rules_id[OF b] rules_id[OF s])
qed

lemma bindingText_clean:
  assumes "(v, p) \<in> set portVars"
  shows "\<forall>vp \<in> set portVars. \<not> hasBinding (snd vp) (bindingText v p)"
proof
  fix vp assume a: "vp \<in> set portVars"
  obtain v' p' where vp: "vp = (v', p')" by (cases vp)
  have "bindingText v p = CHR 0x22 # (''${'' @ v @ '':-'' @ p @ ''}:'' @ p) @ CHR 0x22 # []"
    by (simp add: bindingText_def)
  moreover have "\<not> hasBinding p' (CHR 0x22 # (''${'' @ v @ '':-'' @ p @ ''}:'' @ p) @ CHR 0x22 # [])"
  proof -
    from a vp have in_vars: "(v', p') \<in> set portVars" by simp
    show ?thesis
      using hasBinding_quoted[OF port_quote[OF in_vars] mid_clean[OF assms in_vars], where rest = "[]"]
      by simp
  qed
  ultimately show "\<not> hasBinding (snd vp) (bindingText v p)" using vp by simp
qed

lemma unbound_output: "unbound (fixPortMappings s)"
  unfolding unbound_def by (rule fixPortMappings_clean)

lemma unbound_fixed: "unbound s \<Longrightarrow> fixPortMappings s = s"
  unfolding unbound_def by (rule clean_fixed)

lemma unbound_rule:
  assumes u: "unbound s" and r: "rule \<in> set portRules"
  shows "replaceAll (fst rule) (snd rule) s = s"
proof -
  from r consider vp where "vp \<in> set portVars" "rule = blockRule vp"
    | vp where "vp \<in> set portVars" "rule = bindingRule vp"
    by (auto simp: portRules_eq)
  then show ?thesis
  proof cases
    case 1
    with u have c: "\<not> hasBinding (snd vp) s" by (simp add: unbound_def)
    have "scan (portsBlock (snd vp)) (blockText (fst vp) (snd vp)) [] s = s"
      apply (rule scan_id[where p = "snd vp"])
       apply (erule portsBlock_match)
      apply (rule c)
      done
    with 1 show ?thesis by (simp add: replaceAll_def blockRule_def)
  next
    case 2
    with u have c: "\<not> hasBinding (snd vp) s" by (simp add: unbound_def)
    have "scan (portBinding (snd vp)) (bindingText (fst vp) (snd vp)) [] s = s"
      apply (rule scan_id[where p = "snd vp"])
       apply (erule portBinding_match)
      apply (rule c)
      done
    with 2 show ?thesis by (simp add: replaceAll_def bindingRule_def)
  qed
qed

lemma unbound_around:
  assumes vp: "(v, p) \<in> set portVars" and a: "unbound pre" and b: "unbound post"
  shows "unbound (pre @ bindingText v p @ post)"
  unfolding unbound_def
proof
  fix vp' assume m: "vp' \<in> set portVars"
  obtain v' p' where vp': "vp' = (v', p')" by (cases vp')
  from m vp' have in_vars: "(v', p') \<in> set portVars" by simp
  from a m vp' have a': "\<not> hasBinding p' pre" by (auto simp: unbound_def)
  from b m vp' have b': "\<not> hasBinding p' post" by (auto simp: unbound_def)
  have q: "CHR 0x22 \<notin> set p'" by (rule port_quote[OF in_vars])
  have e: "pre @ bindingText v p @ post =
           pre @ CHR 0x22 # ((''${'' @ v @ '':-'' @ p @ ''}:'' @ p) @ CHR 0x22 # post)"
    by (simp add: bindingText_def)
  have 1: "hasBinding p' ((''${'' @ v @ '':-'' @ p @ ''}:'' @ p) @ CHR 0x22 # post)
           = (hasBinding p' (''${'' @ v @ '':-'' @ p @ ''}:'' @ p) \<or> hasBinding p' post)"
    using hasBinding_skip[of "CHR 0x22" p' "''${'' @ v @ '':-'' @ p @ ''}:'' @ p" post] q
    by (simp add: quote_facts)
  have 2: "hasBinding p' (pre @ CHR 0x22 # ((''${'' @ v @ '':-'' @ p @ ''}:'' @ p) @ CHR 0x22 # post))
           = (hasBinding p' pre \<or>
              hasBinding p' ((''${'' @ v @ '':-'' @ p @ ''}:'' @ p) @ CHR 0x22 # post))"
    using hasBinding_skip[of "CHR 0x22" p' pre
            "(''${'' @ v @ '':-'' @ p @ ''}:'' @ p) @ CHR 0x22 # post"] q
    by (simp add: quote_facts)
  from mid_clean[OF vp in_vars] a' b' 1 2 e vp'
  show "\<not> hasBinding (snd vp') (pre @ bindingText v p @ post)" by simp
qed

text \<open>
  Claim C3, for the port rewrite. For every text, \<open>fixPortMappings\<close> applied twice gives
  what it gives applied once; none of its twelve replacements changes its output; a
  substituted binding such as \<open>"${ENVOY_PORT:-3000}:3000"\<close> is returned as it is, alone and
  between any two texts in which no digit is followed by a colon and one of the six ports.
\<close>

theorem port_rewrite_is_idempotent:
  "fixPortMappings (fixPortMappings s) = fixPortMappings s \<and>
   (\<forall>rule \<in> set portRules.
      replaceAll (fst rule) (snd rule) (fixPortMappings s) = fixPortMappings s) \<and>
   (\<forall>(v, p) \<in> set portVars.
      fixPortMappings (bindingText v p) = bindingText v p \<and>
      (unbound pre \<and> unbound post \<longrightarrow>
         fixPortMappings (pre @ bindingText v p @ post) = pre @ bindingText v p @ post))"
proof (intro conjI ballI)
  show "fixPortMappings (fixPortMappings s) = fixPortMappings s"
    by (rule unbound_fixed[OF unbound_output])
next
  fix rule assume "rule \<in> set portRules"
  then show "replaceAll (fst rule) (snd rule) (fixPortMappings s) = fixPortMappings s"
    by (rule unbound_rule[OF unbound_output])
next
  fix vp assume m: "vp \<in> set portVars"
  obtain v p where vp: "vp = (v, p)" by (cases vp)
  from m vp have in_vars: "(v, p) \<in> set portVars" by simp
  have e: "unbound []" by (simp add: unbound_def)
  have 1: "fixPortMappings (bindingText v p) = bindingText v p"
    using unbound_fixed[OF unbound_around[OF in_vars e e]] by simp
  have 2: "unbound pre \<and> unbound post \<longrightarrow>
           fixPortMappings (pre @ bindingText v p @ post) = pre @ bindingText v p @ post"
    using unbound_fixed[OF unbound_around[OF in_vars]] by blast
  from 1 2 vp
  show "case vp of (v, p) \<Rightarrow>
          fixPortMappings (bindingText v p) = bindingText v p \<and>
          (unbound pre \<and> unbound post \<longrightarrow>
             fixPortMappings (pre @ bindingText v p @ post) = pre @ bindingText v p @ post)"
    by simp
qed

text \<open>
  Claim C3, for the Grafana fixes. The mount line is removed by a \<open>replace\<close> with a string
  pattern, which takes away its first occurrence alone: of the two mount lines of
  \<open>twoMounts\<close> the first application leaves one, which the second application removes, so
  the text patched twice is not the text patched once, although the port rewrite leaves
  that text as it is. The two other fixes can be applied a second time as well: the
  replacement of the external network ends before a second \<open>external: true\<close>, which the
  next application joins to it, and of two \<open>volumes:\<close> keys before a section the first
  application removes one and the second the other.
\<close>

theorem grafana_fix_twice_differs:
  "fixGrafanaCompose twoMounts =
     joinNL [''services:'', ''  prometheus:'', prometheusMount, ''    command: run''] \<and>
   fixGrafanaCompose (fixGrafanaCompose twoMounts) =
     joinNL [''services:'', ''  prometheus:'', [], ''    command: run''] \<and>
   fixGrafanaCompose (fixGrafanaCompose twoMounts) \<noteq> fixGrafanaCompose twoMounts \<and>
   fixPortMappings twoMounts = twoMounts \<and>
   fixGrafanaCompose twoExternals =
     joinNL [''networks:'', ''  ar-io-network:'', ''    external: true''] \<and>
   fixGrafanaCompose (fixGrafanaCompose twoExternals) =
     joinNL [''networks:'', ''  ar-io-network:''] \<and>
   fixGrafanaCompose twoVolumes = joinNL [[], ''    volumes:'', ''networks:''] \<and>
   fixGrafanaCompose (fixGrafanaCompose twoVolumes) = joinNL [[], ''networks:'']"
proof -
  have a: "fixGrafanaCompose twoMounts =
             joinNL [''services:'', ''  prometheus:'', prometheusMount, ''    command: run'']"
    by code_simp
  have b: "fixGrafanaCompose
             (joinNL [''services:'', ''  prometheus:'', prometheusMount, ''    command: run'']) =
           joinNL [''services:'', ''  prometheus:'', [], ''    command: run'']"
    by code_simp
  have c: "joinNL [''services:'', ''  prometheus:'', [], ''    command: run''] \<noteq>
           joinNL [''services:'', ''  prometheus:'', prometheusMount, ''    command: run'']"
    by code_simp
  have u: "unbound twoMounts" by code_simp
  have d: "fixPortMappings twoMounts = twoMounts" by (rule unbound_fixed[OF u])
  have e: "fixGrafanaCompose twoExternals =
             joinNL [''networks:'', ''  ar-io-network:'', ''    external: true'']"
    by code_simp
  have f: "fixGrafanaCompose (joinNL [''networks:'', ''  ar-io-network:'', ''    external: true'']) =
             joinNL [''networks:'', ''  ar-io-network:'']"
    by code_simp
  have g: "fixGrafanaCompose twoVolumes = joinNL [[], ''    volumes:'', ''networks:'']"
    by code_simp
  have h: "fixGrafanaCompose (joinNL [[], ''    volumes:'', ''networks:'']) =
             joinNL [[], ''networks:'']"
    by code_simp
  from a b c d e f g h show ?thesis by (simp only: simp_thms)
qed

text \<open>
  The port rewrite on a manifest with a plain binding, and on a line with a substituted
  binding: the plain one is substituted, the substituted one stays, and a second
  application returns the same text.
\<close>

theorem port_rewrite_is_idempotent_witness:
  "(''CORE_PORT'', ''4000'') \<in> set portVars \<and>
   unbound ''      - '' \<and> unbound '' # core'' \<and>
   fixPortMappings (''      - '' @ bindingText ''CORE_PORT'' ''4000'' @ '' # core'') =
     ''      - '' @ bindingText ''CORE_PORT'' ''4000'' @ '' # core'' \<and>
   fixPortMappings (bindingText ''CORE_PORT'' ''4000'') = bindingText ''CORE_PORT'' ''4000'' \<and>
   fixPortMappings (joinNL [''    ports:'', ''      - 8080:3000'']) =
     joinNL [''    ports:'', ''      - '' @ bindingText ''ENVOY_PORT'' ''3000''] \<and>
   fixPortMappings (fixPortMappings (joinNL [''    ports:'', ''      - 8080:3000''])) =
     fixPortMappings (joinNL [''    ports:'', ''      - 8080:3000''])"
proof -
  have m: "(''CORE_PORT'', ''4000'') \<in> set portVars" by (simp add: portVars_def)
  have u: "unbound ''      - '' \<and> unbound '' # core''" by code_simp
  have o: "fixPortMappings (joinNL [''    ports:'', ''      - 8080:3000'']) =
             joinNL [''    ports:'', ''      - '' @ bindingText ''ENVOY_PORT'' ''3000'']"
    by code_simp
  note th = port_rewrite_is_idempotent[where s = "joinNL [''    ports:'', ''      - 8080:3000'']"
      and pre = "''      - ''" and post = "'' # core''"]
  from th have i: "fixPortMappings (fixPortMappings (joinNL [''    ports:'', ''      - 8080:3000''])) =
      fixPortMappings (joinNL [''    ports:'', ''      - 8080:3000''])"
    by (rule conjunct1)
  from th m have b: "fixPortMappings (bindingText ''CORE_PORT'' ''4000'') = bindingText ''CORE_PORT'' ''4000'' \<and>
      (unbound ''      - '' \<and> unbound '' # core'' \<longrightarrow>
       fixPortMappings (''      - '' @ bindingText ''CORE_PORT'' ''4000'' @ '' # core'') =
         ''      - '' @ bindingText ''CORE_PORT'' ''4000'' @ '' # core'')"
    by blast
  from m u o i b show ?thesis by blast
qed

end
